(* ===== verification/Vero_Prelude.thy ===== *)
theory Vero_Prelude
  imports Main "HOL-Library.Word"
begin

text \<open>
  Prelude of the Vero development: the machine integers of the contract (\<open>u32\<close>, \<open>u64\<close>,
  \<open>i128\<close>) with the checked and saturating arithmetic Rust gives them, a few facts on lists
  and options that several components share, and the fact collections the component
  proofs are run with.  \<open>exec\<close> collects the execution equations of the contract monad,
  \<open>views\<close> the definitions of the read-only views of the storage.
\<close>

named_theorems exec
named_theorems views
named_theorems releasing

type_synonym u32 = "32 word"
type_synonym u64 = "64 word"
type_synonym i128 = "128 word"

section \<open>Rust integer arithmetic\<close>

text \<open>\<open>checked_add\<close> on an unsigned integer: \<open>None\<close> exactly on overflow.\<close>

definition checked_add :: "'a::len word \<Rightarrow> 'a word \<Rightarrow> 'a word option" where
  "checked_add a b = (if unat a + unat b < 2 ^ LENGTH('a) then Some (a + b) else None)"

definition saturating_add :: "'a::len word \<Rightarrow> 'a word \<Rightarrow> 'a word" where
  "saturating_add a b = (case checked_add a b of Some c \<Rightarrow> c | None \<Rightarrow> - 1)"

definition saturating_sub :: "'a::len word \<Rightarrow> 'a word \<Rightarrow> 'a word" where
  "saturating_sub a b = (if b \<le> a then a - b else 0)"

text \<open>Addition of signed integers: \<open>None\<close> where the exact sum leaves the type's range.\<close>

definition checked_add_signed :: "'a::len word \<Rightarrow> 'a word \<Rightarrow> 'a word option" where
  "checked_add_signed a b =
     (let r = sint a + sint b
      in if - (2 ^ (LENGTH('a) - 1)) \<le> r \<and> r < 2 ^ (LENGTH('a) - 1)
         then Some (word_of_int r) else None)"

lemma unat_plus_no_overflow:
  fixes a b :: "'a::len word"
  assumes "unat a + unat b < 2 ^ LENGTH('a)"
  shows "unat (a + b) = unat a + unat b"
  using assms by (simp add: unat_word_ariths)

lemma unat_of_nat_small: "n < 2 ^ LENGTH('a) \<Longrightarrow> unat (of_nat n :: 'a::len word) = n"
  by (simp add: unsigned_of_nat take_bit_nat_eq_self)

lemma checked_add_SomeD:
  "checked_add a b = Some c \<Longrightarrow> c = a + b \<and> unat c = unat a + unat b"
  by (auto simp: checked_add_def unat_plus_no_overflow split: if_splits)

lemma checked_add_None_iff:
  "checked_add (a::'a::len word) b = None \<longleftrightarrow> 2 ^ LENGTH('a) \<le> unat a + unat b"
  by (simp add: checked_add_def not_less)

lemma unat_saturating_add:
  "unat (saturating_add (a::'a::len word) b) = min (unat a + unat b) (2 ^ LENGTH('a) - 1)"
proof (cases "checked_add a b")
  case None
  then have "2 ^ LENGTH('a) \<le> unat a + unat b" by (simp add: checked_add_None_iff)
  with None show ?thesis by (simp add: saturating_add_def unsigned_minus_1_eq_mask mask_eq_exp_minus_1)
next
  case (Some c)
  then have "unat c = unat a + unat b" by (blast dest: checked_add_SomeD)
  moreover have "unat c < 2 ^ LENGTH('a)" by simp
  ultimately show ?thesis using Some by (simp add: saturating_add_def)
qed

lemma unat_saturating_sub: "unat (saturating_sub a b) = unat a - unat b"
  by (auto simp: saturating_sub_def unat_sub word_le_nat_alt)

lemma checked_add_signed_SomeD:
  fixes a b c :: "'a::len word"
  assumes "checked_add_signed a b = Some c"
  shows "sint c = sint a + sint b"
proof -
  let ?r = "sint a + sint b"
  from assms have range: "- (2 ^ (LENGTH('a) - 1)) \<le> ?r" "?r < 2 ^ (LENGTH('a) - 1)"
    and c: "c = word_of_int ?r"
    by (auto simp: checked_add_signed_def Let_def split: if_splits)
  from range have "signed_take_bit (LENGTH('a) - 1) ?r = ?r"
    by (intro signed_take_bit_int_eq_self)
  then show ?thesis unfolding c by (simp only: sint_sbintrunc')
qed

section \<open>Lists and options\<close>

lemma if_apply2: "(if b then f else g) x y = (if b then f x y else g x y)"
  by simp

lemma case_option_apply2:
  "(case v of None \<Rightarrow> f | Some a \<Rightarrow> g a) x y = (case v of None \<Rightarrow> f x y | Some a \<Rightarrow> g a x y)"
  by (cases v) simp_all

lemma count_list_distinct: "distinct xs \<Longrightarrow> x \<in> set xs \<Longrightarrow> count_list xs x = 1"
  by (induction xs) (auto simp: count_list_0_iff)

lemma distinct_snoc_iff: "distinct (xs @ [x]) \<longleftrightarrow> distinct xs \<and> x \<notin> set xs"
  by auto

end
