(* ===== verification/Vero_Types.thy ===== *)
theory Vero_Types
  imports Vero_Prelude
begin

text \<open>
  \<open>src/src/types.rs\<close>: the data of the contract.  Structs are records, enums are
  datatypes with the constructors of the source.  \<open>sval\<close> is the union of the types the
  contract keeps in its instance storage; \<open>key_type\<close> says which of them belongs under which
  \<open>DataKey\<close>, which the source only says by the type annotations of its reads and writes.
\<close>

datatype address = Address (address_id: nat)

instantiation address :: linorder
begin

definition less_eq_address :: "address \<Rightarrow> address \<Rightarrow> bool" where
  "less_eq_address a b \<longleftrightarrow> address_id a \<le> address_id b"

definition less_address :: "address \<Rightarrow> address \<Rightarrow> bool" where
  "less_address a b \<longleftrightarrow> address_id a < address_id b"

instance
  by standard (auto simp: less_eq_address_def less_address_def address.expand)

end

type_synonym bytesn32 = "256 word"

record task =
  t_id :: u64
  t_votes :: u32
  t_is_done :: bool
  t_resolved_at :: u64
  t_total_weight_accrued :: u64
  t_is_cancelled :: bool

record reward_stream =
  rs_task_id :: u64
  rs_contributor :: address
  rs_drips_contract :: address
  rs_active :: bool

datatype data_key =
    Guardian address
  | Reputation address
  | WeightThreshold
  | ActiveTask u64
  | ArchivedTask u64
  | Voted u64 address
  | Admin
  | DripsAddress
  | VaultAddress
  | RewardStream u64
  | TokenAddress
  | LockThreshold
  | LockedBalance address
  | Lock
  | FailureCount
  | Paused
  | AllGuardians
  | AllTasks
  | AllVotes
  | AllRewardStreams
  | Initialized

datatype operation =
    RegisterTask | Vote | AddGuardian | SetReputation | LockTokens | UnlockTokens
  | ResignGuardian | SetWeightThreshold | StartRewardStream | TogglePause
  | RecordFailure | ResetCircuitBreaker | UpgradeContract

datatype contract_error =
    NotAuthorized | DuplicateVote | TaskNotVerified | StreamAlreadyActive
  | DripsCallFailed | AlreadyInitialized | NotInitialized | NoReputationScore
  | ZeroWeightVote | WeightOverflow | InsufficientLockedBalance | StillGuardian
  | NotGuardian | Locked | ContractPaused | EscrowUnavailable | TaskCancelled
  | TaskNotFound | TaskNotStale | TaskAlreadyArchived | BatchTooLarge

text \<open>The discriminants of the two enums, as \<open>#[contracterror]\<close> and \<open>#[contracttype]\<close> export them.\<close>

fun error_code :: "contract_error \<Rightarrow> u32" where
  "error_code NotAuthorized = 1"
| "error_code DuplicateVote = 2"
| "error_code TaskNotVerified = 3"
| "error_code StreamAlreadyActive = 4"
| "error_code DripsCallFailed = 5"
| "error_code AlreadyInitialized = 6"
| "error_code NotInitialized = 7"
| "error_code NoReputationScore = 8"
| "error_code ZeroWeightVote = 9"
| "error_code WeightOverflow = 10"
| "error_code InsufficientLockedBalance = 11"
| "error_code StillGuardian = 12"
| "error_code NotGuardian = 13"
| "error_code Locked = 14"
| "error_code ContractPaused = 15"
| "error_code EscrowUnavailable = 16"
| "error_code TaskCancelled = 17"
| "error_code TaskNotFound = 18"
| "error_code TaskNotStale = 19"
| "error_code TaskAlreadyArchived = 20"
| "error_code BatchTooLarge = 21"

fun operation_code :: "operation \<Rightarrow> u32" where
  "operation_code RegisterTask = 0"
| "operation_code Vote = 1"
| "operation_code AddGuardian = 2"
| "operation_code SetReputation = 3"
| "operation_code LockTokens = 4"
| "operation_code UnlockTokens = 5"
| "operation_code ResignGuardian = 6"
| "operation_code SetWeightThreshold = 7"
| "operation_code StartRewardStream = 8"
| "operation_code TogglePause = 9"
| "operation_code RecordFailure = 10"
| "operation_code ResetCircuitBreaker = 11"
| "operation_code UpgradeContract = 12"

section \<open>Published events\<close>

text \<open>The events of \<open>src/src/events.rs\<close>, one constructor per \<open>publish\<close> call, with its payload.\<close>

datatype event =
    TaskResolved u64 u64
  | WeightedVote u64 address u64
  | PauseToggled bool
  | RewardStreamStarted u64 address
  | RewardStreamFailed u64 address
  | CircuitBreakerTriggered u32
  | TaskCancelledEvent u64
  | TaskArchived u64 u64

section \<open>Stored values\<close>

datatype sval =
    VBool bool
  | VU32 u32
  | VU64 u64
  | VI128 i128
  | VAddress address
  | VTask task
  | VStream reward_stream
  | VAddresses "address list"
  | VIds "u64 list"
  | VVotes "(u64 \<times> address) list"

type_synonym storage = "data_key \<Rightarrow> sval option"

text \<open>The conversions a typed read performs; \<open>None\<close> is a failed conversion.\<close>

fun as_bool :: "sval \<Rightarrow> bool option" where
  "as_bool (VBool b) = Some b" | "as_bool _ = None"
fun as_u32 :: "sval \<Rightarrow> u32 option" where
  "as_u32 (VU32 n) = Some n" | "as_u32 _ = None"
fun as_u64 :: "sval \<Rightarrow> u64 option" where
  "as_u64 (VU64 n) = Some n" | "as_u64 _ = None"
fun as_i128 :: "sval \<Rightarrow> i128 option" where
  "as_i128 (VI128 n) = Some n" | "as_i128 _ = None"
fun as_address :: "sval \<Rightarrow> address option" where
  "as_address (VAddress a) = Some a" | "as_address _ = None"
fun as_task :: "sval \<Rightarrow> task option" where
  "as_task (VTask t) = Some t" | "as_task _ = None"
fun as_stream :: "sval \<Rightarrow> reward_stream option" where
  "as_stream (VStream r) = Some r" | "as_stream _ = None"
fun as_addresses :: "sval \<Rightarrow> address list option" where
  "as_addresses (VAddresses xs) = Some xs" | "as_addresses _ = None"
fun as_ids :: "sval \<Rightarrow> u64 list option" where
  "as_ids (VIds xs) = Some xs" | "as_ids _ = None"
fun as_votes :: "sval \<Rightarrow> (u64 \<times> address) list option" where
  "as_votes (VVotes xs) = Some xs" | "as_votes _ = None"

text \<open>The type under each key, from the reads and writes of the source.\<close>

fun key_type :: "data_key \<Rightarrow> sval \<Rightarrow> bool" where
  "key_type (Guardian _) v = (as_bool v \<noteq> None)"
| "key_type (Reputation _) v = (as_u64 v \<noteq> None)"
| "key_type WeightThreshold v = (as_u64 v \<noteq> None)"
| "key_type (ActiveTask _) v = (as_task v \<noteq> None)"
| "key_type (ArchivedTask _) v = (as_task v \<noteq> None)"
| "key_type (Voted _ _) v = (as_bool v \<noteq> None)"
| "key_type Admin v = (as_address v \<noteq> None)"
| "key_type DripsAddress v = (as_address v \<noteq> None)"
| "key_type VaultAddress v = (as_address v \<noteq> None)"
| "key_type (RewardStream _) v = (as_stream v \<noteq> None)"
| "key_type TokenAddress v = (as_address v \<noteq> None)"
| "key_type LockThreshold v = (as_i128 v \<noteq> None)"
| "key_type (LockedBalance _) v = (as_i128 v \<noteq> None)"
| "key_type Lock v = (as_bool v \<noteq> None)"
| "key_type FailureCount v = (as_u32 v \<noteq> None)"
| "key_type Paused v = (as_bool v \<noteq> None)"
| "key_type AllGuardians v = (as_addresses v \<noteq> None)"
| "key_type AllTasks v = (as_ids v \<noteq> None)"
| "key_type AllVotes v = (as_votes v \<noteq> None)"
| "key_type AllRewardStreams v = (as_ids v \<noteq> None)"
| "key_type Initialized v = (as_bool v \<noteq> None)"

definition well_typed :: "storage \<Rightarrow> bool" where
  "well_typed \<sigma> \<longleftrightarrow> (\<forall>k v. \<sigma> k = Some v \<longrightarrow> key_type k v)"

lemma well_typed_empty [simp, intro]: "well_typed Map.empty"
  by (simp add: well_typed_def)

lemma well_typed_upd [simp, intro]: "well_typed \<sigma> \<Longrightarrow> key_type k v \<Longrightarrow> well_typed (\<sigma>(k \<mapsto> v))"
  by (simp add: well_typed_def)

lemma well_typed_remove [simp, intro]: "well_typed \<sigma> \<Longrightarrow> well_typed (\<sigma>(k := None))"
  by (simp add: well_typed_def)

lemma well_typedD: "well_typed \<sigma> \<Longrightarrow> \<sigma> k = Some v \<Longrightarrow> key_type k v"
  by (simp add: well_typed_def)

section \<open>Views of the storage\<close>

text \<open>
  \<open>look proj \<sigma> k\<close> is what a typed read of \<open>k\<close> finds, \<open>look_or\<close> the same with the default of
  an \<open>unwrap_or\<close>.
\<close>

definition look :: "(sval \<Rightarrow> 'a option) \<Rightarrow> storage \<Rightarrow> data_key \<Rightarrow> 'a option" where
  "look proj \<sigma> k = (case \<sigma> k of None \<Rightarrow> None | Some v \<Rightarrow> proj v)"

definition look_or :: "(sval \<Rightarrow> 'a option) \<Rightarrow> 'a \<Rightarrow> storage \<Rightarrow> data_key \<Rightarrow> 'a" where
  "look_or proj d \<sigma> k = (case look proj \<sigma> k of None \<Rightarrow> d | Some a \<Rightarrow> a)"

lemma look_upd [simp]: "look proj (\<sigma>(k := v)) k' = (if k' = k then (case v of None \<Rightarrow> None | Some x \<Rightarrow> proj x) else look proj \<sigma> k')"
  by (simp add: look_def)

lemma look_or_upd [simp]:
  "look_or proj d (\<sigma>(k := v)) k' =
     (if k' = k then (case v of None \<Rightarrow> d | Some x \<Rightarrow> (case proj x of None \<Rightarrow> d | Some a \<Rightarrow> a)) else look_or proj d \<sigma> k')"
  by (simp add: look_or_def split: option.splits)

lemma look_empty [simp]: "look proj Map.empty k = None" and look_or_empty [simp]: "look_or proj d Map.empty k = d"
  by (simp_all add: look_def look_or_def)

section \<open>Exported codes\<close>

text \<open>
  A client can tell every error and every operation by its number: the numbers are
  pairwise different, the errors use 1 to 21 and the operations 0 to 12.
\<close>

lemma codes_distinct:
  "(error_code e = error_code e' \<longleftrightarrow> e = e') \<and> 1 \<le> error_code e \<and> error_code e \<le> 21 \<and>
   (operation_code p = operation_code q \<longleftrightarrow> p = q) \<and> operation_code p \<le> 12"
proof (intro conjI)
  show "error_code e = error_code e' \<longleftrightarrow> e = e'" by (cases e; cases e'; simp)
  show "1 \<le> error_code e" "error_code e \<le> 21" by (cases e; simp)+
  show "operation_code p = operation_code q \<longleftrightarrow> p = q" by (cases p; cases q; simp)
  show "operation_code p \<le> 12" by (cases p; simp)
qed

end
