(* ===== verification/Soroban_Host.thy ===== *)
theory Soroban_Host
  imports Vero_Types
begin

text \<open>
  What the contract sees of the machine it runs on.  An entry point runs against an
  environment \<open>env\<close> (the instance storage, the published events, the time to live of the
  instance, a pending code update, and the state of the other contracts) in a context
  \<open>ctx\<close> that is fixed during one invocation (which addresses have authorised the call, the
  ledger's clock, the contract's own address, the host's rule for extending the time to live).
  The other contracts the code calls (the token, the vault, the Drips protocol) and the table
  of installed code are not part of the repository: they are the fields of \<open>externs\<close>, an
  argument of everything below.  So is the rule for the time to live: \<open>extend_live\<close> maps the
  threshold, the requested extension and the ledger until which the instance lives to the
  ledger until which it lives afterwards.  What it answers depends on the current ledger and
  on the settings of the network (which cap it), and nothing is assumed about it here.

  A Rust function becomes a value of type \<open>('w, 'a) contract\<close>.  It ends with \<open>Ok\<close>, with one
  of the contract's own errors, or with a trap (a failed \<open>require_auth\<close>, a panic, an
  arithmetic overflow under \<open>overflow-checks\<close>, a failed call of another contract).  Errors
  keep the state reached so far, as a Rust \<open>Err\<close> does; \<open>invoke\<close> is the frame around a whole
  entry point, which throws away every effect of an invocation that did not end with \<open>Ok\<close>.
\<close>

section \<open>Contexts, environments, outcomes\<close>

record 'w externs =
  x_token_transfer :: "address \<Rightarrow> address \<Rightarrow> address \<Rightarrow> i128 \<Rightarrow> 'w \<Rightarrow> 'w option"
  x_release_funds :: "address \<Rightarrow> u64 \<Rightarrow> 'w \<Rightarrow> 'w option"
  x_start_stream :: "address \<Rightarrow> address \<Rightarrow> u64 \<Rightarrow> u32 \<Rightarrow> 'w \<Rightarrow> 'w option"
  x_wasm_installed :: "bytesn32 \<Rightarrow> bool"

record 'w ctx =
  authorized :: "address \<Rightarrow> bool"
  timestamp :: u64
  extend_live :: "u32 \<Rightarrow> u32 \<Rightarrow> u32 \<Rightarrow> u32"
  self :: address
  externs :: "'w externs"

record 'w env =
  storage :: storage
  events :: "event list"
  live_until :: u32
  wasm_update :: "bytesn32 option"
  world :: 'w

datatype trap_reason =
    AuthFailed | ConversionError | ArithmeticOverflow | ContractCallFailed
  | Panicked | IndexOutOfBounds | WasmMissing

datatype 'a outcome = Ok 'a | Err contract_error | Trap trap_reason

type_synonym ('w, 'a) contract = "'w ctx \<Rightarrow> 'w env \<Rightarrow> 'a outcome \<times> 'w env"

section \<open>The contract monad\<close>

definition ret :: "'a \<Rightarrow> ('w, 'a) contract" where
  "ret a C s = (Ok a, s)"

definition fail :: "contract_error \<Rightarrow> ('w, 'a) contract" where
  "fail e C s = (Err e, s)"

definition trap :: "trap_reason \<Rightarrow> ('w, 'a) contract" where
  "trap r C s = (Trap r, s)"

definition bindM :: "('w, 'a) contract \<Rightarrow> ('a \<Rightarrow> ('w, 'b) contract) \<Rightarrow> ('w, 'b) contract" where
  "bindM m f C s =
     (case m C s of
        (Ok a, s') \<Rightarrow> f a C s'
      | (Err e, s') \<Rightarrow> (Err e, s')
      | (Trap r, s') \<Rightarrow> (Trap r, s'))"

abbreviation thenM :: "('w, 'a) contract \<Rightarrow> ('w, 'b) contract \<Rightarrow> ('w, 'b) contract" where
  "thenM m k \<equiv> bindM m (\<lambda>_. k)"

text \<open>\<open>attempt\<close> hands the \<open>Result\<close> of a call to the caller instead of propagating its error;
  a trap cannot be caught.  \<open>ok_or\<close> and \<open>checked\<close> are the two ways the code turns an
  \<open>Option\<close> into an early return or a panic.\<close>

definition attempt :: "('w, 'a) contract \<Rightarrow> ('w, 'a outcome) contract" where
  "attempt m C s = (case m C s of (Trap r, s') \<Rightarrow> (Trap r, s') | (res, s') \<Rightarrow> (Ok res, s'))"

definition from_result :: "'a outcome \<Rightarrow> ('w, 'a) contract" where
  "from_result res C s = (res, s)"

definition ok_or :: "contract_error \<Rightarrow> 'a option \<Rightarrow> ('w, 'a) contract" where
  "ok_or e v = (case v of None \<Rightarrow> fail e | Some a \<Rightarrow> ret a)"

definition checked :: "'a option \<Rightarrow> ('w, 'a) contract" where
  "checked v = (case v of None \<Rightarrow> trap ArithmeticOverflow | Some a \<Rightarrow> ret a)"

lemma bindM_assoc [exec]: "bindM (bindM m f) g = bindM m (\<lambda>a. bindM (f a) g)"
  by (intro ext) (simp add: bindM_def split: prod.split outcome.split)

lemma bindM_ret [exec]: "bindM (ret a) f = f a"
  and bindM_fail [exec]: "bindM (fail e) f = fail e"
  and bindM_trap [exec]: "bindM (trap r) f = trap r"
  and bindM_ret_right [exec]: "bindM m ret = m"
  by (intro ext; simp add: bindM_def ret_def fail_def trap_def split: prod.split outcome.split)+

lemma bindM_if [exec]: "bindM (if b then m else m') f = (if b then bindM m f else bindM m' f)"
  by simp

lemma bindM_case_option [exec]:
  "bindM (case v of None \<Rightarrow> m | Some a \<Rightarrow> m' a) f =
     (case v of None \<Rightarrow> bindM m f | Some a \<Rightarrow> bindM (m' a) f)"
  by (simp split: option.split)

lemma ret_apply [exec]: "ret a C s = (Ok a, s)"
  and fail_apply [exec]: "fail e C s = (Err e, s)"
  and trap_apply [exec]: "trap r C s = (Trap r, s)"
  and from_result_apply [exec]: "from_result res C s = (res, s)"
  by (simp_all add: ret_def fail_def trap_def from_result_def)

lemmas [exec] = if_apply2 case_option_apply2

section \<open>Storage, authorisation, clock and events\<close>

definition instance_has :: "data_key \<Rightarrow> ('w, bool) contract" where
  "instance_has k C s = (Ok (storage s k \<noteq> None), s)"

definition instance_get :: "(sval \<Rightarrow> 'a option) \<Rightarrow> data_key \<Rightarrow> ('w, 'a option) contract" where
  "instance_get proj k C s =
     (case storage s k of
        None \<Rightarrow> (Ok None, s)
      | Some v \<Rightarrow> (case proj v of None \<Rightarrow> (Trap ConversionError, s) | Some a \<Rightarrow> (Ok (Some a), s)))"

definition instance_get_or :: "(sval \<Rightarrow> 'a option) \<Rightarrow> 'a \<Rightarrow> data_key \<Rightarrow> ('w, 'a) contract" where
  "instance_get_or proj d k =
     bindM (instance_get proj k) (\<lambda>v. ret (case v of None \<Rightarrow> d | Some a \<Rightarrow> a))"

definition instance_set :: "data_key \<Rightarrow> sval \<Rightarrow> ('w, unit) contract" where
  "instance_set k v C s = (Ok (), s\<lparr>storage := (storage s)(k \<mapsto> v)\<rparr>)"

definition instance_remove :: "data_key \<Rightarrow> ('w, unit) contract" where
  "instance_remove k C s = (Ok (), s\<lparr>storage := (storage s)(k := None)\<rparr>)"

text \<open>The new time to live is the host's answer.\<close>

definition extend_ttl :: "u32 \<Rightarrow> u32 \<Rightarrow> ('w, unit) contract" where
  "extend_ttl threshold extend_to C s =
     (Ok (), s\<lparr>live_until := extend_live C threshold extend_to (live_until s)\<rparr>)"

definition require_auth :: "address \<Rightarrow> ('w, unit) contract" where
  "require_auth a C s = (if authorized C a then (Ok (), s) else (Trap AuthFailed, s))"

definition publish :: "event \<Rightarrow> ('w, unit) contract" where
  "publish e C s = (Ok (), s\<lparr>events := events s @ [e]\<rparr>)"

definition ledger_timestamp :: "('w, u64) contract" where
  "ledger_timestamp C s = (Ok (timestamp C), s)"

definition current_contract_address :: "('w, address) contract" where
  "current_contract_address C s = (Ok (self C), s)"

section \<open>Calls of other contracts\<close>

text \<open>A plain cross-contract call traps when the callee fails; a \<open>try_\<close> call reports it, and
  the callee's effects are undone either way.\<close>

definition call_extern :: "('w externs \<Rightarrow> 'w \<Rightarrow> 'w option) \<Rightarrow> ('w, unit) contract" where
  "call_extern f C s =
     (case f (externs C) (world s) of
        None \<Rightarrow> (Trap ContractCallFailed, s) | Some w \<Rightarrow> (Ok (), s\<lparr>world := w\<rparr>))"

definition try_call_extern :: "('w externs \<Rightarrow> 'w \<Rightarrow> 'w option) \<Rightarrow> ('w, bool) contract" where
  "try_call_extern f C s =
     (case f (externs C) (world s) of
        None \<Rightarrow> (Ok False, s) | Some w \<Rightarrow> (Ok True, s\<lparr>world := w\<rparr>))"

definition token_transfer :: "address \<Rightarrow> address \<Rightarrow> address \<Rightarrow> i128 \<Rightarrow> ('w, unit) contract" where
  "token_transfer token from to amount =
     call_extern (\<lambda>x. x_token_transfer x token from to amount)"

definition update_current_contract_wasm :: "bytesn32 \<Rightarrow> ('w, unit) contract" where
  "update_current_contract_wasm h C s =
     (if x_wasm_installed (externs C) h then (Ok (), s\<lparr>wasm_update := Some h\<rparr>)
      else (Trap WasmMissing, s))"

section \<open>The frame of an invocation\<close>

definition invoke :: "('w, 'a) contract \<Rightarrow> ('w, 'a) contract" where
  "invoke m C s = (case m C s of (Ok a, s') \<Rightarrow> (Ok a, s') | (Err e, _) \<Rightarrow> (Err e, s) | (Trap r, _) \<Rightarrow> (Trap r, s))"

lemma fst_invoke [simp]: "fst (invoke m C s) = fst (m C s)"
  by (simp add: invoke_def split: prod.split outcome.split)

lemma invoke_Ok_iff: "invoke m C s = (Ok a, s') \<longleftrightarrow> m C s = (Ok a, s')"
  by (simp add: invoke_def split: prod.split outcome.split)

lemma invoke_cases:
  obtains a s' where "m C s = (Ok a, s')" "invoke m C s = (Ok a, s')"
  | "\<forall>a. fst (invoke m C s) \<noteq> Ok a" "snd (invoke m C s) = s"
  by (cases "m C s"; cases "fst (m C s)") (auto simp: invoke_def)

section \<open>Execution equations\<close>

lemma prim_exec [exec]:
  "instance_has k C s = (Ok (storage s k \<noteq> None), s)"
  "instance_set k v C s = (Ok (), s\<lparr>storage := (storage s)(k \<mapsto> v)\<rparr>)"
  "instance_remove k C s = (Ok (), s\<lparr>storage := (storage s)(k := None)\<rparr>)"
  "require_auth a C s = (if authorized C a then (Ok (), s) else (Trap AuthFailed, s))"
  "publish e C s = (Ok (), s\<lparr>events := events s @ [e]\<rparr>)"
  "ledger_timestamp C s = (Ok (timestamp C), s)"
  "current_contract_address C s = (Ok (self C), s)"
  by (simp_all add: instance_has_def instance_set_def instance_remove_def require_auth_def
        publish_def ledger_timestamp_def current_contract_address_def)

lemma bindM_prim [exec]:
  "bindM (instance_has k) f C s = f (storage s k \<noteq> None) C s"
  "bindM (instance_set k v) g C s = g () C (s\<lparr>storage := (storage s)(k \<mapsto> v)\<rparr>)"
  "bindM (instance_remove k) g C s = g () C (s\<lparr>storage := (storage s)(k := None)\<rparr>)"
  "bindM (require_auth a) g C s = (if authorized C a then g () C s else (Trap AuthFailed, s))"
  "bindM (publish e) g C s = g () C (s\<lparr>events := events s @ [e]\<rparr>)"
  "bindM ledger_timestamp h C s = h (timestamp C) C s"
  "bindM current_contract_address j C s = j (self C) C s"
  by (simp_all add: bindM_def prim_exec)

lemma bindM_extern [exec]:
  "bindM (call_extern p) g C s =
     (case p (externs C) (world s) of
        None \<Rightarrow> (Trap ContractCallFailed, s) | Some w \<Rightarrow> g () C (s\<lparr>world := w\<rparr>))"
  "bindM (try_call_extern p) h C s =
     (case p (externs C) (world s) of
        None \<Rightarrow> h False C s | Some w \<Rightarrow> h True C (s\<lparr>world := w\<rparr>))"
  by (simp_all add: bindM_def call_extern_def try_call_extern_def split: option.split)

lemma extend_ttl_exec [exec]:
  "extend_ttl n m C s =
     (Ok (), s\<lparr>live_until := extend_live C n m (live_until s)\<rparr>)"
  "bindM (extend_ttl n m) g C s =
     g () C (s\<lparr>live_until := extend_live C n m (live_until s)\<rparr>)"
  by (simp_all add: bindM_def extend_ttl_def)

lemmas [exec] = token_transfer_def ok_or_def checked_def

text \<open>In a well-typed storage a typed read never traps: it returns the view.\<close>

lemma instance_get_typed [exec]:
  assumes "well_typed (storage s)" and "\<forall>v. key_type k v \<longrightarrow> proj v \<noteq> None"
  shows "instance_get proj k C s = (Ok (look proj (storage s) k), s)"
    and "bindM (instance_get proj k) f C s = f (look proj (storage s) k) C s"
  using assms
  by (auto simp: instance_get_def bindM_def look_def split: option.split dest: well_typedD)

lemma instance_get_or_typed [exec]:
  assumes "well_typed (storage s)" and "\<forall>v. key_type k v \<longrightarrow> proj v \<noteq> None"
  shows "instance_get_or proj d k C s = (Ok (look_or proj d (storage s) k), s)"
    and "bindM (instance_get_or proj d k) f C s = f (look_or proj d (storage s) k) C s"
  using assms by (simp_all add: instance_get_or_def exec look_or_def)

end
