(* ===== verification/Vero_Registry.thy ===== *)
theory Vero_Registry
  imports Soroban_Host
begin

text \<open>
  The contract cannot enumerate its storage, so it keeps lists of the keys it has written:
  \<open>AllVotes\<close> beside \<open>Voted\<close>, \<open>AllRewardStreams\<close> beside \<open>RewardStream\<close>, \<open>AllGuardians\<close>
  beside \<open>Guardian\<close>.  The locale \<open>indexed_registry\<close> states what such a pair of an entry key
  and an index key has to satisfy and proves the two invariants the components use:
  \<open>indexed\<close> (the list has each present entry exactly once) for registries that only grow, and
  \<open>covered\<close> (each present entry is in the list) for a registry with removal.
\<close>

definition indexed ::
  "('i \<Rightarrow> data_key) \<Rightarrow> data_key \<Rightarrow> (sval \<Rightarrow> 'i list option) \<Rightarrow> storage \<Rightarrow> bool" where
  "indexed key index dec \<sigma> \<longleftrightarrow>
     distinct (look_or dec [] \<sigma> index) \<and>
     (\<forall>i. i \<in> set (look_or dec [] \<sigma> index) \<longleftrightarrow> \<sigma> (key i) \<noteq> None)"

definition covered ::
  "('i \<Rightarrow> data_key) \<Rightarrow> data_key \<Rightarrow> (sval \<Rightarrow> 'i list option) \<Rightarrow> storage \<Rightarrow> bool" where
  "covered key index dec \<sigma> \<longleftrightarrow>
     (\<forall>i. \<sigma> (key i) \<noteq> None \<longrightarrow> i \<in> set (look_or dec [] \<sigma> index))"

locale indexed_registry =
  fixes key :: "'i \<Rightarrow> data_key"
    and index :: data_key
    and enc :: "'i list \<Rightarrow> sval"
    and dec :: "sval \<Rightarrow> 'i list option"
  assumes key_inj: "key i = key j \<Longrightarrow> i = j"
    and key_index: "key i \<noteq> index"
    and dec_enc: "dec (enc xs) = Some xs"
begin

lemma indexed_empty: "indexed key index dec Map.empty"
  by (simp add: indexed_def)

lemma indexed_insert:
  assumes "indexed key index dec \<sigma>" and "\<sigma> (key i) = None"
  shows "indexed key index dec (\<sigma>(index \<mapsto> enc (look_or dec [] \<sigma> index @ [i]), key i \<mapsto> v))"
proof -
  have "index \<noteq> key i" for i using key_index [of i] by metis
  with assms show ?thesis
    by (auto simp: indexed_def dec_enc key_index dest: key_inj)
qed

lemma indexed_frame:
  assumes "k \<noteq> index" and "\<And>i. k \<noteq> key i"
  shows "indexed key index dec (\<sigma>(k := v)) \<longleftrightarrow> indexed key index dec \<sigma>"
  using assms by (auto simp: indexed_def)

lemma indexed_complete:
  assumes "indexed key index dec \<sigma>" and "\<sigma> (key i) \<noteq> None"
  shows "count_list (look_or dec [] \<sigma> index) i = 1"
  using assms by (simp add: indexed_def count_list_distinct)

lemma covered_empty: "covered key index dec Map.empty"
  by (simp add: covered_def)

lemma covered_insert:
  assumes "covered key index dec \<sigma>"
  shows "covered key index dec (\<sigma>(index \<mapsto> enc (look_or dec [] \<sigma> index @ [i]), key i \<mapsto> v))"
proof -
  have "index \<noteq> key i" for i using key_index [of i] by metis
  with assms show ?thesis
    by (auto simp: covered_def dec_enc key_index dest: key_inj)
qed

lemma covered_overwrite:
  assumes "covered key index dec \<sigma>" and "\<sigma> (key i) \<noteq> None \<or> v = None"
  shows "covered key index dec (\<sigma>(key i := v))"
  using assms key_index [of i] by (auto simp: covered_def split: if_splits)

lemma covered_frame:
  assumes "k \<noteq> index" and "\<And>i. k \<noteq> key i"
  shows "covered key index dec (\<sigma>(k := v)) \<longleftrightarrow> covered key index dec \<sigma>"
  using assms by (auto simp: covered_def)

end

end
