(* ===== verification/Vero_Events.thy ===== *)
theory Vero_Events
  imports Vero_Registry
begin

text \<open>
  \<open>src/src/events.rs\<close>: the events the contract publishes and the topic symbol each of them
  carries.  \<open>vote_weight\<close> and \<open>vote_count\<close> read the vote history of a task back from the
  event log, which is how an indexer outside the ledger audits a task.
\<close>

fun event_topic :: "event \<Rightarrow> string" where
  "event_topic (TaskResolved _ _) = ''resolved''"
| "event_topic (WeightedVote _ _ _) = ''wt_vote''"
| "event_topic (PauseToggled _) = ''paused''"
| "event_topic (RewardStreamStarted _ _) = ''rw_start''"
| "event_topic (RewardStreamFailed _ _) = ''rw_fail''"
| "event_topic (CircuitBreakerTriggered _) = ''cb_trip''"
| "event_topic (TaskCancelledEvent _) = ''cancelled''"
| "event_topic (TaskArchived _ _) = ''archived''"

definition emit_task_resolved :: "u64 \<Rightarrow> u64 \<Rightarrow> ('w, unit) contract" where
  [exec]: "emit_task_resolved task_id weight = publish (TaskResolved task_id weight)"

definition emit_weighted_vote :: "u64 \<Rightarrow> address \<Rightarrow> u64 \<Rightarrow> ('w, unit) contract" where
  [exec]: "emit_weighted_vote task_id guardian weight = publish (WeightedVote task_id guardian weight)"

definition emit_pause_toggled :: "bool \<Rightarrow> ('w, unit) contract" where
  [exec]: "emit_pause_toggled paused = publish (PauseToggled paused)"

definition emit_reward_stream_started :: "u64 \<Rightarrow> address \<Rightarrow> ('w, unit) contract" where
  [exec]: "emit_reward_stream_started task_id contributor =
     publish (RewardStreamStarted task_id contributor)"

definition emit_reward_stream_failed :: "u64 \<Rightarrow> address \<Rightarrow> ('w, unit) contract" where
  [exec]: "emit_reward_stream_failed task_id contributor =
     publish (RewardStreamFailed task_id contributor)"

definition emit_circuit_breaker_triggered :: "u32 \<Rightarrow> ('w, unit) contract" where
  [exec]: "emit_circuit_breaker_triggered failure_count = publish (CircuitBreakerTriggered failure_count)"

definition emit_task_cancelled :: "u64 \<Rightarrow> ('w, unit) contract" where
  [exec]: "emit_task_cancelled task_id = publish (TaskCancelledEvent task_id)"

definition emit_task_archived :: "u64 \<Rightarrow> u64 \<Rightarrow> ('w, unit) contract" where
  [exec]: "emit_task_archived task_id resolved_at = publish (TaskArchived task_id resolved_at)"

section \<open>The vote history in the log\<close>

fun votes_of :: "u64 \<Rightarrow> event list \<Rightarrow> (address \<times> u64) list" where
  "votes_of t [] = []"
| "votes_of t (WeightedVote t' g w # es) =
     (if t' = t then (g, w) # votes_of t es else votes_of t es)"
| "votes_of t (_ # es) = votes_of t es"

definition vote_weight :: "u64 \<Rightarrow> event list \<Rightarrow> nat" where
  "vote_weight t es = sum_list (map (unat \<circ> snd) (votes_of t es))"

definition vote_count :: "u64 \<Rightarrow> event list \<Rightarrow> nat" where
  "vote_count t es = length (votes_of t es)"

lemma votes_of_append [simp]: "votes_of t (es @ fs) = votes_of t es @ votes_of t fs"
  by (induction t es rule: votes_of.induct) auto

end
