(* ===== verification/Vero_Circuit_Breaker.thy ===== *)
theory Vero_Circuit_Breaker
  imports Vero_Events
begin

text \<open>
  \<open>src/src/circuit_breaker.rs\<close>: the pause flag every guarded entry point checks first, and
  the failure counter that sets it.
\<close>

definition FAILURE_THRESHOLD :: u32 where
  "FAILURE_THRESHOLD = 50"

definition require_not_paused :: "('w, unit) contract" where
  "require_not_paused =
     bindM (instance_get_or as_bool False Paused) (\<lambda>paused.
     if paused then fail ContractPaused else ret ())"

definition circuit_breaker_record_failure :: "('w, unit) contract" where
  "circuit_breaker_record_failure =
     bindM (instance_get_or as_u32 0 FailureCount) (\<lambda>c.
     bindM (checked (checked_add c 1)) (\<lambda>count.
     thenM (instance_set FailureCount (VU32 count)) (
     if count > FAILURE_THRESHOLD then
       bindM (instance_get_or as_bool False Paused) (\<lambda>paused.
       if \<not> paused then
         thenM (instance_set Paused (VBool True)) (
         emit_circuit_breaker_triggered count)
       else ret ())
     else ret ())))"

definition circuit_breaker_reset :: "address \<Rightarrow> ('w, unit) contract" where
  "circuit_breaker_reset admin =
     thenM (require_auth admin) (
     thenM (instance_set FailureCount (VU32 0)) (
     instance_remove Paused))"

section \<open>Views and execution\<close>

definition paused_view :: "storage \<Rightarrow> bool" where
  [views]: "paused_view \<sigma> = look_or as_bool False \<sigma> Paused"

definition failures_view :: "storage \<Rightarrow> u32" where
  [views]: "failures_view \<sigma> = look_or as_u32 0 \<sigma> FailureCount"

lemma require_not_paused_exec [exec]:
  assumes "well_typed (storage s)"
  shows "require_not_paused C s =
      (if paused_view (storage s) then (Err ContractPaused, s) else (Ok (), s))"
    and "bindM require_not_paused f C s =
      (if paused_view (storage s) then (Err ContractPaused, s) else f () C s)"
  using assms by (simp_all add: require_not_paused_def exec views)

lemma record_failure_exec:
  assumes "well_typed (storage s)"
  shows "circuit_breaker_record_failure C s =
     (case checked_add (failures_view (storage s)) 1 of
        None \<Rightarrow> (Trap ArithmeticOverflow, s)
      | Some n \<Rightarrow>
          if n > 50 \<and> \<not> paused_view (storage s)
          then (Ok (), s\<lparr>storage := (storage s)(FailureCount \<mapsto> VU32 n, Paused \<mapsto> VBool True),
                        events := events s @ [CircuitBreakerTriggered n]\<rparr>)
          else (Ok (), s\<lparr>storage := (storage s)(FailureCount \<mapsto> VU32 n)\<rparr>))"
  using assms
  by (simp add: circuit_breaker_record_failure_def FAILURE_THRESHOLD_def exec views split: option.split)

lemma reset_exec:
  "circuit_breaker_reset admin C s =
     (if authorized C admin
      then (Ok (), s\<lparr>storage := (storage s)(FailureCount \<mapsto> VU32 0, Paused := None)\<rparr>)
      else (Trap AuthFailed, s))"
  by (simp add: circuit_breaker_reset_def exec)

end
