(* ===== verification/Vero_Reentrancy.thy ===== *)
theory Vero_Reentrancy
  imports Vero_Circuit_Breaker
begin

text \<open>
  \<open>src/src/reentrancy.rs\<close>: the mutex kept under the key \<open>Lock\<close>.  The locale \<open>mutex\<close> is the
  contract its clients (\<open>vote\<close>, \<open>register_tasks\<close>, \<open>cancel_task\<close>) rely on.  Inside it we
  prove once what they need: a body each of whose return paths passes through the release
  leaves the mutex free, and a body guarded by a held mutex does not run at all.
\<close>

definition reentrancy_lock :: "('w, unit) contract" where
  "reentrancy_lock =
     bindM (instance_has Lock) (\<lambda>b.
     if b then fail Locked else instance_set Lock (VBool True))"

definition reentrancy_unlock :: "('w, unit) contract" where
  "reentrancy_unlock = instance_remove Lock"

definition lock_held :: "'w env \<Rightarrow> bool" where
  "lock_held s \<longleftrightarrow> storage s Lock \<noteq> None"

section \<open>The contract of a mutex\<close>

text \<open>\<open>leaves_free held m\<close>: whenever \<open>m\<close> returns (with \<open>Ok\<close> or an error), the mutex is free.
  \<open>frees_on_err held m\<close>: if \<open>m\<close> gives up with an error, it has freed the mutex before.
  \<open>no_err m\<close>: \<open>m\<close> never returns one of the contract's errors.\<close>

definition leaves_free :: "('w env \<Rightarrow> bool) \<Rightarrow> ('w, 'a) contract \<Rightarrow> bool" where
  "leaves_free held m \<longleftrightarrow> (\<forall>C s. (\<forall>r. fst (m C s) \<noteq> Trap r) \<longrightarrow> \<not> held (snd (m C s)))"

definition frees_on_err :: "('w env \<Rightarrow> bool) \<Rightarrow> ('w, 'a) contract \<Rightarrow> bool" where
  "frees_on_err held m \<longleftrightarrow> (\<forall>C s e. fst (m C s) = Err e \<longrightarrow> \<not> held (snd (m C s)))"

definition no_err :: "('w, 'a) contract \<Rightarrow> bool" where
  "no_err m \<longleftrightarrow> (\<forall>C s e. fst (m C s) \<noteq> Err e)"

lemma no_err_prims [releasing, intro!]:
  "no_err (ret a)" "no_err (trap r)" "no_err (instance_has k)" "no_err (instance_get proj k)"
  "no_err (instance_get_or proj d k)" "no_err (instance_set k v)" "no_err (instance_remove k)"
  "no_err (publish e)" "no_err ledger_timestamp" "no_err (try_call_extern p)"
  "no_err (call_extern p)" "no_err (checked opt)"
  by (auto simp: no_err_def exec instance_get_def instance_get_or_def bindM_def call_extern_def
        try_call_extern_def split: option.splits)

lemma frees_on_err_no_err: "no_err m \<Longrightarrow> frees_on_err held m"
  by (simp add: no_err_def frees_on_err_def)

lemma frees_on_err_bind:
  assumes "frees_on_err held m" and "\<And>a. frees_on_err held (f a)"
  shows "frees_on_err held (bindM m f)"
  unfolding frees_on_err_def
proof (intro allI impI)
  fix C s e assume err: "fst (bindM m f C s) = Err e"
  show "\<not> held (snd (bindM m f C s))"
  proof (cases "fst (m C s)")
    case (Ok a)
    then have "bindM m f C s = f a C (snd (m C s))" by (cases "m C s") (simp add: bindM_def)
    with err assms(2) show ?thesis by (simp add: frees_on_err_def)
  next
    case (Err e')
    then have "snd (bindM m f C s) = snd (m C s)" by (cases "m C s") (simp add: bindM_def)
    with Err assms(1) show ?thesis by (simp add: frees_on_err_def)
  next
    case (Trap r)
    with err show ?thesis by (cases "m C s") (auto simp: bindM_def)
  qed
qed

locale mutex =
  fixes acquire release :: "('w, unit) contract"
    and held :: "'w env \<Rightarrow> bool"
  assumes acquire_held: "held s \<Longrightarrow> acquire C s = (Err Locked, s)"
    and acquire_free: "\<not> held s \<Longrightarrow> fst (acquire C s) = Ok ()"
    and release_Ok: "fst (release C s) = Ok ()"
    and release_free: "\<not> held (snd (release C s))"
begin

lemma leaves_free_return:
  "leaves_free held (thenM release (ret a))" "leaves_free held (thenM release (fail e))"
  using release_Ok release_free
  by (auto simp: leaves_free_def bindM_def exec split: prod.splits outcome.splits)
    (metis fst_conv snd_conv outcome.distinct)+

lemma leaves_free_trap: "leaves_free held (trap r)"
  by (simp add: leaves_free_def exec)

lemma leaves_free_bind:
  assumes m: "frees_on_err held m" and "\<And>a. leaves_free held (f a)"
  shows "leaves_free held (bindM m f)"
  unfolding leaves_free_def
proof (intro allI impI)
  fix C s assume ret: "\<forall>r. fst (bindM m f C s) \<noteq> Trap r"
  show "\<not> held (snd (bindM m f C s))"
  proof (cases "fst (m C s)")
    case (Ok a)
    then have "bindM m f C s = f a C (snd (m C s))" by (cases "m C s") (simp add: bindM_def)
    with ret assms(2) show ?thesis by (simp add: leaves_free_def)
  next
    case (Err e)
    then have "snd (bindM m f C s) = snd (m C s)" by (cases "m C s") (simp add: bindM_def)
    with Err m show ?thesis by (simp add: frees_on_err_def)
  next
    case (Trap r)
    with ret show ?thesis by (cases "m C s") (auto simp: bindM_def)
  qed
qed

lemma frees_on_err_give_up: "frees_on_err held (thenM release (fail e))" (is "frees_on_err held ?m")
  unfolding frees_on_err_def
proof (intro allI impI)
  fix C s e' assume "fst (?m C s) = Err e'"
  then have "\<forall>r. fst (?m C s) \<noteq> Trap r" by simp
  then show "\<not> held (snd (?m C s))"
    by (rule leaves_free_return(2) [unfolded leaves_free_def, THEN spec, THEN spec, THEN mp])
qed

lemma leaves_free_if:
  "(b \<Longrightarrow> leaves_free held m) \<Longrightarrow> (\<not> b \<Longrightarrow> leaves_free held m') \<Longrightarrow>
     leaves_free held (if b then m else m')"
  by simp

lemma leaves_free_option:
  "leaves_free held m \<Longrightarrow> (\<And>a. leaves_free held (f a)) \<Longrightarrow>
     leaves_free held (case v of None \<Rightarrow> m | Some a \<Rightarrow> f a)"
  by (simp split: option.split)

lemmas leaves_free_rules =
  leaves_free_return leaves_free_trap leaves_free_bind leaves_free_if leaves_free_option

lemma critical_section_blocked: "held s \<Longrightarrow> thenM acquire body C s = (Err Locked, s)"
  by (simp add: bindM_def acquire_held)

lemma critical_section_frees:
  assumes "leaves_free held body" and "\<not> held s"
    and "\<forall>r. fst (thenM acquire body C s) \<noteq> Trap r"
  shows "\<not> held (snd (thenM acquire body C s))"
proof (cases "acquire C s")
  case (Pair out s')
  with acquire_free [OF \<open>\<not> held s\<close>, of C] have "thenM acquire body C s = body C s'"
    by (simp add: bindM_def)
  with assms show ?thesis by (simp add: leaves_free_def)
qed

end

interpretation contract_lock: mutex reentrancy_lock reentrancy_unlock lock_held
  by unfold_locales (auto simp: reentrancy_lock_def reentrancy_unlock_def lock_held_def exec)

lemma lock_exec [exec]:
  "reentrancy_lock C s =
     (if lock_held s then (Err Locked, s) else (Ok (), s\<lparr>storage := (storage s)(Lock \<mapsto> VBool True)\<rparr>))"
  "bindM reentrancy_lock f C s =
     (if lock_held s then (Err Locked, s) else f () C (s\<lparr>storage := (storage s)(Lock \<mapsto> VBool True)\<rparr>))"
  by (auto simp: reentrancy_lock_def lock_held_def exec)

lemma unlock_exec [exec]:
  "reentrancy_unlock C s = (Ok (), s\<lparr>storage := (storage s)(Lock := None)\<rparr>)"
  "bindM reentrancy_unlock f C s = f () C (s\<lparr>storage := (storage s)(Lock := None)\<rparr>)"
  by (simp_all add: reentrancy_unlock_def exec)

text \<open>Taking the lock and giving it back leaves the storage as it was.\<close>

lemma lock_unlock_storage: "\<not> lock_held s \<Longrightarrow> (storage s)(Lock := None) = storage s"
  by (auto simp: lock_held_def)

lemma env_storage_id [simp]: "s\<lparr>storage := storage s\<rparr> = s"
  by simp

end
