(* ===== verification/Vero_Guardian.thy ===== *)
theory Vero_Guardian
  imports Vero_Reentrancy
begin

text \<open>
  \<open>src/src/guardian.rs\<close> and \<open>src/src/reputation.rs\<close>: the guardian registry (a flag per
  address and the list of all addresses ever added) and the reputation scores, which are
  the voting weights.
\<close>

definition LEDGER_TTL :: u32 where
  "LEDGER_TTL = 100000"

definition guardian_add_guardian :: "address \<Rightarrow> address \<Rightarrow> ('w, unit) contract" where
  "guardian_add_guardian admin guardian =
     thenM (require_auth admin) (
     bindM (instance_has (Guardian guardian)) (\<lambda>known.
     thenM (if \<not> known then
              bindM (instance_get_or as_addresses [] AllGuardians) (\<lambda>all_guardians.
              instance_set AllGuardians (VAddresses (all_guardians @ [guardian])))
            else ret ()) (
     thenM (instance_set (Guardian guardian) (VBool True)) (
     extend_ttl LEDGER_TTL LEDGER_TTL))))"

definition guardian_remove_guardian :: "address \<Rightarrow> address \<Rightarrow> ('w, unit) contract" where
  "guardian_remove_guardian admin guardian =
     thenM (require_auth admin) (
     bindM (instance_has (Guardian guardian)) (\<lambda>known.
     if \<not> known then trap Panicked
     else instance_remove (Guardian guardian)))"

definition guardian_is_guardian :: "address \<Rightarrow> ('w, bool) contract" where
  "guardian_is_guardian guardian = instance_get_or as_bool False (Guardian guardian)"

definition get_all_guardians :: "('w, address list) contract" where
  "get_all_guardians = instance_get_or as_addresses [] AllGuardians"

definition reputation_set_reputation :: "address \<Rightarrow> address \<Rightarrow> u64 \<Rightarrow> ('w, unit) contract" where
  "reputation_set_reputation admin guardian score =
     thenM (require_auth admin) (
     instance_set (Reputation guardian) (VU64 score))"

definition reputation_get_reputation :: "address \<Rightarrow> ('w, u64 option) contract" where
  "reputation_get_reputation guardian = instance_get as_u64 (Reputation guardian)"

definition reputation_calculate_voting_power :: "address \<Rightarrow> ('w, u64 option) contract" where
  "reputation_calculate_voting_power guardian = reputation_get_reputation guardian"

section \<open>Views and execution\<close>

definition guardian_view :: "storage \<Rightarrow> address \<Rightarrow> bool" where
  [views]: "guardian_view \<sigma> g = look_or as_bool False \<sigma> (Guardian g)"

definition guardians_view :: "storage \<Rightarrow> address list" where
  [views]: "guardians_view \<sigma> = look_or as_addresses [] \<sigma> AllGuardians"

definition reputation_view :: "storage \<Rightarrow> address \<Rightarrow> u64 option" where
  [views]: "reputation_view \<sigma> g = look as_u64 \<sigma> (Reputation g)"

lemma add_guardian_exec:
  assumes "well_typed (storage s)"
  shows "guardian_add_guardian admin g C s =
    (if \<not> authorized C admin then (Trap AuthFailed, s)
     else (Ok (),
       s\<lparr>storage := (if storage s (Guardian g) = None
                     then (storage s)(AllGuardians \<mapsto> VAddresses (guardians_view (storage s) @ [g]),
                                      Guardian g \<mapsto> VBool True)
                     else (storage s)(Guardian g \<mapsto> VBool True)),
         live_until := extend_live C 100000 100000 (live_until s)\<rparr>))"
  using assms by (simp add: guardian_add_guardian_def LEDGER_TTL_def exec views)

lemma remove_guardian_exec:
  "guardian_remove_guardian admin g C s =
    (if \<not> authorized C admin then (Trap AuthFailed, s)
     else if storage s (Guardian g) = None then (Trap Panicked, s)
     else (Ok (), s\<lparr>storage := (storage s)(Guardian g := None)\<rparr>))"
  by (simp add: guardian_remove_guardian_def exec)

lemma is_guardian_exec [exec]:
  assumes "well_typed (storage s)"
  shows "guardian_is_guardian g C s = (Ok (guardian_view (storage s) g), s)"
    and "bindM (guardian_is_guardian g) f C s = f (guardian_view (storage s) g) C s"
  using assms by (simp_all add: guardian_is_guardian_def exec views)

lemma get_all_guardians_exec [exec]:
  assumes "well_typed (storage s)"
  shows "get_all_guardians C s = (Ok (guardians_view (storage s)), s)"
    and "bindM get_all_guardians f C s = f (guardians_view (storage s)) C s"
  using assms by (simp_all add: get_all_guardians_def exec views)

lemma set_reputation_exec:
  "reputation_set_reputation admin g score C s =
    (if authorized C admin then (Ok (), s\<lparr>storage := (storage s)(Reputation g \<mapsto> VU64 score)\<rparr>)
     else (Trap AuthFailed, s))"
  by (simp add: reputation_set_reputation_def exec)

lemma get_reputation_exec [exec]:
  assumes "well_typed (storage s)"
  shows "reputation_get_reputation g C s = (Ok (reputation_view (storage s) g), s)"
    and "bindM (reputation_get_reputation g) f C s = f (reputation_view (storage s) g) C s"
  using assms by (simp_all add: reputation_get_reputation_def exec views)

lemmas [exec] = reputation_calculate_voting_power_def

lemma no_err_guardian [releasing, intro!]:
  "no_err (guardian_is_guardian g)" "no_err (reputation_calculate_voting_power g)"
  by (simp_all add: guardian_is_guardian_def reputation_calculate_voting_power_def
        reputation_get_reputation_def no_err_prims)

section \<open>The guardian registry\<close>

interpretation guardian_registry:
  indexed_registry Guardian AllGuardians VAddresses as_addresses
  by unfold_locales auto

definition guardians_inv :: "storage \<Rightarrow> bool" where
  "guardians_inv = covered Guardian AllGuardians as_addresses"

fun guardian_key :: "data_key \<Rightarrow> bool" where
  "guardian_key (Guardian _) = True"
| "guardian_key AllGuardians = True"
| "guardian_key _ = False"

lemma guardians_inv_frame [simp]: "\<not> guardian_key k \<Longrightarrow> guardians_inv (\<sigma>(k := v)) = guardians_inv \<sigma>"
  by (auto simp: guardians_inv_def intro!: guardian_registry.covered_frame)

end
