(* ===== verification/Vero_Storage.thy ===== *)
theory Vero_Storage
  imports Vero_Guardian
begin

text \<open>
  \<open>src/src/storage.rs\<close>: the two homes of a task (active and archived) and the move from
  one to the other, allowed for a verified task once its resolution is older than
  \<open>ARCHIVE_AFTER_SECONDS\<close>.
\<close>

definition ARCHIVE_AFTER_SECONDS :: u64 where
  "ARCHIVE_AFTER_SECONDS = 30 * 24 * 60 * 60"

definition active_task_key :: "u64 \<Rightarrow> data_key" where
  [exec]: "active_task_key task_id = ActiveTask task_id"

definition archived_task_key :: "u64 \<Rightarrow> data_key" where
  [exec]: "archived_task_key task_id = ArchivedTask task_id"

definition has_active_task :: "u64 \<Rightarrow> ('w, bool) contract" where
  "has_active_task task_id = instance_has (active_task_key task_id)"

definition get_active_task :: "u64 \<Rightarrow> ('w, task option) contract" where
  "get_active_task task_id = instance_get as_task (active_task_key task_id)"

definition set_active_task :: "task \<Rightarrow> ('w, unit) contract" where
  "set_active_task task = instance_set (active_task_key (t_id task)) (VTask task)"

definition storage_get_archived_task :: "u64 \<Rightarrow> ('w, task option) contract" where
  "storage_get_archived_task task_id = instance_get as_task (archived_task_key task_id)"

definition storage_archive_task :: "u64 \<Rightarrow> ('w, unit) contract" where
  "storage_archive_task task_id =
     bindM (storage_get_archived_task task_id) (\<lambda>archived.
     if archived \<noteq> None then fail TaskAlreadyArchived
     else
       bindM (get_active_task task_id) (\<lambda>active.
       bindM (ok_or TaskNotFound active) (\<lambda>task.
       if \<not> t_is_done task \<or> t_resolved_at task = 0 then fail TaskNotVerified
       else
         bindM ledger_timestamp (\<lambda>now.
         let age = saturating_sub now (t_resolved_at task)
         in if age \<le> ARCHIVE_AFTER_SECONDS then fail TaskNotStale
            else
              thenM (instance_set (archived_task_key task_id) (VTask task)) (
              instance_remove (active_task_key task_id))))))"

section \<open>Views and execution\<close>

definition active_view :: "storage \<Rightarrow> u64 \<Rightarrow> task option" where
  [views]: "active_view \<sigma> t = look as_task \<sigma> (ActiveTask t)"

definition archived_view :: "storage \<Rightarrow> u64 \<Rightarrow> task option" where
  [views]: "archived_view \<sigma> t = look as_task \<sigma> (ArchivedTask t)"

lemma has_active_task_exec [exec]:
  "has_active_task t C s = (Ok (storage s (ActiveTask t) \<noteq> None), s)"
  "bindM (has_active_task t) f C s = f (storage s (ActiveTask t) \<noteq> None) C s"
  by (simp_all add: has_active_task_def exec)

lemma get_task_exec [exec]:
  assumes "well_typed (storage s)"
  shows "get_active_task t C s = (Ok (active_view (storage s) t), s)"
    and "bindM (get_active_task t) f C s = f (active_view (storage s) t) C s"
    and "storage_get_archived_task t C s = (Ok (archived_view (storage s) t), s)"
    and "bindM (storage_get_archived_task t) f C s = f (archived_view (storage s) t) C s"
  using assms by (simp_all add: get_active_task_def storage_get_archived_task_def exec views)

lemma set_active_task_exec [exec]:
  "set_active_task x C s = (Ok (), s\<lparr>storage := (storage s)(ActiveTask (t_id x) \<mapsto> VTask x)\<rparr>)"
  "bindM (set_active_task x) f C s = f () C (s\<lparr>storage := (storage s)(ActiveTask (t_id x) \<mapsto> VTask x)\<rparr>)"
  by (simp_all add: set_active_task_def exec)

lemma look_None_iff:
  assumes "well_typed \<sigma>" and "\<forall>v. key_type k v \<longrightarrow> proj v \<noteq> None"
  shows "look proj \<sigma> k = None \<longleftrightarrow> \<sigma> k = None"
  using assms by (auto simp: look_def split: option.split dest: well_typedD)

lemma task_view_None_iff:
  assumes "well_typed \<sigma>"
  shows "active_view \<sigma> t = None \<longleftrightarrow> \<sigma> (ActiveTask t) = None"
    and "archived_view \<sigma> t = None \<longleftrightarrow> \<sigma> (ArchivedTask t) = None"
  using assms by (simp_all add: views look_None_iff)

text \<open>A task is stale when more than thirty days have passed since its resolution.  The age is
  computed without wrap-around, so this is a comparison of natural numbers.\<close>

definition stale :: "u64 \<Rightarrow> task \<Rightarrow> bool" where
  "stale now x \<longleftrightarrow> unat now > unat (t_resolved_at x) + 2592000"

lemma stale_iff: "\<not> saturating_sub now (t_resolved_at x) \<le> ARCHIVE_AFTER_SECONDS \<longleftrightarrow> stale now x"
  by (auto simp: ARCHIVE_AFTER_SECONDS_def stale_def word_le_nat_alt unat_saturating_sub)

lemma archive_task_exec:
  assumes "well_typed (storage s)"
  shows "storage_archive_task t C s =
    (if archived_view (storage s) t \<noteq> None then (Err TaskAlreadyArchived, s)
     else case active_view (storage s) t of
       None \<Rightarrow> (Err TaskNotFound, s)
     | Some x \<Rightarrow>
         if \<not> t_is_done x \<or> t_resolved_at x = 0 then (Err TaskNotVerified, s)
         else if \<not> stale (timestamp C) x then (Err TaskNotStale, s)
         else (Ok (), s\<lparr>storage := (storage s)(ArchivedTask t \<mapsto> VTask x, ActiveTask t := None)\<rparr>))"
  using assms
  by (auto simp: storage_archive_task_def exec Let_def stale_iff [symmetric] split: option.split)

end
