(* ===== verification/Vero_Task.thy ===== *)
theory Vero_Task
  imports Vero_Storage
begin

text \<open>
  \<open>src/src/task.rs\<close>: registration of a batch of tasks, cancellation, and the list of all
  task identifiers.  The \<open>for\<close> loop of \<open>register_tasks\<close> is \<open>register_loop\<close>; its early
  return releases the lock and gives up, as in the source.
\<close>

definition MAX_REGISTER_TASK_BATCH_SIZE :: u32 where
  "MAX_REGISTER_TASK_BATCH_SIZE = 32"

definition vec_len :: "'a list \<Rightarrow> u32" where
  "vec_len xs = of_nat (length xs)"

definition new_task :: "u64 \<Rightarrow> task" where
  "new_task task_id =
     \<lparr>t_id = task_id, t_votes = 0, t_is_done = False, t_resolved_at = 0,
      t_total_weight_accrued = 0, t_is_cancelled = False\<rparr>"

fun register_loop :: "u64 list \<Rightarrow> ('w, unit) contract" where
  "register_loop [] = ret ()"
| "register_loop (task_id # task_ids) =
     bindM (has_active_task task_id) (\<lambda>active.
     bindM (if active then ret True
            else bindM (storage_get_archived_task task_id) (\<lambda>a. ret (a \<noteq> None))) (\<lambda>taken.
     if taken then thenM reentrancy_unlock (fail NotAuthorized)
     else thenM (set_active_task (new_task task_id)) (register_loop task_ids)))"

definition register_tasks :: "address \<Rightarrow> u64 list \<Rightarrow> ('w, unit) contract" where
  "register_tasks admin task_ids =
     (if vec_len task_ids > MAX_REGISTER_TASK_BATCH_SIZE then fail BatchTooLarge
      else
        thenM (require_auth admin) (
        thenM reentrancy_lock (
        bindM (instance_get_or as_ids [] AllTasks) (\<lambda>all_tasks.
        thenM (register_loop task_ids) (
        thenM (instance_set AllTasks (VIds (all_tasks @ task_ids))) (
        thenM reentrancy_unlock (
        ret ())))))))"

definition task_get_task :: "u64 \<Rightarrow> ('w, task option) contract" where
  [exec]: "task_get_task task_id = get_active_task task_id"

definition get_all_tasks :: "('w, u64 list) contract" where
  "get_all_tasks = instance_get_or as_ids [] AllTasks"

definition task_cancel_task :: "address \<Rightarrow> u64 \<Rightarrow> ('w, unit) contract" where
  "task_cancel_task admin task_id =
     thenM (require_auth admin) (
     thenM reentrancy_lock (
     bindM (get_active_task task_id) (\<lambda>found.
     case found of
       None \<Rightarrow> thenM reentrancy_unlock (fail NotAuthorized)
     | Some task \<Rightarrow>
         thenM (set_active_task (task\<lparr>t_is_cancelled := True\<rparr>)) (
         thenM (emit_task_cancelled task_id) (
         thenM reentrancy_unlock (
         ret ()))))))"

section \<open>Views and execution\<close>

definition tasks_view :: "storage \<Rightarrow> u64 list" where
  [views]: "tasks_view \<sigma> = look_or as_ids [] \<sigma> AllTasks"

definition fresh_id :: "storage \<Rightarrow> u64 \<Rightarrow> bool" where
  "fresh_id \<sigma> t \<longleftrightarrow> \<sigma> (ActiveTask t) = None \<and> \<sigma> (ArchivedTask t) = None"

fun put_tasks :: "u64 list \<Rightarrow> storage \<Rightarrow> storage" where
  "put_tasks [] \<sigma> = \<sigma>"
| "put_tasks (t # ts) \<sigma> = put_tasks ts (\<sigma>(ActiveTask t \<mapsto> VTask (new_task t)))"

lemma put_tasks_apply:
  "put_tasks ts \<sigma> k =
     (case k of ActiveTask t \<Rightarrow> if t \<in> set ts then Some (VTask (new_task t)) else \<sigma> k | _ \<Rightarrow> \<sigma> k)"
  by (induction ts arbitrary: \<sigma>) (auto split: data_key.split)

lemma put_tasks_other [simp]: "\<forall>t. k \<noteq> ActiveTask t \<Longrightarrow> put_tasks ts \<sigma> k = \<sigma> k"
  by (auto simp: put_tasks_apply split: data_key.split)

lemma well_typed_put_tasks [simp, intro]: "well_typed \<sigma> \<Longrightarrow> well_typed (put_tasks ts \<sigma>)"
  by (induction ts arbitrary: \<sigma>) auto

lemma new_task_id [simp]: "t_id (new_task t) = t"
  by (simp add: new_task_def)

text \<open>The loop succeeds exactly on distinct identifiers that are not in use.\<close>

lemma register_loop_Ok:
  assumes "well_typed (storage s)" and "distinct ts" and "\<forall>t\<in>set ts. fresh_id (storage s) t"
  shows "register_loop ts C s = (Ok (), s\<lparr>storage := put_tasks ts (storage s)\<rparr>)"
  using assms
proof (induction ts arbitrary: s)
  case Nil
  then show ?case by (simp add: exec)
next
  case (Cons t ts)
  let ?s = "s\<lparr>storage := (storage s)(ActiveTask t \<mapsto> VTask (new_task t))\<rparr>"
  have "well_typed (storage ?s)" "distinct ts" "\<forall>t\<in>set ts. fresh_id (storage ?s) t"
    using Cons.prems by (auto simp: fresh_id_def)
  then have "register_loop ts C ?s = (Ok (), ?s\<lparr>storage := put_tasks ts (storage ?s)\<rparr>)"
    by (rule Cons.IH)
  with Cons.prems show ?case
    by (simp add: exec fresh_id_def task_view_None_iff)
qed

lemma register_loop_Err:
  assumes "well_typed (storage s)" and "\<not> (distinct ts \<and> (\<forall>t\<in>set ts. fresh_id (storage s) t))"
  shows "fst (register_loop ts C s) = Err NotAuthorized"
  using assms
proof (induction ts arbitrary: s)
  case Nil
  then show ?case by simp
next
  case (Cons t ts)
  let ?s = "s\<lparr>storage := (storage s)(ActiveTask t \<mapsto> VTask (new_task t))\<rparr>"
  show ?case
  proof (cases "fresh_id (storage s) t")
    case True
    have "well_typed (storage ?s)" "\<not> (distinct ts \<and> (\<forall>t\<in>set ts. fresh_id (storage ?s) t))"
      using True Cons.prems by (auto simp: fresh_id_def)
    then have "fst (register_loop ts C ?s) = Err NotAuthorized" by (rule Cons.IH)
    with True Cons.prems show ?thesis
      by (simp add: exec fresh_id_def task_view_None_iff)
  next
    case False
    with Cons.prems show ?thesis
      by (auto simp: exec fresh_id_def task_view_None_iff)
  qed
qed

lemma bindM_OkI: "m C s = (Ok a, s') \<Longrightarrow> bindM m f C s = f a C s'"
  by (simp add: bindM_def)

lemma bindM_fst_Err: "fst (m C s) = Err e \<Longrightarrow> bindM m f C s = (Err e, snd (m C s))"
  by (cases "m C s") (simp add: bindM_def)

definition registrable :: "storage \<Rightarrow> u64 list \<Rightarrow> bool" where
  "registrable \<sigma> ts \<longleftrightarrow> distinct ts \<and> (\<forall>t\<in>set ts. fresh_id \<sigma> t)"

lemma register_tasks_exec:
  assumes wt: "well_typed (storage s)"
  shows "register_tasks admin ts C s =
    (if vec_len ts > 32 then (Err BatchTooLarge, s)
     else if \<not> authorized C admin then (Trap AuthFailed, s)
     else if lock_held s then (Err Locked, s)
     else if \<not> registrable (storage s) ts
       then (Err NotAuthorized, snd (register_loop ts C (s\<lparr>storage := (storage s)(Lock \<mapsto> VBool True)\<rparr>)))
     else (Ok (), s\<lparr>storage := (put_tasks ts (storage s))(AllTasks \<mapsto> VIds (tasks_view (storage s) @ ts))\<rparr>))"
proof -
  let ?l = "s\<lparr>storage := (storage s)(Lock \<mapsto> VBool True)\<rparr>"
  have fresh: "fresh_id ((storage s)(Lock \<mapsto> v)) t \<longleftrightarrow> fresh_id (storage s) t" for t v
    by (simp add: fresh_id_def)
  have comm: "(put_tasks ts ((storage s)(Lock \<mapsto> VBool True)))(AllTasks := v, Lock := None) =
      (put_tasks ts (storage s))(AllTasks := v)" if "\<not> lock_held s" for v
    using that by (auto simp: fun_eq_iff lock_held_def put_tasks_apply split: data_key.split)
  show ?thesis
  proof (cases "registrable (storage s) ts")
    case True
    with wt have "register_loop ts C ?l = (Ok (), ?l\<lparr>storage := put_tasks ts (storage ?l)\<rparr>)"
      by (intro register_loop_Ok) (auto simp: registrable_def fresh)
    with True wt show ?thesis
      by (simp add: register_tasks_def MAX_REGISTER_TASK_BATCH_SIZE_def exec bindM_OkI comm views)
  next
    case False
    with wt have "fst (register_loop ts C ?l) = Err NotAuthorized"
      by (intro register_loop_Err) (auto simp: registrable_def fresh)
    with False wt show ?thesis
      by (simp add: register_tasks_def MAX_REGISTER_TASK_BATCH_SIZE_def exec bindM_fst_Err)
  qed
qed

lemma get_all_tasks_exec [exec]:
  assumes "well_typed (storage s)"
  shows "get_all_tasks C s = (Ok (tasks_view (storage s)), s)"
    and "bindM get_all_tasks f C s = f (tasks_view (storage s)) C s"
  using assms by (simp_all add: get_all_tasks_def exec views)

lemma cancel_task_exec:
  assumes "well_typed (storage s)"
  shows "task_cancel_task admin t C s =
    (if \<not> authorized C admin then (Trap AuthFailed, s)
     else if lock_held s then (Err Locked, s)
     else case active_view (storage s) t of
       None \<Rightarrow> (Err NotAuthorized, s)
     | Some x \<Rightarrow>
         (Ok (), s\<lparr>storage := (storage s)(ActiveTask (t_id x) \<mapsto> VTask (x\<lparr>t_is_cancelled := True\<rparr>)),
                   events := events s @ [TaskCancelledEvent t]\<rparr>))"
  using assms
  by (auto simp: task_cancel_task_def exec views lock_unlock_storage fun_upd_twist split: option.split)

end
