(* ===== verification/Vero_Drips.thy ===== *)
theory Vero_Drips
  imports Vero_Task
begin

text \<open>
  \<open>src/src/drips.rs\<close> and \<open>src/src/vault.rs\<close>: the calls of the two payout contracts.  A
  reward stream is recorded once per verified task; the vault's client interface has the one
  method \<open>release_funds\<close>, of which \<open>vote\<close> uses the \<open>try_\<close> form.
\<close>

definition start_drips_stream :: "address \<Rightarrow> address \<Rightarrow> u64 \<Rightarrow> ('w, unit) contract" where
  "start_drips_stream drips_address contributor task_id =
     bindM (instance_get as_task (ActiveTask task_id)) (\<lambda>found.
     bindM (ok_or NotAuthorized found) (\<lambda>task.
     if t_is_cancelled task then fail TaskCancelled
     else if \<not> t_is_done task then fail TaskNotVerified
     else
       bindM (instance_has (RewardStream task_id)) (\<lambda>exists.
       if exists then fail StreamAlreadyActive
       else
         let resolution_status = 1 in
         thenM (call_extern (\<lambda>x. x_start_stream x drips_address contributor task_id resolution_status)) (
         bindM (instance_get_or as_ids [] AllRewardStreams) (\<lambda>all_streams.
         thenM (instance_set AllRewardStreams (VIds (all_streams @ [task_id]))) (
         let stream = \<lparr>rs_task_id = task_id, rs_contributor = contributor,
                       rs_drips_contract = drips_address, rs_active = True\<rparr> in
         thenM (instance_set (RewardStream task_id) (VStream stream)) (
         ret ())))))))"

definition drips_get_reward_stream :: "u64 \<Rightarrow> ('w, reward_stream option) contract" where
  "drips_get_reward_stream task_id = instance_get as_stream (RewardStream task_id)"

definition get_all_reward_streams :: "('w, u64 list) contract" where
  "get_all_reward_streams = instance_get_or as_ids [] AllRewardStreams"

definition try_release_funds :: "address \<Rightarrow> u64 \<Rightarrow> ('w, bool) contract" where
  [exec]: "try_release_funds vault task_id = try_call_extern (\<lambda>x. x_release_funds x vault task_id)"

section \<open>Views and execution\<close>

definition stream_view :: "storage \<Rightarrow> u64 \<Rightarrow> reward_stream option" where
  [views]: "stream_view \<sigma> t = look as_stream \<sigma> (RewardStream t)"

definition streams_view :: "storage \<Rightarrow> u64 list" where
  [views]: "streams_view \<sigma> = look_or as_ids [] \<sigma> AllRewardStreams"

definition new_stream :: "address \<Rightarrow> address \<Rightarrow> u64 \<Rightarrow> reward_stream" where
  "new_stream drips contributor t =
     \<lparr>rs_task_id = t, rs_contributor = contributor, rs_drips_contract = drips, rs_active = True\<rparr>"

lemma start_drips_stream_exec:
  assumes "well_typed (storage s)"
  shows "start_drips_stream drips contributor t C s =
    (case active_view (storage s) t of
       None \<Rightarrow> (Err NotAuthorized, s)
     | Some x \<Rightarrow>
         if t_is_cancelled x then (Err TaskCancelled, s)
         else if \<not> t_is_done x then (Err TaskNotVerified, s)
         else if storage s (RewardStream t) \<noteq> None then (Err StreamAlreadyActive, s)
         else case x_start_stream (externs C) drips contributor t 1 (world s) of
           None \<Rightarrow> (Trap ContractCallFailed, s)
         | Some w \<Rightarrow>
             (Ok (), s\<lparr>storage := (storage s)(AllRewardStreams \<mapsto> VIds (streams_view (storage s) @ [t]),
                                              RewardStream t \<mapsto> VStream (new_stream drips contributor t)),
                       world := w\<rparr>))"
  using assms
  by (simp add: start_drips_stream_def new_stream_def exec views Let_def split: option.split)

lemma drips_get_exec [exec]:
  assumes "well_typed (storage s)"
  shows "drips_get_reward_stream t C s = (Ok (stream_view (storage s) t), s)"
    and "bindM (drips_get_reward_stream t) f C s = f (stream_view (storage s) t) C s"
    and "get_all_reward_streams C s = (Ok (streams_view (storage s)), s)"
    and "bindM get_all_reward_streams g C s = g (streams_view (storage s)) C s"
  using assms by (simp_all add: drips_get_reward_stream_def get_all_reward_streams_def exec views)

section \<open>The registry of reward streams\<close>

interpretation stream_registry:
  indexed_registry RewardStream AllRewardStreams VIds as_ids
  by unfold_locales auto

end
