(* ===== verification/Vero_Contract.thy ===== *)
theory Vero_Contract
  imports Vero_Drips
begin

text \<open>
  \<open>src/src/lib.rs\<close>: the public entry points of \<open>VeroCore\<close> (the paged snapshot is in
  \<open>Vero_Snapshot\<close>, the cost table in \<open>Vero_Gas\<close>).  Each entry point is the Rust body in
  the contract monad, statement by statement.  Its execution equation, over the views of a
  well-typed storage, is in \<open>Vero_Execution\<close>.
\<close>

definition DEFAULT_WEIGHT_THRESHOLD :: u64 where
  "DEFAULT_WEIGHT_THRESHOLD = 300"

definition VERSION :: u32 where
  "VERSION = 1"

definition unwrap :: "'a option \<Rightarrow> ('w, 'a) contract" where
  [exec]: "unwrap v = (case v of None \<Rightarrow> trap Panicked | Some a \<Rightarrow> ret a)"

section \<open>Initialisation and the pause switch\<close>

definition initialize :: "address \<Rightarrow> i128 \<Rightarrow> ('w, unit) contract" where
  "initialize token lock_threshold =
     bindM (instance_get_or as_bool False Initialized) (\<lambda>initialized.
     if initialized then fail AlreadyInitialized
     else
       thenM (instance_set Initialized (VBool True)) (
       thenM (instance_set TokenAddress (VAddress token)) (
       thenM (instance_set LockThreshold (VI128 lock_threshold)) (
       thenM (instance_set Paused (VBool False)) (
       thenM (extend_ttl 100000 100000) (
       ret ()))))))"

definition get_admin :: "('w, address option) contract" where
  "get_admin = instance_get as_address Admin"

definition toggle_pause :: "address \<Rightarrow> ('w, unit) contract" where
  "toggle_pause admin =
     thenM (require_auth admin) (
     bindM (instance_get_or as_bool False Paused) (\<lambda>current.
     thenM (instance_set Paused (VBool (\<not> current))) (
     ret ())))"

definition pause :: "address \<Rightarrow> ('w, unit) contract" where
  "pause admin =
     thenM (require_auth admin) (
     thenM (instance_set Paused (VBool True)) (
     ret ()))"

definition unpause :: "address \<Rightarrow> ('w, unit) contract" where
  "unpause admin =
     thenM (require_auth admin) (
     thenM (instance_set Paused (VBool False)) (
     ret ()))"

definition is_paused :: "('w, bool) contract" where
  "is_paused = instance_get_or as_bool False Paused"

section \<open>Guardians and their locked tokens\<close>

definition add_guardian :: "address \<Rightarrow> address \<Rightarrow> ('w, unit) contract" where
  "add_guardian admin guardian =
     thenM require_not_paused (
     thenM (guardian_add_guardian admin guardian) (
     ret ()))"

definition remove_guardian :: "address \<Rightarrow> address \<Rightarrow> ('w, unit) contract" where
  "remove_guardian admin guardian =
     thenM require_not_paused (
     thenM (guardian_remove_guardian admin guardian) (
     ret ()))"

definition is_guardian :: "address \<Rightarrow> ('w, bool) contract" where
  "is_guardian guardian = guardian_is_guardian guardian"

definition lock_tokens :: "address \<Rightarrow> i128 \<Rightarrow> ('w, unit) contract" where
  "lock_tokens guardian amount =
     thenM (require_auth guardian) (
     bindM (instance_has TokenAddress) (\<lambda>initialized.
     if \<not> initialized then fail NotInitialized
     else
       bindM (instance_get as_address TokenAddress) (\<lambda>token.
       bindM (unwrap token) (\<lambda>token_address.
       bindM current_contract_address (\<lambda>this.
       thenM (token_transfer token_address guardian this amount) (
       bindM (instance_get_or as_i128 0 (LockedBalance guardian)) (\<lambda>current_balance.
       bindM (checked (checked_add_signed current_balance amount)) (\<lambda>new_balance.
       thenM (instance_set (LockedBalance guardian) (VI128 new_balance)) (
       ret ())))))))))"

text \<open>The block that \<open>resign_guardian\<close> and \<open>unlock_tokens\<close> have in common.\<close>

definition refund_locked :: "address \<Rightarrow> ('w, unit) contract" where
  "refund_locked guardian =
     bindM (instance_get_or as_i128 0 (LockedBalance guardian)) (\<lambda>locked_balance.
     if sint locked_balance > 0 then
       bindM (instance_get as_address TokenAddress) (\<lambda>token.
       bindM (unwrap token) (\<lambda>token_address.
       bindM current_contract_address (\<lambda>this.
       thenM (token_transfer token_address this guardian locked_balance) (
       instance_set (LockedBalance guardian) (VI128 0)))))
     else ret ())"

definition resign_guardian :: "address \<Rightarrow> ('w, unit) contract" where
  "resign_guardian guardian =
     thenM (require_auth guardian) (
     bindM (instance_has TokenAddress) (\<lambda>initialized.
     if \<not> initialized then fail NotInitialized
     else
       bindM (guardian_is_guardian guardian) (\<lambda>member.
       if \<not> member then fail NotGuardian
       else
         thenM (instance_set (Guardian guardian) (VBool False)) (
         thenM (refund_locked guardian) (
         ret ())))))"

definition unlock_tokens :: "address \<Rightarrow> ('w, unit) contract" where
  "unlock_tokens guardian =
     thenM (require_auth guardian) (
     bindM (instance_has TokenAddress) (\<lambda>initialized.
     if \<not> initialized then fail NotInitialized
     else
       bindM (guardian_is_guardian guardian) (\<lambda>member.
       if member then fail StillGuardian
       else
         thenM (refund_locked guardian) (
         ret ()))))"

definition set_reputation :: "address \<Rightarrow> address \<Rightarrow> u64 \<Rightarrow> ('w, unit) contract" where
  "set_reputation admin guardian score =
     thenM require_not_paused (
     thenM (reputation_set_reputation admin guardian score) (
     ret ()))"

definition get_reputation :: "address \<Rightarrow> ('w, u64 option) contract" where
  "get_reputation guardian = reputation_get_reputation guardian"

definition calculate_voting_power :: "address \<Rightarrow> ('w, u64 option) contract" where
  "calculate_voting_power guardian = reputation_calculate_voting_power guardian"

definition set_weight_threshold :: "address \<Rightarrow> u64 \<Rightarrow> ('w, unit) contract" where
  "set_weight_threshold admin threshold =
     thenM (require_auth admin) (
     thenM (instance_set WeightThreshold (VU64 threshold)) (
     ret ()))"

definition get_weight_threshold :: "('w, u64) contract" where
  "get_weight_threshold = instance_get_or as_u64 DEFAULT_WEIGHT_THRESHOLD WeightThreshold"

definition set_vault_address :: "address \<Rightarrow> address \<Rightarrow> ('w, unit) contract" where
  "set_vault_address admin vault =
     thenM (require_auth admin) (
     instance_set VaultAddress (VAddress vault))"

section \<open>Task life cycle\<close>

definition register_task :: "address \<Rightarrow> u64 \<Rightarrow> ('w, unit) contract" where
  "register_task admin task_id =
     thenM require_not_paused (
     let task_ids = [task_id] in
     register_tasks admin task_ids)"

definition cancel_task :: "address \<Rightarrow> u64 \<Rightarrow> ('w, unit) contract" where
  "cancel_task admin task_id =
     thenM require_not_paused (
     task_cancel_task admin task_id)"

text \<open>The end of \<open>vote\<close>: the vote is recorded and the lock released.\<close>

definition vote_commit :: "address \<Rightarrow> u64 \<Rightarrow> u64 \<Rightarrow> task \<Rightarrow> ('w, unit) contract" where
  "vote_commit guardian task_id weight t =
     bindM (instance_get_or as_votes [] AllVotes) (\<lambda>all_votes.
     thenM (instance_set AllVotes (VVotes (all_votes @ [(task_id, guardian)]))) (
     thenM (instance_set (Voted task_id guardian) (VBool True)) (
     thenM (instance_set (ActiveTask task_id) (VTask t)) (
     thenM (emit_weighted_vote task_id guardian weight) (
     thenM reentrancy_unlock (
     ret ()))))))"

text \<open>The part of \<open>vote\<close> that counts the weight and, at the threshold, resolves the task and
  has the vault release its funds.\<close>

definition vote_tally :: "address \<Rightarrow> u64 \<Rightarrow> u64 \<Rightarrow> task \<Rightarrow> ('w, unit) contract" where
  "vote_tally guardian task_id weight t =
     (case checked_add (t_total_weight_accrued t) weight of
       None \<Rightarrow> thenM reentrancy_unlock (fail WeightOverflow)
     | Some v \<Rightarrow>
         bindM (checked (checked_add (t_votes t) 1)) (\<lambda>n.
         let t = t\<lparr>t_total_weight_accrued := v, t_votes := n\<rparr> in
         bindM (instance_get_or as_u64 DEFAULT_WEIGHT_THRESHOLD WeightThreshold) (\<lambda>weight_threshold.
         if t_total_weight_accrued t \<ge> weight_threshold then
           bindM ledger_timestamp (\<lambda>now.
           let t = t\<lparr>t_is_done := True, t_resolved_at := now\<rparr> in
           thenM (emit_task_resolved task_id (t_total_weight_accrued t)) (
           bindM (instance_get as_address VaultAddress) (\<lambda>vault.
           case vault of
             None \<Rightarrow> vote_commit guardian task_id weight t
           | Some vault_addr \<Rightarrow>
               bindM (try_release_funds vault_addr task_id) (\<lambda>released.
               if \<not> released then thenM reentrancy_unlock (fail EscrowUnavailable)
               else vote_commit guardian task_id weight t))))
         else vote_commit guardian task_id weight t)))"

text \<open>The part of \<open>vote\<close> that runs under the lock, up to the arithmetic.\<close>

definition vote_locked :: "address \<Rightarrow> u64 \<Rightarrow> ('w, unit) contract" where
  "vote_locked guardian task_id =
     bindM (guardian_is_guardian guardian) (\<lambda>member.
     if \<not> member then thenM reentrancy_unlock (fail NotAuthorized)
     else
       bindM (instance_has TokenAddress) (\<lambda>initialized.
       if \<not> initialized then thenM reentrancy_unlock (fail NotInitialized)
       else
         bindM (instance_get_or as_i128 0 LockThreshold) (\<lambda>threshold.
         bindM (instance_get_or as_i128 0 (LockedBalance guardian)) (\<lambda>locked_balance.
         if sint locked_balance \<le> sint threshold
         then thenM reentrancy_unlock (fail InsufficientLockedBalance)
         else
           bindM (instance_has (Voted task_id guardian)) (\<lambda>voted.
           if voted then thenM reentrancy_unlock (fail DuplicateVote)
           else
             bindM (reputation_calculate_voting_power guardian) (\<lambda>power.
             case power of
               None \<Rightarrow> thenM reentrancy_unlock (fail NoReputationScore)
             | Some weight \<Rightarrow>
                 if weight = 0 then thenM reentrancy_unlock (fail ZeroWeightVote)
                 else
                   bindM (instance_get as_task (ActiveTask task_id)) (\<lambda>found.
                   case found of
                     None \<Rightarrow> thenM reentrancy_unlock (fail NotAuthorized)
                   | Some t \<Rightarrow>
                       if t_is_cancelled t then thenM reentrancy_unlock (fail TaskCancelled)
                       else vote_tally guardian task_id weight t)))))))"

definition vote :: "address \<Rightarrow> u64 \<Rightarrow> ('w, unit) contract" where
  "vote guardian task_id =
     thenM require_not_paused (
     thenM (require_auth guardian) (
     thenM reentrancy_lock (
     vote_locked guardian task_id)))"

definition get_task :: "u64 \<Rightarrow> ('w, task option) contract" where
  "get_task task_id = task_get_task task_id"

definition archive_task :: "u64 \<Rightarrow> ('w, unit) contract" where
  "archive_task task_id =
     thenM require_not_paused (
     bindM (get_active_task task_id) (\<lambda>found.
     bindM (ok_or TaskNotFound found) (\<lambda>task.
     thenM (storage_archive_task task_id) (
     thenM (emit_task_archived task_id (t_resolved_at task)) (
     ret ())))))"

definition get_archived_task :: "u64 \<Rightarrow> ('w, task option) contract" where
  "get_archived_task task_id =
     thenM require_not_paused (
     storage_get_archived_task task_id)"

definition get_version :: "('w, u32) contract" where
  "get_version = ret VERSION"

section \<open>Reward streams, circuit breaker, upgrade\<close>

definition start_reward_stream :: "address \<Rightarrow> address \<Rightarrow> address \<Rightarrow> u64 \<Rightarrow> ('w, unit) contract" where
  "start_reward_stream admin drips_address contributor task_id =
     thenM require_not_paused (
     thenM (require_auth admin) (
     bindM (attempt (start_drips_stream drips_address contributor task_id)) (\<lambda>result.
     thenM (case result of
              Ok _ \<Rightarrow> emit_reward_stream_started task_id contributor
            | _ \<Rightarrow> emit_reward_stream_failed task_id contributor) (
     from_result result))))"

definition get_reward_stream :: "u64 \<Rightarrow> ('w, reward_stream option) contract" where
  "get_reward_stream task_id = drips_get_reward_stream task_id"

definition record_failure :: "('w, unit) contract" where
  "record_failure = circuit_breaker_record_failure"

definition reset_circuit_breaker :: "address \<Rightarrow> ('w, unit) contract" where
  "reset_circuit_breaker admin = circuit_breaker_reset admin"

definition upgrade_contract :: "address \<Rightarrow> bytesn32 \<Rightarrow> ('w, unit) contract" where
  "upgrade_contract admin new_wasm_hash =
     thenM (require_auth admin) (
     update_current_contract_wasm new_wasm_hash)"

end
