(* ===== verification/Vero_Execution.thy ===== *)
theory Vero_Execution
  imports Vero_Contract
begin

text \<open>
  What the entry points of \<open>Vero_Contract\<close> do, read off once and for all: for each of them
  one equation, valid in a well-typed storage, that gives its outcome and its final
  environment over the views of the storage.  \<open>tally\<close>, \<open>eligible\<close>, \<open>payout\<close> and
  \<open>voted_env\<close> are the vocabulary of the equation of \<open>vote\<close>.
\<close>

section \<open>Views\<close>

definition token_view :: "storage \<Rightarrow> address option" where
  [views]: "token_view \<sigma> = look as_address \<sigma> TokenAddress"

definition vault_view :: "storage \<Rightarrow> address option" where
  [views]: "vault_view \<sigma> = look as_address \<sigma> VaultAddress"

definition locked_view :: "storage \<Rightarrow> address \<Rightarrow> i128" where
  [views]: "locked_view \<sigma> g = look_or as_i128 0 \<sigma> (LockedBalance g)"

definition lock_threshold_view :: "storage \<Rightarrow> i128" where
  [views]: "lock_threshold_view \<sigma> = look_or as_i128 0 \<sigma> LockThreshold"

definition threshold_view :: "storage \<Rightarrow> u64" where
  [views]: "threshold_view \<sigma> = look_or as_u64 300 \<sigma> WeightThreshold"

definition votes_view :: "storage \<Rightarrow> (u64 \<times> address) list" where
  [views]: "votes_view \<sigma> = look_or as_votes [] \<sigma> AllVotes"

definition initialized_view :: "storage \<Rightarrow> bool" where
  [views]: "initialized_view \<sigma> = look_or as_bool False \<sigma> Initialized"

lemma token_view_None_iff: "well_typed \<sigma> \<Longrightarrow> token_view \<sigma> = None \<longleftrightarrow> \<sigma> TokenAddress = None"
  by (simp add: views look_None_iff)

section \<open>Entry points other than vote\<close>

lemma initialize_exec:
  assumes "well_typed (storage s)"
  shows "initialize token threshold C s =
    (if initialized_view (storage s) then (Err AlreadyInitialized, s)
     else (Ok (),
       s\<lparr>storage := (storage s)(Initialized \<mapsto> VBool True, TokenAddress \<mapsto> VAddress token,
                                LockThreshold \<mapsto> VI128 threshold, Paused \<mapsto> VBool False),
         live_until := extend_live C 100000 100000 (live_until s)\<rparr>))"
  using assms by (simp add: initialize_def exec views)

lemma pause_exec:
  "pause admin C s =
     (if authorized C admin then (Ok (), s\<lparr>storage := (storage s)(Paused \<mapsto> VBool True)\<rparr>)
      else (Trap AuthFailed, s))"
  "unpause admin C s =
     (if authorized C admin then (Ok (), s\<lparr>storage := (storage s)(Paused \<mapsto> VBool False)\<rparr>)
      else (Trap AuthFailed, s))"
  by (simp_all add: pause_def unpause_def exec)

lemma toggle_pause_exec:
  assumes "well_typed (storage s)"
  shows "toggle_pause admin C s =
     (if authorized C admin
      then (Ok (), s\<lparr>storage := (storage s)(Paused \<mapsto> VBool (\<not> paused_view (storage s)))\<rparr>)
      else (Trap AuthFailed, s))"
  using assms by (simp add: toggle_pause_def exec views)

lemma thenM_ret_unit [exec]: "thenM m (ret ()) = (m :: ('w, unit) contract)"
proof -
  have "(\<lambda>_. ret ()) = (ret :: unit \<Rightarrow> ('w, unit) contract)" by (rule ext) simp
  then show ?thesis by (simp add: bindM_ret_right)
qed

lemma guarded_exec:
  assumes "well_typed (storage s)"
  shows "add_guardian admin g C s =
      (if paused_view (storage s) then (Err ContractPaused, s) else guardian_add_guardian admin g C s)"
    and "remove_guardian admin g C s =
      (if paused_view (storage s) then (Err ContractPaused, s) else guardian_remove_guardian admin g C s)"
    and "set_reputation admin g n C s =
      (if paused_view (storage s) then (Err ContractPaused, s) else reputation_set_reputation admin g n C s)"
    and "register_task admin t C s =
      (if paused_view (storage s) then (Err ContractPaused, s) else register_tasks admin [t] C s)"
    and "cancel_task admin t C s =
      (if paused_view (storage s) then (Err ContractPaused, s) else task_cancel_task admin t C s)"
  using assms
  by (simp_all add: add_guardian_def remove_guardian_def set_reputation_def register_task_def
        cancel_task_def exec Let_def)

lemma lock_tokens_exec:
  assumes "well_typed (storage s)"
  shows "lock_tokens g n C s =
    (if \<not> authorized C g then (Trap AuthFailed, s)
     else case token_view (storage s) of
       None \<Rightarrow> (Err NotInitialized, s)
     | Some token \<Rightarrow>
         (case x_token_transfer (externs C) token g (self C) n (world s) of
            None \<Rightarrow> (Trap ContractCallFailed, s)
          | Some w \<Rightarrow>
              (case checked_add_signed (locked_view (storage s) g) n of
                 None \<Rightarrow> (Trap ArithmeticOverflow, s\<lparr>world := w\<rparr>)
               | Some b \<Rightarrow>
                   (Ok (), s\<lparr>storage := (storage s)(LockedBalance g \<mapsto> VI128 b), world := w\<rparr>))))"
proof (cases "token_view (storage s)")
  case None
  with assms have "storage s TokenAddress = None" by (simp add: token_view_None_iff)
  with None show ?thesis by (simp add: lock_tokens_def exec)
next
  case (Some token)
  then have "storage s TokenAddress \<noteq> None" by (auto simp: views look_def split: option.splits)
  with assms Some show ?thesis by (simp add: lock_tokens_def exec views split: option.split)
qed

lemma refund_locked_exec [exec]:
  assumes "well_typed (storage s)" and "storage s TokenAddress \<noteq> None"
  shows "refund_locked g C s =
    (if sint (locked_view (storage s) g) \<le> 0 then (Ok (), s)
     else case x_token_transfer (externs C) (the (token_view (storage s))) (self C) g
                (locked_view (storage s) g) (world s) of
       None \<Rightarrow> (Trap ContractCallFailed, s)
     | Some w \<Rightarrow> (Ok (), s\<lparr>storage := (storage s)(LockedBalance g \<mapsto> VI128 0), world := w\<rparr>))"
proof -
  from assms obtain token where "token_view (storage s) = Some token"
    by (meson token_view_None_iff not_None_eq)
  with assms(1) show ?thesis by (simp add: refund_locked_def exec views split: option.split)
qed

lemma resign_guardian_exec:
  assumes "well_typed (storage s)"
  shows "resign_guardian g C s =
    (if \<not> authorized C g then (Trap AuthFailed, s)
     else if storage s TokenAddress = None then (Err NotInitialized, s)
     else if \<not> guardian_view (storage s) g then (Err NotGuardian, s)
     else refund_locked g C (s\<lparr>storage := (storage s)(Guardian g \<mapsto> VBool False)\<rparr>))"
  using assms by (simp add: resign_guardian_def exec)

lemma unlock_tokens_exec:
  assumes "well_typed (storage s)"
  shows "unlock_tokens g C s =
    (if \<not> authorized C g then (Trap AuthFailed, s)
     else if storage s TokenAddress = None then (Err NotInitialized, s)
     else if guardian_view (storage s) g then (Err StillGuardian, s)
     else refund_locked g C s)"
  using assms by (simp add: unlock_tokens_def exec)

lemma config_exec:
  "set_weight_threshold admin n C s =
     (if authorized C admin then (Ok (), s\<lparr>storage := (storage s)(WeightThreshold \<mapsto> VU64 n)\<rparr>)
      else (Trap AuthFailed, s))"
  "set_vault_address admin a C s =
     (if authorized C admin then (Ok (), s\<lparr>storage := (storage s)(VaultAddress \<mapsto> VAddress a)\<rparr>)
      else (Trap AuthFailed, s))"
  "upgrade_contract admin h C s =
     (if \<not> authorized C admin then (Trap AuthFailed, s)
      else if x_wasm_installed (externs C) h then (Ok (), s\<lparr>wasm_update := Some h\<rparr>)
      else (Trap WasmMissing, s))"
  by (simp_all add: set_weight_threshold_def set_vault_address_def upgrade_contract_def
        update_current_contract_wasm_def exec)

lemma archive_task_entry_exec:
  assumes "well_typed (storage s)"
  shows "archive_task t C s =
    (if paused_view (storage s) then (Err ContractPaused, s)
     else case active_view (storage s) t of
       None \<Rightarrow> (Err TaskNotFound, s)
     | Some x \<Rightarrow>
         if archived_view (storage s) t \<noteq> None then (Err TaskAlreadyArchived, s)
         else if \<not> t_is_done x \<or> t_resolved_at x = 0 then (Err TaskNotVerified, s)
         else if \<not> stale (timestamp C) x then (Err TaskNotStale, s)
         else (Ok (), s\<lparr>storage := (storage s)(ArchivedTask t \<mapsto> VTask x, ActiveTask t := None),
                        events := events s @ [TaskArchived t (t_resolved_at x)]\<rparr>))"
  using assms
  by (auto simp: archive_task_def exec archive_task_exec bindM_def split: option.split)

lemma start_reward_stream_exec:
  assumes "well_typed (storage s)"
  shows "start_reward_stream admin drips contributor t C s =
    (if paused_view (storage s) then (Err ContractPaused, s)
     else if \<not> authorized C admin then (Trap AuthFailed, s)
     else case start_drips_stream drips contributor t C s of
       (Ok u, s') \<Rightarrow> (Ok u, s'\<lparr>events := events s' @ [RewardStreamStarted t contributor]\<rparr>)
     | (Err e, s') \<Rightarrow> (Err e, s'\<lparr>events := events s' @ [RewardStreamFailed t contributor]\<rparr>)
     | (Trap r, s') \<Rightarrow> (Trap r, s'))"
  using assms
  by (simp add: start_reward_stream_def exec bindM_def attempt_def split: prod.split outcome.split)

section \<open>The equation of vote\<close>

definition tally :: "u64 \<Rightarrow> u64 \<Rightarrow> u64 \<Rightarrow> task \<Rightarrow> task option" where
  "tally threshold now weight x =
     (case checked_add (t_total_weight_accrued x) weight of
        None \<Rightarrow> None
      | Some v \<Rightarrow>
          (case checked_add (t_votes x) 1 of
             None \<Rightarrow> None
           | Some n \<Rightarrow>
               let y = x\<lparr>t_total_weight_accrued := v, t_votes := n\<rparr>
               in Some (if v \<ge> threshold then y\<lparr>t_is_done := True, t_resolved_at := now\<rparr> else y)))"

text \<open>A vote of \<open>g\<close> on \<open>t\<close> with weight \<open>w\<close> is admissible; \<open>x\<close> is the task before it.\<close>

definition eligible :: "'w ctx \<Rightarrow> 'w env \<Rightarrow> address \<Rightarrow> u64 \<Rightarrow> u64 \<Rightarrow> task \<Rightarrow> bool" where
  "eligible C s g t w x \<longleftrightarrow>
     \<not> paused_view (storage s) \<and> authorized C g \<and> \<not> lock_held s \<and>
     guardian_view (storage s) g \<and> storage s TokenAddress \<noteq> None \<and>
     sint (lock_threshold_view (storage s)) < sint (locked_view (storage s) g) \<and>
     storage s (Voted t g) = None \<and>
     reputation_view (storage s) g = Some w \<and> w \<noteq> 0 \<and>
     active_view (storage s) t = Some x \<and> \<not> t_is_cancelled x"

text \<open>Whether this vote brings the task to the threshold, and the call of the vault if so.\<close>

definition reaches :: "storage \<Rightarrow> task \<Rightarrow> bool" where
  "reaches \<sigma> y \<longleftrightarrow> t_total_weight_accrued y \<ge> threshold_view \<sigma>"

definition payout :: "'w ctx \<Rightarrow> 'w env \<Rightarrow> u64 \<Rightarrow> task \<Rightarrow> 'w option" where
  "payout C s t y =
     (if reaches (storage s) y then
        (case vault_view (storage s) of
           None \<Rightarrow> Some (world s)
         | Some v \<Rightarrow> x_release_funds (externs C) v t (world s))
      else Some (world s))"

definition voted_env :: "'w env \<Rightarrow> address \<Rightarrow> u64 \<Rightarrow> u64 \<Rightarrow> task \<Rightarrow> 'w \<Rightarrow> 'w env" where
  "voted_env s g t w y \<omega> =
     s\<lparr>storage := (storage s)(AllVotes \<mapsto> VVotes (votes_view (storage s) @ [(t, g)]),
                              Voted t g \<mapsto> VBool True, ActiveTask t \<mapsto> VTask y),
       events := events s @ (if reaches (storage s) y then [TaskResolved t (t_total_weight_accrued y)] else [])
                   @ [WeightedVote t g w],
       world := \<omega>\<rparr>"

lemma vote_commit_exec:
  assumes "well_typed (storage s)"
  shows "vote_commit g t w y C s =
    (Ok (), s\<lparr>storage := (storage s)(AllVotes \<mapsto> VVotes (votes_view (storage s) @ [(t, g)]),
                Voted t g \<mapsto> VBool True, ActiveTask t \<mapsto> VTask y, Lock := None),
              events := events s @ [WeightedVote t g w]\<rparr>)"
  using assms by (simp add: vote_commit_def exec views)

lemma vote_tally_exec:
  assumes "well_typed (storage s)"
  shows "vote_tally g t w x C s =
    (case tally (threshold_view (storage s)) (timestamp C) w x of
       None \<Rightarrow>
         (if checked_add (t_total_weight_accrued x) w = None
          then (Err WeightOverflow, s\<lparr>storage := (storage s)(Lock := None)\<rparr>)
          else (Trap ArithmeticOverflow, s))
     | Some y \<Rightarrow>
         (case payout C s t y of
            None \<Rightarrow> (Err EscrowUnavailable,
                       s\<lparr>storage := (storage s)(Lock := None),
                         events := events s @ [TaskResolved t (t_total_weight_accrued y)]\<rparr>)
          | Some \<omega> \<Rightarrow> vote_commit g t w y C
                      (s\<lparr>events := events s @ (if reaches (storage s) y
                           then [TaskResolved t (t_total_weight_accrued y)] else []), world := \<omega>\<rparr>)))"
  using assms
  by (auto simp: vote_tally_def tally_def payout_def reaches_def DEFAULT_WEIGHT_THRESHOLD_def
      exec views Let_def vote_commit_exec split: option.splits)


text \<open>The lock bit set at the start of \<open>vote\<close> is gone at its end; no other view depends on it.\<close>

lemma lock_bit_views [simp]:
  "tally (threshold_view (\<sigma>(Lock := b))) = tally (threshold_view \<sigma>)"
  "payout C (s\<lparr>storage := \<sigma>(Lock := b)\<rparr>) t y = payout C (s\<lparr>storage := \<sigma>\<rparr>) t y"
  "reaches (\<sigma>(Lock := b)) y = reaches \<sigma> y"
  by (simp_all add: views payout_def reaches_def split: option.split)

lemma lock_bit_dropped:
  "\<not> lock_held s \<Longrightarrow>
     ((storage s)(Lock := b))(AllVotes := v1, Voted t g := v2, ActiveTask t := v3, Lock := None) =
     (storage s)(AllVotes := v1, Voted t g := v2, ActiveTask t := v3)"
  by (auto simp: fun_eq_iff lock_held_def)

lemma vote_exec:
  assumes wt: "well_typed (storage s)"
  shows "vote g t C s =
    (if paused_view (storage s) then (Err ContractPaused, s)
     else if \<not> authorized C g then (Trap AuthFailed, s)
     else if lock_held s then (Err Locked, s)
     else if \<not> guardian_view (storage s) g then (Err NotAuthorized, s)
     else if storage s TokenAddress = None then (Err NotInitialized, s)
     else if sint (locked_view (storage s) g) \<le> sint (lock_threshold_view (storage s))
       then (Err InsufficientLockedBalance, s)
     else if storage s (Voted t g) \<noteq> None then (Err DuplicateVote, s)
     else case reputation_view (storage s) g of
       None \<Rightarrow> (Err NoReputationScore, s)
     | Some w \<Rightarrow>
         if w = 0 then (Err ZeroWeightVote, s)
         else (case active_view (storage s) t of
           None \<Rightarrow> (Err NotAuthorized, s)
         | Some x \<Rightarrow>
             if t_is_cancelled x then (Err TaskCancelled, s)
             else (case tally (threshold_view (storage s)) (timestamp C) w x of
               None \<Rightarrow>
                 (if checked_add (t_total_weight_accrued x) w = None then (Err WeightOverflow, s)
                  else (Trap ArithmeticOverflow, s\<lparr>storage := (storage s)(Lock \<mapsto> VBool True)\<rparr>))
             | Some y \<Rightarrow>
                 (case payout C s t y of
                    None \<Rightarrow> (Err EscrowUnavailable,
                               s\<lparr>events := events s @ [TaskResolved t (t_total_weight_accrued y)]\<rparr>)
                  | Some \<omega> \<Rightarrow> (Ok (), voted_env s g t w y \<omega>)))))"
proof (cases "lock_held s")
  case True
  with wt show ?thesis by (simp add: vote_def exec)
next
  case False
  note unlocked = lock_unlock_storage [OF False] lock_bit_dropped [OF False]
  from wt show ?thesis
    by (simp add: vote_def vote_locked_def exec vote_tally_exec vote_commit_exec voted_env_def
        views unlocked split: option.split) auto
qed

section \<open>The registry of votes\<close>

definition voted_key :: "u64 \<times> address \<Rightarrow> data_key" where
  "voted_key = (\<lambda>(t, g). Voted t g)"

lemma voted_key_pair: "voted_key (t, g) = Voted t g"
  by (simp add: voted_key_def)

interpretation vote_registry:
  indexed_registry voted_key AllVotes VVotes as_votes
  by unfold_locales (auto simp: voted_key_def)

lemma vote_Ok_iff:
  assumes "well_typed (storage s)"
  shows "vote g t C s = (Ok (), s') \<longleftrightarrow>
    (\<exists>w x y \<omega>. eligible C s g t w x \<and>
       tally (threshold_view (storage s)) (timestamp C) w x = Some y \<and>
       payout C s t y = Some \<omega> \<and> s' = voted_env s g t w y \<omega>)"
  unfolding vote_exec [OF assms] eligible_def
  by (auto split: option.split if_splits)

end
