(* ===== verification/Vero_Consensus.thy ===== *)
theory Vero_Consensus
  imports Vero_Execution
begin

text \<open>
  \<open>src/src/consensus.rs\<close>: the pure weighted consensus.  The locale \<open>weighted_consensus\<close>
  is the contract of a vote counter (weights add up exactly, a state is resolved as soon as
  the accrued weight meets the threshold and stays so) with the consequences for whole
  sequences of votes.  It has two implementations in the repository: \<open>apply_vote\<close> here, and
  the arithmetic inside \<open>VeroCore::vote\<close> (\<open>tally\<close> of \<open>Vero_Execution\<close>), which the
  source does not route through \<open>apply_vote\<close>.
\<close>

datatype consensus_error = ConsensusWeightOverflow | ConsensusZeroWeight

record consensus_state =
  cs_total_weight_accrued :: u64
  cs_votes :: u32
  cs_is_done :: bool

definition consensus_new :: consensus_state where
  "consensus_new = \<lparr>cs_total_weight_accrued = 0, cs_votes = 0, cs_is_done = False\<rparr>"

definition apply_vote ::
  "consensus_state \<Rightarrow> u64 \<Rightarrow> u64 \<Rightarrow> (consensus_error + unit) \<times> consensus_state" where
  "apply_vote state weight threshold =
     (if weight = 0 then (Inl ConsensusZeroWeight, state)
      else
        (case checked_add (cs_total_weight_accrued state) weight of
           None \<Rightarrow> (Inl ConsensusWeightOverflow, state)
         | Some v \<Rightarrow>
             let state = state\<lparr>cs_total_weight_accrued := v\<rparr>;
                 state = state\<lparr>cs_votes := saturating_add (cs_votes state) 1\<rparr>;
                 state = (if cs_total_weight_accrued state \<ge> threshold
                          then state\<lparr>cs_is_done := True\<rparr> else state)
             in (Inr (), state)))"

definition resolution_invariant_holds :: "consensus_state \<Rightarrow> u64 \<Rightarrow> bool" where
  "resolution_invariant_holds state threshold =
     (let weight_meets_threshold = (cs_total_weight_accrued state \<ge> threshold)
      in if cs_is_done state then weight_meets_threshold else True)"

section \<open>The contract of a vote counter\<close>

primrec count_votes :: "(u64 \<Rightarrow> 's \<Rightarrow> 's option) \<Rightarrow> u64 list \<Rightarrow> 's \<Rightarrow> 's option" where
  "count_votes count [] s = Some s"
| "count_votes count (w # ws) s = (case count w s of None \<Rightarrow> None | Some s' \<Rightarrow> count_votes count ws s')"

definition total_of :: "u64 list \<Rightarrow> nat" where
  "total_of ws = sum_list (map unat ws)"

locale weighted_consensus =
  fixes count :: "u64 \<Rightarrow> 's \<Rightarrow> 's option"
    and weight_of :: "'s \<Rightarrow> nat"
    and votes_cast :: "'s \<Rightarrow> nat"
    and is_resolved :: "'s \<Rightarrow> bool"
    and threshold :: nat
  assumes count_weight: "count w s = Some s' \<Longrightarrow> weight_of s' = weight_of s + unat w"
    and count_votes_cast: "count w s = Some s' \<Longrightarrow> votes_cast s' = min (votes_cast s + 1) (2 ^ 32 - 1)"
    and count_resolved: "count w s = Some s' \<Longrightarrow> is_resolved s' \<longleftrightarrow> is_resolved s \<or> threshold \<le> weight_of s'"
begin

lemma count_monotone: "count w s = Some s' \<Longrightarrow> is_resolved s \<Longrightarrow> is_resolved s'"
  by (simp add: count_resolved)

lemma count_not_below:
  "count w s = Some s' \<Longrightarrow> \<not> is_resolved s \<Longrightarrow> is_resolved s' \<Longrightarrow> threshold \<le> weight_of s'"
  by (simp add: count_resolved)

lemma run_weight: "count_votes count ws s = Some s' \<Longrightarrow> weight_of s' = weight_of s + total_of ws"
  by (induction ws arbitrary: s) (auto simp: total_of_def count_weight split: option.splits)

lemma run_votes_cast:
  "count_votes count ws s = Some s' \<Longrightarrow> votes_cast s + length ws < 2 ^ 32 \<Longrightarrow>
     votes_cast s' = votes_cast s + length ws"
  by (induction ws arbitrary: s) (auto simp: count_votes_cast split: option.splits)

text \<open>After a non-empty run of votes the state is resolved exactly if it was before, or the
  accrued weight meets the threshold: the order of the votes does not matter.\<close>

lemma run_resolved:
  assumes "count_votes count ws s = Some s'" and "ws \<noteq> []"
  shows "is_resolved s' \<longleftrightarrow> is_resolved s \<or> threshold \<le> weight_of s'"
  using assms
proof (induction ws arbitrary: s)
  case (Cons w ws)
  then obtain s1 where s1: "count w s = Some s1" and rest: "count_votes count ws s1 = Some s'"
    by (auto split: option.splits)
  show ?case
  proof (cases "ws = []")
    case True
    with rest s1 show ?thesis by (simp add: count_resolved)
  next
    case False
    with rest Cons.IH have "is_resolved s' \<longleftrightarrow> is_resolved s1 \<or> threshold \<le> weight_of s'" by blast
    moreover have "weight_of s1 \<le> weight_of s'" using run_weight [OF rest] by simp
    ultimately show ?thesis using count_resolved [OF s1] by auto
  qed
qed simp

end

section \<open>Its two implementations\<close>

definition apply_vote_step :: "u64 \<Rightarrow> u64 \<Rightarrow> consensus_state \<Rightarrow> consensus_state option" where
  "apply_vote_step threshold weight state =
     (case apply_vote state weight threshold of (Inr _, state') \<Rightarrow> Some state' | (Inl _, _) \<Rightarrow> None)"

lemma apply_vote_cases:
  "apply_vote st w thr =
     (if w = 0 then (Inl ConsensusZeroWeight, st)
      else case checked_add (cs_total_weight_accrued st) w of
        None \<Rightarrow> (Inl ConsensusWeightOverflow, st)
      | Some v \<Rightarrow> (Inr (), \<lparr>cs_total_weight_accrued = v, cs_votes = saturating_add (cs_votes st) 1,
                            cs_is_done = (cs_is_done st \<or> thr \<le> v)\<rparr>))"
  by (simp add: apply_vote_def Let_def split: option.split)

lemma apply_vote_step_SomeD:
  "apply_vote_step thr w st = Some st' \<Longrightarrow>
     w \<noteq> 0 \<and> unat (cs_total_weight_accrued st') = unat (cs_total_weight_accrued st) + unat w \<and>
     cs_votes st' = saturating_add (cs_votes st) 1 \<and>
     (cs_is_done st' \<longleftrightarrow> cs_is_done st \<or> thr \<le> cs_total_weight_accrued st')"
  by (auto simp: apply_vote_step_def apply_vote_cases dest!: checked_add_SomeD split: option.splits if_splits)

interpretation pure_consensus:
  weighted_consensus "apply_vote_step thr" "\<lambda>st. unat (cs_total_weight_accrued st)"
    "\<lambda>st. unat (cs_votes st)" cs_is_done "unat thr" for thr
  by unfold_locales
    (auto dest!: apply_vote_step_SomeD simp: unat_saturating_add word_le_nat_alt)

lemma tally_SomeD:
  assumes "tally thr now w x = Some y"
  shows "unat (t_total_weight_accrued y) = unat (t_total_weight_accrued x) + unat w"
    and "unat (t_votes y) = unat (t_votes x) + 1"
    and "t_id y = t_id x" and "t_is_cancelled y = t_is_cancelled x"
    and "t_is_done y \<longleftrightarrow> t_is_done x \<or> thr \<le> t_total_weight_accrued y"
    and "t_resolved_at y = (if thr \<le> t_total_weight_accrued y then now else t_resolved_at x)"
  using assms
  by (auto simp: tally_def Let_def dest!: checked_add_SomeD split: option.splits if_splits)

lemma unat_u32_bound: "unat (n :: u32) \<le> 4294967295"
  using unsigned_less [of n, where ?'a = nat] by simp

interpretation task_consensus:
  weighted_consensus "tally thr now" "\<lambda>x. unat (t_total_weight_accrued x)"
    "\<lambda>x. unat (t_votes x)" t_is_done "unat thr" for thr now
proof unfold_locales
  fix w s s' assume y: "tally thr now w s = Some s'"
  show "unat (t_total_weight_accrued s') = unat (t_total_weight_accrued s) + unat w"
    by (rule tally_SomeD(1) [OF y])
  show "t_is_done s' = (t_is_done s \<or> unat thr \<le> unat (t_total_weight_accrued s'))"
    using tally_SomeD(5) [OF y] by (simp add: word_le_nat_alt)
  show "unat (t_votes s') = min (unat (t_votes s) + 1) (2 ^ 32 - 1)"
    using tally_SomeD(2) [OF y] unat_u32_bound [of "t_votes s'"] by simp
qed

definition consensus_of :: "task \<Rightarrow> consensus_state" where
  "consensus_of x =
     \<lparr>cs_total_weight_accrued = t_total_weight_accrued x, cs_votes = t_votes x, cs_is_done = t_is_done x\<rparr>"

section \<open>Sequences of votes\<close>

lemma apply_vote_step_eq:
  "apply_vote_step thr w st =
     (if w \<noteq> 0 \<and> unat (cs_total_weight_accrued st) + unat w < 2 ^ 64
      then Some \<lparr>cs_total_weight_accrued = cs_total_weight_accrued st + w,
                 cs_votes = saturating_add (cs_votes st) 1,
                 cs_is_done = (cs_is_done st \<or> unat thr \<le> unat (cs_total_weight_accrued st) + unat w)\<rparr>
      else None)"
  by (auto simp: apply_vote_step_def apply_vote_cases checked_add_def word_le_nat_alt unat_plus_no_overflow
      split: option.splits if_splits)

lemma votes_cap:
  fixes n :: u32
  shows "of_nat (min (unat (saturating_add n 1) + k) 4294967295) = (of_nat (min (unat n + Suc k) 4294967295) :: u32)"
proof -
  have "unat (saturating_add n 1) = min (unat n + 1) 4294967295" by (simp add: unat_saturating_add)
  then have "min (unat (saturating_add n 1) + k) 4294967295 = min (unat n + Suc k) 4294967295" by simp
  then show ?thesis by (simp only:)
qed

lemma total_of_simps [simp]: "total_of [] = 0" "total_of (w # ws) = unat w + total_of ws"
  by (simp_all add: total_of_def)

text \<open>The closed form of a whole sequence: it is accepted exactly if no weight is zero and the
  exact sum fits 64 bits.\<close>

lemma count_votes_closed:
  "count_votes (apply_vote_step thr) ws st =
     (if (\<forall>w\<in>set ws. w \<noteq> 0) \<and> unat (cs_total_weight_accrued st) + total_of ws < 2 ^ 64
      then Some \<lparr>cs_total_weight_accrued = cs_total_weight_accrued st + of_nat (total_of ws),
                 cs_votes = of_nat (min (unat (cs_votes st) + length ws) (2 ^ 32 - 1)),
                 cs_is_done = (cs_is_done st \<or>
                   (ws \<noteq> [] \<and> unat thr \<le> unat (cs_total_weight_accrued st) + total_of ws))\<rparr>
      else None)"
proof (induction ws arbitrary: st)
  case Nil
  have "of_nat (min (unat (cs_votes st)) 4294967295) = cs_votes st"
    using unat_u32_bound [of "cs_votes st"] by (simp add: min_absorb1)
  then show ?case using unsigned_less [of "cs_total_weight_accrued st", where ?'a = nat]
    by (simp add: total_of_def)
next
  case (Cons w ws)
  let ?acc = "cs_total_weight_accrued st"
  show ?case
  proof (cases "w \<noteq> 0 \<and> unat ?acc + unat w < 2 ^ 64")
    case True
    let ?st = "\<lparr>cs_total_weight_accrued = ?acc + w, cs_votes = saturating_add (cs_votes st) 1,
      cs_is_done = (cs_is_done st \<or> unat thr \<le> unat ?acc + unat w)\<rparr>"
    from True have sum: "unat (?acc + w) = unat ?acc + unat w" by (simp add: unat_plus_no_overflow)
    from True have "count_votes (apply_vote_step thr) (w # ws) st = count_votes (apply_vote_step thr) ws ?st"
      by (simp add: apply_vote_step_eq)
    also note Cons.IH [of ?st]
    finally show ?thesis using True
      by (cases "ws = []") (auto simp: sum votes_cap votes_cap [of _ 0, simplified] add.assoc)
  next
    case False
    then show ?thesis by (auto simp: apply_vote_step_eq)
  qed
qed

text \<open>
  C37. A whole sequence of votes through \<open>apply_vote\<close>, from the empty state.  It is accepted
  exactly if no weight is zero and the exact sum of the weights fits 64 bits.  Then the
  accrued weight is that sum, the counter is the number of votes (capped at \<open>2 ^ 32 - 1\<close>),
  and the state is resolved exactly if there was a vote and the sum meets the threshold.
\<close>

theorem apply_vote_sequence:
  "count_votes (apply_vote_step thr) ws consensus_new =
     (if (\<forall>w\<in>set ws. w \<noteq> 0) \<and> total_of ws < 2 ^ 64
      then Some \<lparr>cs_total_weight_accrued = of_nat (total_of ws),
                 cs_votes = of_nat (min (length ws) (2 ^ 32 - 1)),
                 cs_is_done = (ws \<noteq> [] \<and> unat thr \<le> total_of ws)\<rparr>
      else None)"
  by (auto simp: count_votes_closed consensus_new_def)

theorem apply_vote_sequence_witness:
  "count_votes (apply_vote_step 300) [40, 300] consensus_new =
     Some \<lparr>cs_total_weight_accrued = 340, cs_votes = 2, cs_is_done = True\<rparr>"
  unfolding apply_vote_sequence by simp

end
