(* ===== verification/Vero_System.thy ===== *)
theory Vero_System
  imports Vero_Consensus
begin

text \<open>
  The contract as a transition system.  A \<open>call\<close> names an entry point with its arguments, and
  \<open>run_call\<close> is the dispatch.  Between two calls the other contracts may move on by
  themselves.  \<open>reach\<close> is reachability in any transition system, the locale \<open>safe_system\<close> the
  usual argument that an inductive invariant holds in every reachable state; it is
  interpreted on the contract with \<open>contract_inv\<close>, the conjunction of the invariants of the
  components.
\<close>

section \<open>Reachability and invariants\<close>

inductive reach :: "('s \<Rightarrow> bool) \<Rightarrow> ('s \<Rightarrow> 's \<Rightarrow> bool) \<Rightarrow> 's \<Rightarrow> bool"
  for init :: "'s \<Rightarrow> bool" and step :: "'s \<Rightarrow> 's \<Rightarrow> bool" where
  reach_init: "init s \<Longrightarrow> reach init step s"
| reach_step: "reach init step s \<Longrightarrow> step s s' \<Longrightarrow> reach init step s'"

locale safe_system =
  fixes init :: "'s \<Rightarrow> bool" and step :: "'s \<Rightarrow> 's \<Rightarrow> bool" and inv :: "'s \<Rightarrow> bool"
  assumes inv_init: "init s \<Longrightarrow> inv s"
    and inv_step: "inv s \<Longrightarrow> step s s' \<Longrightarrow> inv s'"
begin

lemma inv_reach: "reach init step s \<Longrightarrow> inv s"
  by (induction rule: reach.induct) (blast intro: inv_init inv_step)+

lemma inv_steps: "step\<^sup>*\<^sup>* s s' \<Longrightarrow> inv s \<Longrightarrow> inv s'"
  by (induction rule: rtranclp_induct) (blast intro: inv_step)+

text \<open>A relation that every step from a good state establishes, and that is reflexive and
  transitive, holds between the ends of a run.\<close>

lemma steps_preorder:
  assumes run: "step\<^sup>*\<^sup>* s s'" and start: "inv s"
    and refl: "\<And>u. rel u u" and trans: "\<And>u v x. rel u v \<Longrightarrow> rel v x \<Longrightarrow> rel u x"
    and one: "\<And>u v. inv u \<Longrightarrow> step u v \<Longrightarrow> rel u v"
  shows "rel s s'"
  using run
proof (induction rule: rtranclp_induct)
  case base
  show ?case by (rule refl)
next
  case (step u v)
  from step.hyps(1) start have "inv u" by (rule inv_steps)
  with step one trans show ?case by blast
qed

end

section \<open>The calls\<close>

datatype call =
    C_initialize address i128
  | C_toggle_pause address
  | C_pause address
  | C_unpause address
  | C_add_guardian address address
  | C_remove_guardian address address
  | C_lock_tokens address i128
  | C_resign_guardian address
  | C_unlock_tokens address
  | C_set_reputation address address u64
  | C_set_weight_threshold address u64
  | C_set_vault_address address address
  | C_register_task address u64
  | C_cancel_task address u64
  | C_vote address u64
  | C_archive_task u64
  | C_start_reward_stream address address address u64
  | C_record_failure
  | C_reset_circuit_breaker address
  | C_upgrade_contract address bytesn32

fun run_call :: "call \<Rightarrow> ('w, unit) contract" where
  "run_call (C_initialize token n) = initialize token n"
| "run_call (C_toggle_pause a) = toggle_pause a"
| "run_call (C_pause a) = pause a"
| "run_call (C_unpause a) = unpause a"
| "run_call (C_add_guardian a g) = add_guardian a g"
| "run_call (C_remove_guardian a g) = remove_guardian a g"
| "run_call (C_lock_tokens g n) = lock_tokens g n"
| "run_call (C_resign_guardian g) = resign_guardian g"
| "run_call (C_unlock_tokens g) = unlock_tokens g"
| "run_call (C_set_reputation a g n) = set_reputation a g n"
| "run_call (C_set_weight_threshold a n) = set_weight_threshold a n"
| "run_call (C_set_vault_address a v) = set_vault_address a v"
| "run_call (C_register_task a t) = register_task a t"
| "run_call (C_cancel_task a t) = cancel_task a t"
| "run_call (C_vote g t) = vote g t"
| "run_call (C_archive_task t) = archive_task t"
| "run_call (C_start_reward_stream a d c t) = start_reward_stream a d c t"
| "run_call C_record_failure = record_failure"
| "run_call (C_reset_circuit_breaker a) = reset_circuit_breaker a"
| "run_call (C_upgrade_contract a h) = upgrade_contract a h"

definition call_env :: "'w ctx \<Rightarrow> call \<Rightarrow> 'w env \<Rightarrow> 'w env" where
  "call_env C c s = snd (invoke (run_call c) C s)"

definition fresh_env :: "'w env \<Rightarrow> bool" where
  "fresh_env s \<longleftrightarrow> storage s = Map.empty \<and> events s = [] \<and> wasm_update s = None"

text \<open>\<open>P\<close> restricts the contexts of the calls, \<open>R\<close> what the other contracts do in between.  An
  upgraded instance runs other code, so the steps of this code stop there.\<close>

inductive contract_step :: "('w ctx \<Rightarrow> bool) \<Rightarrow> ('w \<Rightarrow> 'w \<Rightarrow> bool) \<Rightarrow> 'w env \<Rightarrow> 'w env \<Rightarrow> bool"
  for P :: "'w ctx \<Rightarrow> bool" and R :: "'w \<Rightarrow> 'w \<Rightarrow> bool" where
  call_step: "P C \<Longrightarrow> wasm_update s = None \<Longrightarrow> contract_step P R s (call_env C c s)"
| world_step: "R (world s) w \<Longrightarrow> contract_step P R s (s\<lparr>world := w\<rparr>)"

inductive_cases contract_stepE: "contract_step P R s s'"

abbreviation reachable :: "('w ctx \<Rightarrow> bool) \<Rightarrow> ('w \<Rightarrow> 'w \<Rightarrow> bool) \<Rightarrow> 'w env \<Rightarrow> bool" where
  "reachable P R \<equiv> reach fresh_env (contract_step P R)"

section \<open>The invariants\<close>

definition task_of :: "storage \<Rightarrow> u64 \<Rightarrow> task option" where
  "task_of \<sigma> t = (case active_view \<sigma> t of Some x \<Rightarrow> Some x | None \<Rightarrow> archived_view \<sigma> t)"

definition resolved_in :: "storage \<Rightarrow> u64 \<Rightarrow> bool" where
  "resolved_in \<sigma> t \<longleftrightarrow> (case task_of \<sigma> t of None \<Rightarrow> False | Some x \<Rightarrow> t_is_done x)"

lemma resolved_in_iff: "resolved_in \<sigma> t \<longleftrightarrow> (\<exists>x. task_of \<sigma> t = Some x \<and> t_is_done x)"
  by (simp add: resolved_in_def split: option.split)

definition tasks_inv :: "storage \<Rightarrow> bool" where
  "tasks_inv \<sigma> \<longleftrightarrow>
     (\<forall>t x. active_view \<sigma> t = Some x \<longrightarrow> t_id x = t \<and> archived_view \<sigma> t = None) \<and>
     (\<forall>t x. archived_view \<sigma> t = Some x \<longrightarrow> t_id x = t \<and> t_is_done x \<and> t_resolved_at x \<noteq> 0) \<and>
     distinct (tasks_view \<sigma>) \<and> (\<forall>t. t \<in> set (tasks_view \<sigma>) \<longleftrightarrow> task_of \<sigma> t \<noteq> None)"

definition votes_inv :: "storage \<Rightarrow> bool" where
  "votes_inv \<sigma> \<longleftrightarrow>
     indexed voted_key AllVotes as_votes \<sigma> \<and>
     (\<forall>t g. (t, g) \<in> set (votes_view \<sigma>) \<longrightarrow> task_of \<sigma> t \<noteq> None)"

definition voters :: "storage \<Rightarrow> u64 \<Rightarrow> address list" where
  "voters \<sigma> t = map snd (filter (\<lambda>v. fst v = t) (votes_view \<sigma>))"

definition log_inv :: "storage \<Rightarrow> event list \<Rightarrow> bool" where
  "log_inv \<sigma> es \<longleftrightarrow>
     (\<forall>t. map fst (votes_of t es) = voters \<sigma> t) \<and>
     (\<forall>t g w. (g, w) \<in> set (votes_of t es) \<longrightarrow> w \<noteq> 0) \<and>
     (\<forall>t. (\<exists>w. TaskResolved t w \<in> set es) \<longleftrightarrow> resolved_in \<sigma> t) \<and>
     (\<forall>t x. task_of \<sigma> t = Some x \<longrightarrow>
        unat (t_votes x) = vote_count t es \<and>
        unat (t_total_weight_accrued x) = vote_weight t es \<and>
        (t_is_done x \<longrightarrow> 0 < vote_count t es))"

definition streams_inv :: "storage \<Rightarrow> bool" where
  "streams_inv \<sigma> \<longleftrightarrow>
     indexed RewardStream AllRewardStreams as_ids \<sigma> \<and>
     (\<forall>t r. stream_view \<sigma> t = Some r \<longrightarrow>
        rs_task_id r = t \<and> rs_active r \<and> resolved_in \<sigma> t)"

definition ledger_inv :: "storage \<Rightarrow> event list \<Rightarrow> bool" where
  "ledger_inv \<sigma> es \<longleftrightarrow> tasks_inv \<sigma> \<and> votes_inv \<sigma> \<and> log_inv \<sigma> es \<and> streams_inv \<sigma>"

definition config_inv :: "storage \<Rightarrow> bool" where
  "config_inv \<sigma> \<longleftrightarrow>
     \<sigma> Admin = None \<and> \<sigma> DripsAddress = None \<and>
     (initialized_view \<sigma> \<longleftrightarrow> \<sigma> TokenAddress \<noteq> None)"

definition contract_inv :: "'w env \<Rightarrow> bool" where
  "contract_inv s \<longleftrightarrow>
     well_typed (storage s) \<and> \<not> lock_held s \<and> config_inv (storage s) \<and>
     guardians_inv (storage s) \<and> ledger_inv (storage s) (events s)"

text \<open>The keys the ledger invariant depends on; a write elsewhere does not touch it.\<close>

fun ledger_key :: "data_key \<Rightarrow> bool" where
  "ledger_key (ActiveTask _) = True"
| "ledger_key (ArchivedTask _) = True"
| "ledger_key (Voted _ _) = True"
| "ledger_key (RewardStream _) = True"
| "ledger_key AllTasks = True"
| "ledger_key AllVotes = True"
| "ledger_key AllRewardStreams = True"
| "ledger_key _ = False"

lemma ledger_frame_tasks:
  assumes "\<not> ledger_key k"
  shows "active_view (\<sigma>(k := v)) t = active_view \<sigma> t" "archived_view (\<sigma>(k := v)) t = archived_view \<sigma> t"
    "tasks_view (\<sigma>(k := v)) = tasks_view \<sigma>" "votes_view (\<sigma>(k := v)) = votes_view \<sigma>"
    "stream_view (\<sigma>(k := v)) t = stream_view \<sigma> t"
  using assms by (auto simp: views)

lemma ledger_frame_task_of:
  assumes "\<not> ledger_key k"
  shows "task_of (\<sigma>(k := v)) t = task_of \<sigma> t" and "voters (\<sigma>(k := v)) t = voters \<sigma> t"
  using assms by (simp_all add: task_of_def voters_def ledger_frame_tasks split: option.split)

lemma ledger_frame_indexed:
  assumes "\<not> ledger_key k"
  shows "indexed voted_key AllVotes as_votes (\<sigma>(k := v)) = indexed voted_key AllVotes as_votes \<sigma>"
    and "indexed RewardStream AllRewardStreams as_ids (\<sigma>(k := v)) =
         indexed RewardStream AllRewardStreams as_ids \<sigma>"
  by (rule vote_registry.indexed_frame stream_registry.indexed_frame;
      use assms in \<open>auto simp: voted_key_def split: prod.splits\<close>)+

lemmas ledger_frame = ledger_frame_tasks ledger_frame_task_of ledger_frame_indexed

lemma ledger_inv_frame [simp]:
  "\<not> ledger_key k \<Longrightarrow> ledger_inv (\<sigma>(k := v)) es = ledger_inv \<sigma> es"
  by (simp add: ledger_inv_def tasks_inv_def votes_inv_def log_inv_def streams_inv_def resolved_in_def ledger_frame)

lemma ledger_inv_event [simp]:
  assumes "\<forall>t g w. e \<noteq> WeightedVote t g w" and "\<forall>t w. e \<noteq> TaskResolved t w"
  shows "ledger_inv \<sigma> (es @ [e]) = ledger_inv \<sigma> es"
proof -
  from assms(1) have "votes_of t [e] = []" for t by (cases e) auto
  moreover from assms(2) have "TaskResolved t w \<noteq> e" for t w by metis
  ultimately show ?thesis by (simp add: ledger_inv_def log_inv_def vote_count_def vote_weight_def)
qed

section \<open>Writes to the ledger\<close>

lemma view_upd:
  "active_view (\<sigma>(k := v)) t =
     (if k = ActiveTask t then (case v of None \<Rightarrow> None | Some z \<Rightarrow> as_task z) else active_view \<sigma> t)"
  "archived_view (\<sigma>(k := v)) t =
     (if k = ArchivedTask t then (case v of None \<Rightarrow> None | Some z \<Rightarrow> as_task z) else archived_view \<sigma> t)"
  "stream_view (\<sigma>(k := v)) t =
     (if k = RewardStream t then (case v of None \<Rightarrow> None | Some z \<Rightarrow> as_stream z) else stream_view \<sigma> t)"
  "k \<noteq> AllTasks \<Longrightarrow> tasks_view (\<sigma>(k := v)) = tasks_view \<sigma>"
  "k \<noteq> AllVotes \<Longrightarrow> votes_view (\<sigma>(k := v)) = votes_view \<sigma>"
  "tasks_view (\<sigma>(AllTasks \<mapsto> VIds ts)) = ts"
  "votes_view (\<sigma>(AllVotes \<mapsto> VVotes vs)) = vs"
  by (auto simp: views)

lemma task_of_upd:
  "\<forall>t. k \<noteq> ActiveTask t \<and> k \<noteq> ArchivedTask t \<Longrightarrow> task_of (\<sigma>(k := v)) t = task_of \<sigma> t"
  "task_of (\<sigma>(ActiveTask t' \<mapsto> VTask y)) t = (if t = t' then Some y else task_of \<sigma> t)"
  by (auto simp: task_of_def view_upd split: option.split)

lemma task_of_archive:
  "active_view \<sigma> t' = Some x \<Longrightarrow>
     task_of (\<sigma>(ArchivedTask t' \<mapsto> VTask x, ActiveTask t' := None)) t = task_of \<sigma> t"
  by (auto simp: task_of_def view_upd split: option.split)

lemma voters_upd:
  "k \<noteq> AllVotes \<Longrightarrow> voters (\<sigma>(k := v)) t = voters \<sigma> t"
  "voters (\<sigma>(AllVotes \<mapsto> VVotes (votes_view \<sigma> @ [(t', g)]))) t = voters \<sigma> t @ (if t = t' then [g] else [])"
  by (auto simp: voters_def view_upd)

lemma votes_indexed_upd:
  "k \<noteq> AllVotes \<Longrightarrow> \<forall>t g. k \<noteq> Voted t g \<Longrightarrow>
     indexed voted_key AllVotes as_votes (\<sigma>(k := v)) = indexed voted_key AllVotes as_votes \<sigma>"
  by (rule vote_registry.indexed_frame) (auto simp: voted_key_def split: prod.splits)

lemma streams_indexed_upd:
  "k \<noteq> AllRewardStreams \<Longrightarrow> \<forall>t. k \<noteq> RewardStream t \<Longrightarrow>
     indexed RewardStream AllRewardStreams as_ids (\<sigma>(k := v)) =
     indexed RewardStream AllRewardStreams as_ids \<sigma>"
  by (rule stream_registry.indexed_frame) auto

lemma resolved_in_upd:
  "\<forall>t. k \<noteq> ActiveTask t \<and> k \<noteq> ArchivedTask t \<Longrightarrow> resolved_in (\<sigma>(k := v)) t = resolved_in \<sigma> t"
  "resolved_in (\<sigma>(ActiveTask t' \<mapsto> VTask y)) t = (if t = t' then t_is_done y else resolved_in \<sigma> t)"
  by (simp_all add: resolved_in_def task_of_upd)

lemma resolved_in_task: "task_of \<sigma> t = Some x \<Longrightarrow> resolved_in \<sigma> t \<longleftrightarrow> t_is_done x"
  and resolved_in_None: "task_of \<sigma> t = None \<Longrightarrow> \<not> resolved_in \<sigma> t"
  by (simp_all add: resolved_in_def)

lemmas ledger_upd = resolved_in_upd view_upd task_of_upd voters_upd votes_indexed_upd streams_indexed_upd
lemmas ledger_defs = tasks_inv_def votes_inv_def log_inv_def streams_inv_def

lemma active_task_of: "active_view \<sigma> t = Some x \<Longrightarrow> task_of \<sigma> t = Some x"
  by (simp add: task_of_def)

text \<open>An update of an active task that changes neither its identity nor its count.\<close>

lemma ledger_inv_retouch:
  assumes inv: "ledger_inv \<sigma> es" and x: "active_view \<sigma> t = Some x"
    and same: "t_id y = t" "t_votes y = t_votes x" "t_is_done y = t_is_done x"
      "t_total_weight_accrued y = t_total_weight_accrued x"
  shows "ledger_inv (\<sigma>(ActiveTask t \<mapsto> VTask y)) es"
proof -
  note tx = active_task_of [OF x]
  from inv x same tx have "tasks_inv (\<sigma>(ActiveTask t \<mapsto> VTask y))"
    by (auto simp: ledger_inv_def tasks_inv_def ledger_upd)
  moreover from inv x same tx have "votes_inv (\<sigma>(ActiveTask t \<mapsto> VTask y))"
    by (auto simp: ledger_inv_def votes_inv_def ledger_upd)
  moreover from inv x same tx resolved_in_task [OF tx] have "log_inv (\<sigma>(ActiveTask t \<mapsto> VTask y)) es"
    by (auto simp: ledger_inv_def log_inv_def ledger_upd)
  moreover from inv same resolved_in_task [OF tx] have "streams_inv (\<sigma>(ActiveTask t \<mapsto> VTask y))"
    by (auto simp: ledger_inv_def streams_inv_def ledger_upd)
  ultimately show ?thesis by (simp add: ledger_inv_def)
qed

lemma unregistered_no_votes:
  assumes "ledger_inv \<sigma> es" and "task_of \<sigma> t = None"
  shows "votes_of t es = []"
proof -
  from assms have "\<forall>g. (t, g) \<notin> set (votes_view \<sigma>)"
    by (auto simp: ledger_inv_def votes_inv_def)
  then have "voters \<sigma> t = []" by (auto simp: voters_def filter_empty_conv)
  with assms(1) have "map fst (votes_of t es) = []" by (simp add: ledger_inv_def log_inv_def)
  then show ?thesis by simp
qed

lemma ledger_inv_register:
  assumes inv: "ledger_inv \<sigma> es" and fresh: "task_of \<sigma> t = None"
  shows "ledger_inv (\<sigma>(ActiveTask t \<mapsto> VTask (new_task t), AllTasks \<mapsto> VIds (tasks_view \<sigma> @ [t]))) es"
    (is "ledger_inv ?\<sigma> es")
proof -
  from fresh have a: "archived_view \<sigma> t = None" by (auto simp: task_of_def split: option.splits)
  note novotes = unregistered_no_votes [OF inv fresh]
  from inv fresh a have "tasks_inv ?\<sigma>"
    by (auto simp: ledger_inv_def tasks_inv_def ledger_upd)
  moreover from inv have "votes_inv ?\<sigma>"
    by (auto simp: ledger_inv_def votes_inv_def ledger_upd)
  moreover from inv novotes resolved_in_None [OF fresh] have "log_inv ?\<sigma> es"
    by (auto simp: ledger_inv_def log_inv_def ledger_upd new_task_def vote_count_def vote_weight_def)
  moreover from inv resolved_in_None [OF fresh] have "streams_inv ?\<sigma>"
    by (auto simp: ledger_inv_def streams_inv_def ledger_upd)
  ultimately show ?thesis by (simp add: ledger_inv_def)
qed

lemma ledger_inv_archive:
  assumes inv: "ledger_inv \<sigma> es" and x: "active_view \<sigma> t = Some x"
    and fin: "t_is_done x" "t_resolved_at x \<noteq> 0"
  shows "ledger_inv (\<sigma>(ArchivedTask t \<mapsto> VTask x, ActiveTask t := None)) es" (is "ledger_inv ?\<sigma> es")
proof -
  note upd = view_upd voters_upd votes_indexed_upd streams_indexed_upd task_of_archive [OF x]
  from inv x fin have "tasks_inv ?\<sigma>"
    by (auto simp: ledger_inv_def tasks_inv_def upd)
  moreover from inv have "votes_inv ?\<sigma>" "log_inv ?\<sigma> es" "streams_inv ?\<sigma>"
    by (auto simp: ledger_inv_def votes_inv_def log_inv_def streams_inv_def resolved_in_def upd)
  ultimately show ?thesis by (simp add: ledger_inv_def)
qed

lemma ledger_inv_stream:
  assumes inv: "ledger_inv \<sigma> es" and x: "active_view \<sigma> t = Some x" and fin: "t_is_done x"
    and new: "\<sigma> (RewardStream t) = None"
  shows "ledger_inv (\<sigma>(AllRewardStreams \<mapsto> VIds (streams_view \<sigma> @ [t]),
                        RewardStream t \<mapsto> VStream (new_stream d c t))) es" (is "ledger_inv ?\<sigma> es")
proof -
  have "indexed RewardStream AllRewardStreams as_ids ?\<sigma>"
    using inv new stream_registry.indexed_insert [of \<sigma> t]
    by (simp add: ledger_inv_def streams_inv_def streams_view_def)
  with inv fin resolved_in_task [OF active_task_of [OF x]] have "streams_inv ?\<sigma>"
    by (auto simp: ledger_inv_def streams_inv_def ledger_upd new_stream_def)
  moreover from inv have "tasks_inv ?\<sigma>" "votes_inv ?\<sigma>" "log_inv ?\<sigma> es"
    by (auto simp: ledger_inv_def tasks_inv_def votes_inv_def log_inv_def ledger_upd)
  ultimately show ?thesis by (simp add: ledger_inv_def)
qed

lemma ledger_inv_vote:
  assumes inv: "ledger_inv \<sigma> es" and x: "active_view \<sigma> t = Some x"
    and new: "\<sigma> (Voted t g) = None" and w: "w \<noteq> 0"
    and y: "tally thr now w x = Some y"
  shows "ledger_inv (\<sigma>(AllVotes \<mapsto> VVotes (votes_view \<sigma> @ [(t, g)]), Voted t g \<mapsto> VBool True,
                        ActiveTask t \<mapsto> VTask y))
           (es @ (if thr \<le> t_total_weight_accrued y then [TaskResolved t (t_total_weight_accrued y)] else [])
               @ [WeightedVote t g w])"
    (is "ledger_inv ?\<sigma> (es @ ?res @ _)")
proof -
  note tx = active_task_of [OF x] and yx = tally_SomeD [OF y]
  have "indexed voted_key AllVotes as_votes
      (\<sigma>(AllVotes \<mapsto> VVotes (votes_view \<sigma> @ [(t, g)]), voted_key (t, g) \<mapsto> VBool True))"
    using inv new vote_registry.indexed_insert [of \<sigma> "(t, g)"]
    by (simp add: ledger_inv_def votes_inv_def votes_view_def voted_key_pair)
  with inv tx have "votes_inv ?\<sigma>"
    by (auto simp: ledger_inv_def votes_inv_def voted_key_pair ledger_upd)
  moreover from inv x yx tx have "tasks_inv ?\<sigma>"
    by (auto simp: ledger_inv_def tasks_inv_def ledger_upd)
  moreover from inv w tx yx resolved_in_task [OF tx] have "log_inv ?\<sigma> (es @ ?res @ [WeightedVote t g w])"
    by (auto simp: ledger_inv_def log_inv_def ledger_upd vote_count_def vote_weight_def)
  moreover from inv resolved_in_task [OF tx] yx(5) have "streams_inv ?\<sigma>"
    by (auto simp: ledger_inv_def streams_inv_def ledger_upd)
  ultimately show ?thesis by (simp add: ledger_inv_def)
qed

section \<open>Every call keeps the invariant\<close>

lemma contract_inv_init: "fresh_env s \<Longrightarrow> contract_inv s"
  by (auto simp: fresh_env_def contract_inv_def lock_held_def config_inv_def guardians_inv_def
      ledger_inv_def tasks_inv_def votes_inv_def log_inv_def streams_inv_def views task_of_def
      voters_def resolved_in_def vote_registry.indexed_empty stream_registry.indexed_empty
      guardian_registry.covered_empty)

lemma contract_inv_world [simp]: "contract_inv (s\<lparr>world := w\<rparr>) = contract_inv s"
  by (simp add: contract_inv_def lock_held_def)

lemma contract_inv_ledger:
  assumes "contract_inv s"
    and "well_typed \<sigma>" "ledger_inv \<sigma> es"
    and frame: "\<And>k. \<not> ledger_key k \<Longrightarrow> \<sigma> k = storage s k"
  shows "contract_inv (s\<lparr>storage := \<sigma>, events := es\<rparr>)"
proof -
  from frame have "look_or as_addresses [] \<sigma> AllGuardians = look_or as_addresses [] (storage s) AllGuardians"
    "look_or as_bool False \<sigma> Initialized = look_or as_bool False (storage s) Initialized"
    by (simp_all add: look_or_def look_def)
  with assms show ?thesis
    by (simp add: contract_inv_def lock_held_def config_inv_def guardians_inv_def covered_def views)
qed

lemmas contract_inv_wt = contract_inv_def [THEN iffD1, THEN conjunct1]

text \<open>Calls that write outside the ledger.\<close>

lemma guardians_inv_add:
  "guardians_inv \<sigma> \<Longrightarrow>
     guardians_inv (\<sigma>(AllGuardians \<mapsto> VAddresses (guardians_view \<sigma> @ [g]), Guardian g \<mapsto> v))"
  using guardian_registry.covered_insert by (simp add: guardians_inv_def guardians_view_def)

lemma guardians_inv_overwrite:
  "guardians_inv \<sigma> \<Longrightarrow> \<sigma> (Guardian g) \<noteq> None \<or> v = None \<Longrightarrow> guardians_inv (\<sigma>(Guardian g := v))"
  using guardian_registry.covered_overwrite by (simp add: guardians_inv_def)

lemma guardian_view_present: "guardian_view \<sigma> g \<Longrightarrow> \<sigma> (Guardian g) \<noteq> None"
  by (auto simp: views look_or_def look_def split: option.splits)

fun ledger_call :: "call \<Rightarrow> bool" where
  "ledger_call (C_register_task _ _) = True"
| "ledger_call (C_cancel_task _ _) = True"
| "ledger_call (C_vote _ _) = True"
| "ledger_call (C_archive_task _) = True"
| "ledger_call (C_start_reward_stream _ _ _ _) = True"
| "ledger_call _ = False"

lemmas plain_exec =
  toggle_pause_exec pause_exec config_exec reset_circuit_breaker_def reset_exec
  record_failure_def record_failure_exec initialize_exec guarded_exec(1-3) add_guardian_exec
  remove_guardian_exec set_reputation_exec lock_tokens_exec resign_guardian_exec
  unlock_tokens_exec refund_locked_exec

lemma plain_call_inv:
  assumes inv: "contract_inv s" and c: "\<not> ledger_call c" and run: "run_call c C s = (Ok (), s')"
  shows "contract_inv s'"
  using run inv c
  by (cases c)
    (auto simp: plain_exec contract_inv_def lock_held_def config_inv_def initialized_view_def
      guardians_inv_overwrite guardians_inv_add
      dest!: guardian_view_present split: if_splits option.splits)

text \<open>Calls that write the ledger.\<close>

lemma fresh_task_of:
  assumes "well_typed \<sigma>"
  shows "fresh_id \<sigma> t \<longleftrightarrow> task_of \<sigma> t = None"
proof -
  have "task_of \<sigma> t = None \<longleftrightarrow> active_view \<sigma> t = None \<and> archived_view \<sigma> t = None"
    by (simp add: task_of_def split: option.split)
  with assms show ?thesis by (simp add: fresh_id_def task_view_None_iff)
qed

lemma register_inv:
  assumes inv: "contract_inv s" and run: "register_task a t C s = (Ok (), s')"
  shows "contract_inv s'"
proof -
  note wt = contract_inv_wt [OF inv]
  let ?\<sigma> = "(storage s)(ActiveTask t \<mapsto> VTask (new_task t), AllTasks \<mapsto> VIds (tasks_view (storage s) @ [t]))"
  from run wt have fresh: "fresh_id (storage s) t" and s': "s' = s\<lparr>storage := ?\<sigma>\<rparr>"
    by (auto simp: guarded_exec register_tasks_exec registrable_def split: if_splits)
  from inv fresh wt have "ledger_inv ?\<sigma> (events s)"
    by (intro ledger_inv_register) (auto simp: contract_inv_def fresh_task_of)
  with inv wt have "contract_inv (s\<lparr>storage := ?\<sigma>, events := events s\<rparr>)"
    by (intro contract_inv_ledger) auto
  then show ?thesis by (simp add: s')
qed

lemma cancel_inv:
  assumes inv: "contract_inv s" and run: "cancel_task a t C s = (Ok (), s')"
  shows "contract_inv s'"
proof -
  note wt = contract_inv_wt [OF inv]
  from run wt obtain x where x: "active_view (storage s) t = Some x"
    and s': "s' = s\<lparr>storage := (storage s)(ActiveTask (t_id x) \<mapsto> VTask (x\<lparr>t_is_cancelled := True\<rparr>)),
                     events := events s @ [TaskCancelledEvent t]\<rparr>"
    by (auto simp: guarded_exec cancel_task_exec split: if_splits option.splits)
  from inv x have id: "t_id x = t" by (auto simp: contract_inv_def ledger_inv_def tasks_inv_def)
  from inv x id have "ledger_inv ((storage s)(ActiveTask t \<mapsto> VTask (x\<lparr>t_is_cancelled := True\<rparr>))) (events s)"
    by (intro ledger_inv_retouch) (auto simp: contract_inv_def)
  with inv wt id show ?thesis unfolding s' by (intro contract_inv_ledger) auto
qed

lemma archive_inv:
  assumes inv: "contract_inv s" and run: "archive_task t C s = (Ok (), s')"
  shows "contract_inv s'"
proof -
  note wt = contract_inv_wt [OF inv]
  from run wt obtain x where x: "active_view (storage s) t = Some x" "t_is_done x" "t_resolved_at x \<noteq> 0"
    and s': "s' = s\<lparr>storage := (storage s)(ArchivedTask t \<mapsto> VTask x, ActiveTask t := None),
                     events := events s @ [TaskArchived t (t_resolved_at x)]\<rparr>"
    by (auto simp: archive_task_entry_exec split: if_splits option.splits)
  from inv x have "ledger_inv ((storage s)(ArchivedTask t \<mapsto> VTask x, ActiveTask t := None)) (events s)"
    by (intro ledger_inv_archive) (auto simp: contract_inv_def)
  with inv wt show ?thesis unfolding s' by (intro contract_inv_ledger) auto
qed

lemma start_reward_stream_OkD:
  assumes "well_typed (storage s)" and "start_reward_stream a d c t C s = (Ok (), s')"
  obtains x w where "active_view (storage s) t = Some x" "t_is_done x" "\<not> t_is_cancelled x"
    "storage s (RewardStream t) = None" "x_start_stream (externs C) d c t 1 (world s) = Some w"
    "s' = s\<lparr>storage := (storage s)(AllRewardStreams \<mapsto> VIds (streams_view (storage s) @ [t]),
                                   RewardStream t \<mapsto> VStream (new_stream d c t)),
             events := events s @ [RewardStreamStarted t c], world := w\<rparr>"
  using assms
  by (auto simp: start_reward_stream_exec start_drips_stream_exec split: if_splits option.splits)

lemma stream_inv:
  assumes inv: "contract_inv s" and run: "start_reward_stream a d c t C s = (Ok (), s')"
  shows "contract_inv s'"
proof -
  note wt = contract_inv_wt [OF inv]
  let ?\<sigma> = "(storage s)(AllRewardStreams \<mapsto> VIds (streams_view (storage s) @ [t]),
                         RewardStream t \<mapsto> VStream (new_stream d c t))"
  from wt run obtain x w where x: "active_view (storage s) t = Some x" "t_is_done x"
    "storage s (RewardStream t) = None"
    and s': "s' = s\<lparr>storage := ?\<sigma>, events := events s @ [RewardStreamStarted t c], world := w\<rparr>"
    by (rule start_reward_stream_OkD)
  from inv x have "ledger_inv ?\<sigma> (events s)"
    by (intro ledger_inv_stream) (auto simp: contract_inv_def)
  with inv wt have "contract_inv (s\<lparr>storage := ?\<sigma>, events := events s @ [RewardStreamStarted t c]\<rparr>)"
    by (intro contract_inv_ledger) auto
  then have "contract_inv (s\<lparr>storage := ?\<sigma>, events := events s @ [RewardStreamStarted t c]\<rparr>\<lparr>world := w\<rparr>)"
    by (simp only: contract_inv_world)
  then show ?thesis by (simp add: s')
qed

lemma vote_inv:
  assumes inv: "contract_inv s" and run: "vote g t C s = (Ok (), s')"
  shows "contract_inv s'"
proof -
  note wt = contract_inv_wt [OF inv]
  from run wt obtain w x y \<omega> where el: "eligible C s g t w x"
    and y: "tally (threshold_view (storage s)) (timestamp C) w x = Some y"
    and s': "s' = voted_env s g t w y \<omega>"
    by (auto simp: vote_Ok_iff)
  let ?\<sigma> = "(storage s)(AllVotes \<mapsto> VVotes (votes_view (storage s) @ [(t, g)]),
                         Voted t g \<mapsto> VBool True, ActiveTask t \<mapsto> VTask y)"
  let ?es = "events s @ (if reaches (storage s) y then [TaskResolved t (t_total_weight_accrued y)] else [])
      @ [WeightedVote t g w]"
  have "ledger_inv ?\<sigma> ?es"
    unfolding reaches_def by (rule ledger_inv_vote [OF _ _ _ _ y])
      (use inv el in \<open>auto simp: eligible_def contract_inv_def\<close>)
  with inv wt have "contract_inv (s\<lparr>storage := ?\<sigma>, events := ?es\<rparr>)"
    by (intro contract_inv_ledger) auto
  then have "contract_inv (s\<lparr>storage := ?\<sigma>, events := ?es\<rparr>\<lparr>world := \<omega>\<rparr>)"
    by (simp only: contract_inv_world)
  then show ?thesis by (simp add: s' voted_env_def)
qed

lemma ledger_call_inv:
  assumes "contract_inv s" and "ledger_call c" and "run_call c C s = (Ok (), s')"
  shows "contract_inv s'"
  using assms register_inv cancel_inv archive_inv stream_inv vote_inv by (cases c) auto

lemma run_call_inv: "contract_inv s \<Longrightarrow> run_call c C s = (Ok (), s') \<Longrightarrow> contract_inv s'"
  by (cases "ledger_call c") (blast intro: ledger_call_inv plain_call_inv)+

lemma call_env_cases:
  obtains s' where "run_call c C s = (Ok (), s')" "call_env C c s = s'"
  | "call_env C c s = s"
  unfolding call_env_def by (rule invoke_cases [of "run_call c" C s]) auto

lemma call_env_inv: "contract_inv s \<Longrightarrow> contract_inv (call_env C c s)"
  by (rule call_env_cases [of c C s]) (auto intro: run_call_inv)

interpretation vero: safe_system fresh_env "contract_step P R" contract_inv for P R
  by unfold_locales (auto simp: contract_inv_init call_env_inv elim: contract_stepE)

text \<open>The votes in the log are those of different guardians, exactly the flagged ones.\<close>

lemma ledger_voters:
  assumes "contract_inv s"
  shows "distinct (map fst (votes_of t (events s)))"
    and "set (map fst (votes_of t (events s))) = {g. storage s (Voted t g) \<noteq> None}"
proof -
  from assms have log: "map fst (votes_of t (events s)) = voters (storage s) t"
    and ix: "indexed voted_key AllVotes as_votes (storage s)"
    by (simp_all add: contract_inv_def ledger_inv_def log_inv_def votes_inv_def)
  from ix have dist: "distinct (votes_view (storage s))"
    and flags: "\<And>t g. (t, g) \<in> set (votes_view (storage s)) \<longleftrightarrow> storage s (Voted t g) \<noteq> None"
    by (auto simp: indexed_def votes_view_def voted_key_def split: prod.splits)
  show "distinct (map fst (votes_of t (events s)))"
    unfolding log using dist by (auto simp: voters_def distinct_map inj_on_def)
  show "set (map fst (votes_of t (events s))) = {g. storage s (Voted t g) \<noteq> None}"
    unfolding log using flags by (force simp: voters_def)
qed

text \<open>Every record is in the list that enumerates its kind.\<close>

lemma guardian_listed:
  "contract_inv s \<Longrightarrow> guardian_view (storage s) g \<Longrightarrow> g \<in> set (guardians_view (storage s))"
  by (auto simp: contract_inv_def guardians_inv_def covered_def guardians_view_def dest: guardian_view_present)

lemma active_listed:
  "contract_inv s \<Longrightarrow> active_view (storage s) t = Some x \<Longrightarrow> t \<in> set (tasks_view (storage s))"
  by (auto simp: contract_inv_def ledger_inv_def tasks_inv_def dest: active_task_of)

lemma vote_listed:
  "contract_inv s \<Longrightarrow> storage s (Voted t g) \<noteq> None \<Longrightarrow> (t, g) \<in> set (votes_view (storage s))"
  by (auto simp: contract_inv_def ledger_inv_def votes_inv_def indexed_def votes_view_def voted_key_pair)

lemma stream_listed:
  "contract_inv s \<Longrightarrow> stream_view (storage s) t = Some r \<Longrightarrow> t \<in> set (streams_view (storage s))"
  by (auto simp: contract_inv_def ledger_inv_def streams_inv_def indexed_def streams_view_def stream_view_def
      look_def split: option.splits)

end
