(* ===== verification/Vero_Evolution.thy ===== *)
theory Vero_Evolution
  imports Vero_System
begin

text \<open>
  How the contract's records change over time.  \<open>task_step\<close> lists the only five things a
  call can do to the two homes of a task; \<open>run_call_task_step\<close> shows that no call does
  anything else.  From it follow the life cycle of a task (\<open>phase_step\<close>, an abstract state
  machine the contract refines) and \<open>evolves\<close>, the order in which the records only grow.
\<close>

section \<open>What a call does to a task\<close>

type_synonym task_homes = "task option \<times> task option"

definition homes :: "storage \<Rightarrow> u64 \<Rightarrow> task_homes" where
  "homes \<sigma> t = (active_view \<sigma> t, archived_view \<sigma> t)"

inductive task_step :: "u64 \<Rightarrow> task_homes \<Rightarrow> task_homes \<Rightarrow> bool" for thr :: u64 where
  unchanged: "task_step thr h h"
| registered: "task_step thr (None, None) (Some (new_task t), None)"
| cancelled: "task_step thr (Some x, None) (Some (x\<lparr>t_is_cancelled := True\<rparr>), None)"
| counted: "\<not> t_is_cancelled x \<Longrightarrow> w \<noteq> 0 \<Longrightarrow> tally thr now w x = Some y \<Longrightarrow>
    task_step thr (Some x, None) (Some y, None)"
| archived: "t_is_done x \<Longrightarrow> t_resolved_at x \<noteq> 0 \<Longrightarrow> task_step thr (Some x, None) (None, Some x)"

inductive_cases task_stepE: "task_step thr h h'"

lemma homes_frame: "\<not> ledger_key k \<Longrightarrow> homes (\<sigma>(k := v)) t = homes \<sigma> t"
  by (simp add: homes_def ledger_frame)

lemma plain_call_homes:
  assumes "well_typed (storage s)" and "\<not> ledger_call c" and "run_call c C s = (Ok (), s')"
  shows "homes (storage s') t = homes (storage s) t"
  using assms by (cases c) (auto simp: plain_exec homes_frame split: if_splits option.splits)

lemma contract_inv_active:
  assumes "contract_inv s" and "active_view (storage s) t = Some x"
  shows "t_id x = t" and "archived_view (storage s) t = None"
  using assms by (auto simp: contract_inv_def ledger_inv_def tasks_inv_def)

lemma run_call_task_step:
  assumes inv: "contract_inv s" and run: "run_call c C s = (Ok (), s')"
  shows "task_step (threshold_view (storage s)) (homes (storage s) t) (homes (storage s') t)"
proof (cases "ledger_call c")
  case False
  with plain_call_homes [OF contract_inv_wt [OF inv] False run, of t] show ?thesis
    by (simp add: task_step.unchanged)
next
  case True
  note wt = contract_inv_wt [OF inv]
  show ?thesis
  proof (cases c)
    case (C_register_task a t')
    with run wt have "fresh_id (storage s) t'"
      and s': "storage s' = (put_tasks [t'] (storage s))(AllTasks \<mapsto> VIds (tasks_view (storage s) @ [t']))"
      by (auto simp: guarded_exec register_tasks_exec registrable_def split: if_splits)
    with wt have "homes (storage s) t' = (None, None)"
      by (simp add: homes_def fresh_id_def task_view_None_iff)
    with s' show ?thesis
      by (cases "t = t'") (auto simp: homes_def view_upd intro: task_step.intros)
  next
    case (C_cancel_task a t')
    with run wt obtain x where x: "active_view (storage s) t' = Some x"
      and s': "storage s' = (storage s)(ActiveTask (t_id x) \<mapsto> VTask (x\<lparr>t_is_cancelled := True\<rparr>))"
      by (auto simp: guarded_exec cancel_task_exec split: if_splits option.splits)
    with contract_inv_active [OF inv x] show ?thesis
      by (cases "t = t'") (auto simp: homes_def view_upd intro: task_step.intros)
  next
    case (C_vote g t')
    with run wt obtain w x y \<omega> where el: "eligible C s g t' w x"
      and y: "tally (threshold_view (storage s)) (timestamp C) w x = Some y"
      and s': "s' = voted_env s g t' w y \<omega>"
      by (auto simp: vote_Ok_iff)
    with contract_inv_active [OF inv, of t' x] show ?thesis
      by (cases "t = t'") (auto simp: homes_def view_upd voted_env_def eligible_def intro: task_step.intros)
  next
    case (C_archive_task t')
    with run wt obtain x where x: "active_view (storage s) t' = Some x" "t_is_done x" "t_resolved_at x \<noteq> 0"
      "archived_view (storage s) t' = None"
      and s': "storage s' = (storage s)(ArchivedTask t' \<mapsto> VTask x, ActiveTask t' := None)"
      by (auto simp: archive_task_entry_exec split: if_splits option.splits)
    then show ?thesis
      by (cases "t = t'") (auto simp: homes_def view_upd intro: task_step.intros)
  next
    case (C_start_reward_stream a d c' t')
    with run have "start_reward_stream a d c' t' C s = (Ok (), s')" by simp
    with wt have "homes (storage s') t = homes (storage s) t"
      by (elim start_reward_stream_OkD) (auto simp: homes_def view_upd)
    then show ?thesis by (simp add: task_step.unchanged)
  qed (use True in auto)
qed

lemma contract_step_task_step:
  assumes "contract_inv s" and "contract_step P R s s'"
  shows "task_step (threshold_view (storage s)) (homes (storage s) t) (homes (storage s') t)"
  using assms(2)
proof (cases rule: contract_step.cases)
  case (call_step C c)
  then show ?thesis
    by (cases rule: call_env_cases [of c C s])
      (auto intro: run_call_task_step [OF assms(1)] task_step.unchanged)
next
  case (world_step w)
  then show ?thesis by (auto intro: task_step.unchanged)
qed

section \<open>The life cycle of a task\<close>

datatype phase = Unregistered | Open | Resolved | CancelledOpen | CancelledResolved | Archived

fun phase_of :: "task_homes \<Rightarrow> phase" where
  "phase_of (Some x, _) =
     (if t_is_cancelled x then (if t_is_done x then CancelledResolved else CancelledOpen)
      else (if t_is_done x then Resolved else Open))"
| "phase_of (None, Some _) = Archived"
| "phase_of (None, None) = Unregistered"

inductive phase_step :: "phase \<Rightarrow> phase \<Rightarrow> bool" where
  stay: "phase_step p p"
| register: "phase_step Unregistered Open"
| resolve: "phase_step Open Resolved"
| cancel_open: "phase_step Open CancelledOpen"
| cancel_resolved: "phase_step Resolved CancelledResolved"
| archive: "phase_step Resolved Archived"
| archive_cancelled: "phase_step CancelledResolved Archived"

inductive_cases phase_stepE [elim!]: "phase_step CancelledOpen p"
inductive_cases phase_step_archivedE [elim!]: "phase_step Archived p"

lemma task_step_phase: "task_step thr h h' \<Longrightarrow> phase_step (phase_of h) (phase_of h')"
proof (induction rule: task_step.induct)
  case (counted x w now y)
  then show ?case
    using tally_SomeD(4,5) [OF counted(3)] by (auto intro: phase_step.intros)
qed (auto simp: new_task_def intro: phase_step.intros)

section \<open>The records only grow\<close>

definition task_grows :: "task option \<Rightarrow> task option \<Rightarrow> bool" where
  "task_grows a b \<longleftrightarrow>
     (\<forall>x. a = Some x \<longrightarrow> (\<exists>y. b = Some y \<and> t_id y = t_id x \<and>
        (t_is_done x \<longrightarrow> t_is_done y) \<and> (t_is_cancelled x \<longrightarrow> t_is_cancelled y) \<and>
        t_votes x \<le> t_votes y \<and> t_total_weight_accrued x \<le> t_total_weight_accrued y))"

lemma task_grows_refl: "task_grows a a"
  by (simp add: task_grows_def)

lemma task_grows_trans: "task_grows a b \<Longrightarrow> task_grows b c \<Longrightarrow> task_grows a c"
  by (cases a; cases b; cases c) (auto simp: task_grows_def intro: order_trans)

definition task_in :: "task_homes \<Rightarrow> task option" where
  "task_in h = (case fst h of Some x \<Rightarrow> Some x | None \<Rightarrow> snd h)"

lemma task_of_homes: "task_of \<sigma> t = task_in (homes \<sigma> t)"
  by (simp add: task_of_def task_in_def homes_def split: option.split)

lemma task_step_grows:
  assumes "task_step thr h h'"
  shows "task_grows (task_in h) (task_in h')" and "snd h = Some x \<Longrightarrow> fst h = None \<Longrightarrow> h' = h"
proof -
  show "task_grows (task_in h) (task_in h')" using assms
  proof (cases rule: task_step.cases)
    case (counted x w now y)
    note yx = tally_SomeD [OF counted(5)]
    have "t_votes x \<le> t_votes y" "t_total_weight_accrued x \<le> t_total_weight_accrued y"
      using yx(1,2) by (simp_all add: word_le_nat_alt)
    with yx(3-5) counted show ?thesis by (simp add: task_grows_def task_in_def)
  qed (auto simp: task_grows_def task_in_def)
  show "snd h = Some x \<Longrightarrow> fst h = None \<Longrightarrow> h' = h"
    using assms by (auto elim!: task_step.cases)
qed

lemma task_step_resolves:
  assumes "task_step thr h h'" and "task_in h = Some x" "\<not> t_is_done x"
    and "task_in h' = Some y" "t_is_done y"
  shows "fst h = Some x \<and> (\<exists>w now. w \<noteq> 0 \<and> tally thr now w x = Some y)"
  using assms by (cases rule: task_step.cases) (auto simp: task_in_def new_task_def)

text \<open>\<open>evolves s s'\<close>: nothing that \<open>s\<close> has recorded is lost or changed in \<open>s'\<close>, except that
  tasks that are still active move on.\<close>

definition evolves :: "'w env \<Rightarrow> 'w env \<Rightarrow> bool" where
  "evolves s s' \<longleftrightarrow>
     (\<forall>t. task_grows (task_of (storage s) t) (task_of (storage s') t)) \<and>
     (\<forall>t x. archived_view (storage s) t = Some x \<longrightarrow> archived_view (storage s') t = Some x) \<and>
     (\<forall>t g. storage s (Voted t g) \<noteq> None \<longrightarrow> storage s' (Voted t g) \<noteq> None) \<and>
     (\<forall>t r. stream_view (storage s) t = Some r \<longrightarrow> stream_view (storage s') t = Some r) \<and>
     (storage s TokenAddress \<noteq> None \<longrightarrow>
        storage s' TokenAddress = storage s TokenAddress \<and> storage s' LockThreshold = storage s LockThreshold) \<and>
     (\<exists>es. events s' = events s @ es)"

lemma evolves_refl: "evolves s s"
  by (simp add: evolves_def task_grows_refl)

lemma evolves_trans: "evolves s u \<Longrightarrow> evolves u v \<Longrightarrow> evolves s v"
  unfolding evolves_def by (auto intro: task_grows_trans)


text \<open>The part of \<open>evolves\<close> that is not about tasks, as a relation on its own.  A committed call
  publishes only \<open>surfaced\<close> events: the failure event of a reward stream goes down with the
  invocation that failed, and nothing publishes the pause event.\<close>

fun surfaced :: "event \<Rightarrow> bool" where
  "surfaced (RewardStreamFailed _ _) = False"
| "surfaced (PauseToggled _) = False"
| "surfaced _ = True"

definition keeps_records :: "'w env \<Rightarrow> 'w env \<Rightarrow> bool" where
  "keeps_records s s' \<longleftrightarrow>
     (\<forall>t g. storage s (Voted t g) \<noteq> None \<longrightarrow> storage s' (Voted t g) \<noteq> None) \<and>
     (\<forall>t r. stream_view (storage s) t = Some r \<longrightarrow> stream_view (storage s') t = Some r) \<and>
     (storage s TokenAddress \<noteq> None \<longrightarrow>
        storage s' TokenAddress = storage s TokenAddress \<and> storage s' LockThreshold = storage s LockThreshold) \<and>
     (\<exists>es. events s' = events s @ es \<and> list_all surfaced es)"

lemma stream_view_upd_other: "\<forall>t. k \<noteq> RewardStream t \<Longrightarrow> stream_view (\<sigma>(k := v)) t = stream_view \<sigma> t"
  by (simp add: view_upd)

lemma keeps_records_refl: "keeps_records s s"
  by (simp add: keeps_records_def)

lemma plain_call_keeps:
  assumes "contract_inv s" and "\<not> ledger_call c" and "run_call c C s = (Ok (), s')"
  shows "keeps_records s s'"
  using assms
  by (cases c)
    (auto simp: plain_exec keeps_records_def stream_view_upd_other contract_inv_def config_inv_def
      split: if_splits option.splits)

lemma ledger_call_keeps:
  assumes inv: "contract_inv s" and c: "ledger_call c" and run: "run_call c C s = (Ok (), s')"
  shows "keeps_records s s'"
proof -
  note wt = contract_inv_wt [OF inv]
  show ?thesis
  proof (cases c)
    case (C_register_task a t')
    with run wt show ?thesis
      by (auto simp: guarded_exec register_tasks_exec keeps_records_def stream_view_upd_other split: if_splits)
  next
    case (C_cancel_task a t')
    with run wt show ?thesis
      by (auto simp: guarded_exec cancel_task_exec keeps_records_def stream_view_upd_other
          split: if_splits option.splits)
  next
    case (C_vote g t')
    with run wt show ?thesis
      by (auto simp: vote_Ok_iff voted_env_def keeps_records_def stream_view_upd_other)
  next
    case (C_archive_task t')
    with run wt show ?thesis
      by (auto simp: archive_task_entry_exec keeps_records_def stream_view_upd_other
          split: if_splits option.splits)
  next
    case (C_start_reward_stream a d c' t')
    with run have "start_reward_stream a d c' t' C s = (Ok (), s')" by simp
    with wt show ?thesis
      by (elim start_reward_stream_OkD) (auto simp: keeps_records_def view_upd views look_def)
  qed (use c in auto)
qed

lemma contract_step_keeps:
  assumes inv: "contract_inv s" and step: "contract_step P R s s'"
  shows "keeps_records s s'"
  using step
proof (cases rule: contract_step.cases)
  case (call_step C c)
  then show ?thesis
    by (cases rule: call_env_cases [of c C s]; cases "ledger_call c")
      (auto intro: plain_call_keeps [OF inv] ledger_call_keeps [OF inv] keeps_records_refl)
next
  case (world_step w)
  then show ?thesis by (simp add: keeps_records_def)
qed

lemma contract_step_evolves:
  assumes inv: "contract_inv s" and step: "contract_step P R s s'"
  shows "evolves s s'"
proof -
  note keeps = contract_step_keeps [OF inv step]
  have homes: "task_step (threshold_view (storage s)) (homes (storage s) t) (homes (storage s') t)" for t
    by (rule contract_step_task_step [OF inv step])
  have "task_grows (task_of (storage s) t) (task_of (storage s') t)" for t
    unfolding task_of_homes by (rule task_step_grows(1) [OF homes])
  moreover have "archived_view (storage s') t = Some x" if "archived_view (storage s) t = Some x" for t x
  proof -
    from that contract_inv_active(2) [OF inv, of t] have "active_view (storage s) t = None"
      by (metis not_None_eq option.distinct(1))
    with that task_step_grows(2) [OF homes, of t x] show ?thesis by (simp add: homes_def)
  qed
  ultimately show ?thesis using keeps by (auto simp: evolves_def keeps_records_def)
qed

lemma steps_evolve:
  assumes "contract_inv s" and "(contract_step P R)\<^sup>*\<^sup>* s s'"
  shows "evolves s s'"
  using assms(2,1) evolves_refl evolves_trans contract_step_evolves
  by (rule vero.steps_preorder)

lemma reachable_surfaced: "reachable P R s \<Longrightarrow> list_all surfaced (events s)"
proof (induction rule: reach.induct)
  case (reach_init s)
  then show ?case by (simp add: fresh_env_def)
next
  case (reach_step s s')
  from contract_step_keeps [OF vero.inv_reach [OF reach_step(1)] reach_step(2)] reach_step.IH
  show ?case by (auto simp: keeps_records_def)
qed

end
