(* ===== verification/Vero_Access.thy ===== *)
theory Vero_Access
  imports Vero_Evolution
begin

text \<open>
  Who may do what, and when.  \<open>signer\<close> is the address whose signature a call demands,
  \<open>pause_guarded\<close> the calls that look at the pause flag, \<open>with_admin\<close> the call with another
  address in place of the argument called \<open>admin\<close> in the source, \<open>may_trap\<close> the reasons for
  which a call may trap.  The lock lemmas are proved with the rules of the
  \<open>mutex\<close> locale, by walking through the bodies.
\<close>

fun signer :: "call \<Rightarrow> address option" where
  "signer (C_initialize _ _) = None"
| "signer (C_toggle_pause a) = Some a"
| "signer (C_pause a) = Some a"
| "signer (C_unpause a) = Some a"
| "signer (C_add_guardian a _) = Some a"
| "signer (C_remove_guardian a _) = Some a"
| "signer (C_lock_tokens g _) = Some g"
| "signer (C_resign_guardian g) = Some g"
| "signer (C_unlock_tokens g) = Some g"
| "signer (C_set_reputation a _ _) = Some a"
| "signer (C_set_weight_threshold a _) = Some a"
| "signer (C_set_vault_address a _) = Some a"
| "signer (C_register_task a _) = Some a"
| "signer (C_cancel_task a _) = Some a"
| "signer (C_vote g _) = Some g"
| "signer (C_archive_task _) = None"
| "signer (C_start_reward_stream a _ _ _) = Some a"
| "signer C_record_failure = None"
| "signer (C_reset_circuit_breaker a) = Some a"
| "signer (C_upgrade_contract a _) = Some a"

fun pause_guarded :: "call \<Rightarrow> bool" where
  "pause_guarded (C_add_guardian _ _) = True"
| "pause_guarded (C_remove_guardian _ _) = True"
| "pause_guarded (C_set_reputation _ _ _) = True"
| "pause_guarded (C_register_task _ _) = True"
| "pause_guarded (C_cancel_task _ _) = True"
| "pause_guarded (C_vote _ _) = True"
| "pause_guarded (C_archive_task _) = True"
| "pause_guarded (C_start_reward_stream _ _ _ _) = True"
| "pause_guarded _ = False"

text \<open>The same call with another address in the place of the administrator.\<close>

fun with_admin :: "address \<Rightarrow> call \<Rightarrow> call" where
  "with_admin b (C_toggle_pause a) = C_toggle_pause b"
| "with_admin b (C_pause a) = C_pause b"
| "with_admin b (C_unpause a) = C_unpause b"
| "with_admin b (C_add_guardian a g) = C_add_guardian b g"
| "with_admin b (C_remove_guardian a g) = C_remove_guardian b g"
| "with_admin b (C_set_reputation a g n) = C_set_reputation b g n"
| "with_admin b (C_set_weight_threshold a n) = C_set_weight_threshold b n"
| "with_admin b (C_set_vault_address a v) = C_set_vault_address b v"
| "with_admin b (C_register_task a t) = C_register_task b t"
| "with_admin b (C_cancel_task a t) = C_cancel_task b t"
| "with_admin b (C_start_reward_stream a d c t) = C_start_reward_stream b d c t"
| "with_admin b (C_reset_circuit_breaker a) = C_reset_circuit_breaker b"
| "with_admin b (C_upgrade_contract a h) = C_upgrade_contract b h"
| "with_admin b c = c"

lemmas ledger_exec =
  guarded_exec register_tasks_exec cancel_task_exec archive_task_entry_exec
  start_reward_stream_exec start_drips_stream_exec vote_exec

lemmas call_exec = plain_exec ledger_exec

text \<open>Why a call may trap: a missing signature, a counter or a balance at the end of its range, a
  call of another contract that fails, the removal of somebody who is no guardian, or code that
  is not installed.\<close>

fun may_overflow :: "call \<Rightarrow> bool" where
  "may_overflow (C_vote _ _) = True"
| "may_overflow (C_lock_tokens _ _) = True"
| "may_overflow C_record_failure = True"
| "may_overflow _ = False"

fun calls_out :: "call \<Rightarrow> bool" where
  "calls_out (C_lock_tokens _ _) = True"
| "calls_out (C_resign_guardian _) = True"
| "calls_out (C_unlock_tokens _) = True"
| "calls_out (C_start_reward_stream _ _ _ _) = True"
| "calls_out _ = False"

fun may_trap :: "'w ctx \<Rightarrow> 'w env \<Rightarrow> call \<Rightarrow> trap_reason \<Rightarrow> bool" where
  "may_trap C s c AuthFailed \<longleftrightarrow> (case signer c of None \<Rightarrow> False | Some a \<Rightarrow> \<not> authorized C a)"
| "may_trap C s c ArithmeticOverflow \<longleftrightarrow> may_overflow c"
| "may_trap C s c ContractCallFailed \<longleftrightarrow> calls_out c"
| "may_trap C s c Panicked \<longleftrightarrow>
     (case c of C_remove_guardian _ g \<Rightarrow> storage s (Guardian g) = None | _ \<Rightarrow> False)"
| "may_trap C s c WasmMissing \<longleftrightarrow>
     (case c of C_upgrade_contract _ h \<Rightarrow> \<not> x_wasm_installed (externs C) h | _ \<Rightarrow> False)"
| "may_trap C s c _ \<longleftrightarrow> False"

text \<open>The calls that extend the time to live of the instance.\<close>

fun refreshes :: "call \<Rightarrow> bool" where
  "refreshes (C_initialize _ _) = True"
| "refreshes (C_add_guardian _ _) = True"
| "refreshes _ = False"

section \<open>Outcomes of calls\<close>

lemma unsigned_call_fails:
  assumes "well_typed (storage s)" and "signer c = Some a" and "\<not> authorized C a"
  shows "fst (run_call c C s) \<noteq> Ok ()"
  using assms by (cases c) (simp_all add: call_exec)

lemma paused_call_blocked:
  assumes "well_typed (storage s)" and "pause_guarded c" and "paused_view (storage s)"
  shows "run_call c C s = (Err ContractPaused, s)"
  using assms by (cases c) (simp_all add: ledger_exec)

lemma pause_irrelevant_call:
  assumes "well_typed (storage s)" and "\<not> pause_guarded c"
  shows "fst (run_call c C (s\<lparr>storage := (storage s)(Paused \<mapsto> VBool b)\<rparr>)) = fst (run_call c C s)"
  using assms by (cases c) (simp_all add: plain_exec views split: option.split)

lemma with_admin_same:
  assumes "well_typed (storage s)" and "signer c = Some a" and "authorized C a" and "authorized C b"
  shows "run_call (with_admin b c) C s = run_call c C s"
  using assms by (cases c) (simp_all add: call_exec)

lemma run_call_traps:
  assumes "well_typed (storage s)" and "fst (run_call c C s) = Trap r"
  shows "may_trap C s c r"
  using assms by (cases c) (auto simp: call_exec split: option.splits if_splits)

lemma run_call_not_locked:
  assumes "well_typed (storage s)" and "\<not> lock_held s"
  shows "fst (run_call c C s) \<noteq> Err Locked"
  using assms by (cases c) (simp_all add: call_exec split: option.split)

lemma run_call_ttl:
  assumes wt: "well_typed (storage s)" and run: "run_call c C s = (Ok (), s')"
  shows "live_until s' = (if refreshes c then extend_live C 100000 100000 (live_until s) else live_until s)"
proof (cases "ledger_call c")
  case False
  with assms show ?thesis by (cases c) (auto simp: plain_exec split: if_splits option.splits)
next
  case True
  with assms show ?thesis
    by (cases c)
      (auto simp: guarded_exec register_tasks_exec cancel_task_exec archive_task_entry_exec vote_Ok_iff
        voted_env_def start_reward_stream_exec start_drips_stream_exec split: if_splits option.splits)
qed

lemma call_env_ttl:
  assumes "well_typed (storage s)"
  shows "live_until (call_env C c s) =
    (if fst (invoke (run_call c) C s) = Ok () \<and> refreshes c
     then extend_live C 100000 100000 (live_until s) else live_until s)"
  unfolding call_env_def
  by (rule invoke_cases [of "run_call c" C s]) (use run_call_ttl [OF assms] in auto)

text \<open>As long as the host never shortens the time to live, it only grows along a run.\<close>

lemma steps_ttl:
  assumes law: "\<And>C l. P C \<Longrightarrow> l \<le> extend_live C 100000 100000 l"
    and "contract_inv s" and "(contract_step P R)\<^sup>*\<^sup>* s s'"
  shows "live_until s \<le> live_until s'"
proof (rule vero.steps_preorder [OF assms(3,2)])
  show "live_until u \<le> live_until v" if "contract_inv u" "contract_step P R u v" for u v
    using that(2) law by (cases rule: contract_step.cases) (auto simp: call_env_ttl contract_inv_wt [OF that(1)])
qed auto

section \<open>The lock\<close>

lemma frees_on_err_register_loop: "frees_on_err lock_held (register_loop ts)"
proof (induction ts)
  case Nil
  then show ?case by (simp add: frees_on_err_no_err no_err_prims)
next
  case (Cons t ts)
  have "frees_on_err lock_held (has_active_task t)" "frees_on_err lock_held (storage_get_archived_task t)"
    "frees_on_err lock_held (set_active_task x)" for x
    by (simp_all add: has_active_task_def storage_get_archived_task_def set_active_task_def
        frees_on_err_no_err no_err_prims)
  with Cons show ?case
    by (auto intro!: frees_on_err_bind contract_lock.frees_on_err_give_up
        simp: frees_on_err_no_err no_err_prims)
qed

lemma vote_locked_leaves_free: "leaves_free lock_held (vote_locked g t)"
  unfolding vote_locked_def vote_tally_def vote_commit_def try_release_funds_def Let_def
    emit_weighted_vote_def emit_task_resolved_def
  by (intro contract_lock.leaves_free_rules frees_on_err_no_err no_err_prims no_err_guardian)

lemma register_section_leaves_free:
  "leaves_free lock_held
     (bindM (instance_get_or as_ids [] AllTasks) (\<lambda>all_tasks.
      thenM (register_loop ts) (
      thenM (instance_set AllTasks (VIds (all_tasks @ ts))) (
      thenM reentrancy_unlock (ret ())))))"
  by (intro contract_lock.leaves_free_rules frees_on_err_register_loop frees_on_err_no_err no_err_prims)

lemma cancel_section_leaves_free:
  "leaves_free lock_held
     (bindM (get_active_task t) (\<lambda>found.
      case found of
        None \<Rightarrow> thenM reentrancy_unlock (fail NotAuthorized)
      | Some task \<Rightarrow>
          thenM (set_active_task (task\<lparr>t_is_cancelled := True\<rparr>)) (
          thenM (emit_task_cancelled t) (
          thenM reentrancy_unlock (ret ())))))"
  unfolding get_active_task_def set_active_task_def emit_task_cancelled_def
  by (intro contract_lock.leaves_free_rules frees_on_err_no_err no_err_prims)

text \<open>Each locking function, once past its checks, is a critical section of the lock.\<close>

lemma vote_section:
  assumes "well_typed (storage s)"
  obtains body where "leaves_free lock_held body" "vote g t C s =
    (if paused_view (storage s) then (Err ContractPaused, s)
     else if authorized C g then thenM reentrancy_lock body C s else (Trap AuthFailed, s))"
  by (rule that [OF vote_locked_leaves_free [of g t]])
    (use assms in \<open>simp add: vote_def bindM_prim require_not_paused_exec\<close>)

lemma register_section:
  obtains body where "leaves_free lock_held body" "register_tasks a ts C s =
    (if vec_len ts > 32 then (Err BatchTooLarge, s)
     else if authorized C a then thenM reentrancy_lock body C s else (Trap AuthFailed, s))"
  by (rule that [OF register_section_leaves_free [of ts]])
    (simp add: register_tasks_def bindM_prim fail_apply MAX_REGISTER_TASK_BATCH_SIZE_def)

lemma cancel_section:
  obtains body where "leaves_free lock_held body" "task_cancel_task a t C s =
    (if authorized C a then thenM reentrancy_lock body C s else (Trap AuthFailed, s))"
  by (rule that [OF cancel_section_leaves_free [of t]])
    (simp add: task_cancel_task_def bindM_prim)

lemma section_discipline:
  assumes "leaves_free lock_held body"
    and "m = (if early \<noteq> None then (Err (the early), s) else if b then thenM reentrancy_lock body C s else (Trap r, s))"
    and "\<forall>r. fst m \<noteq> Trap r"
  shows "if lock_held s then (\<exists>e. m = (Err e, s)) else \<not> lock_held (snd m)"
  using assms contract_lock.critical_section_blocked [of s body C]
    contract_lock.critical_section_frees [OF assms(1), of s C]
  by (auto split: if_splits)

lemma vote_discipline:
  assumes "well_typed (storage s)" and "\<forall>r. fst (vote g t C s) \<noteq> Trap r"
  shows "if lock_held s then (\<exists>e. vote g t C s = (Err e, s)) else \<not> lock_held (snd (vote g t C s))"
proof -
  from assms(1) obtain body where "leaves_free lock_held body" and eq: "vote g t C s =
    (if paused_view (storage s) then (Err ContractPaused, s)
     else if authorized C g then thenM reentrancy_lock body C s else (Trap AuthFailed, s))"
    by (rule vote_section)
  then show ?thesis
    by (intro section_discipline [where early = "if paused_view (storage s) then Some ContractPaused else None"])
      (use assms eq in auto)
qed

lemma register_discipline:
  assumes "\<forall>r. fst (register_tasks a ts C s) \<noteq> Trap r"
  shows "if lock_held s then (\<exists>e. register_tasks a ts C s = (Err e, s))
    else \<not> lock_held (snd (register_tasks a ts C s))"
proof -
  obtain body where "leaves_free lock_held body" and eq: "register_tasks a ts C s =
    (if vec_len ts > 32 then (Err BatchTooLarge, s)
     else if authorized C a then thenM reentrancy_lock body C s else (Trap AuthFailed, s))"
    by (rule register_section)
  then show ?thesis
    by (intro section_discipline [where early = "if vec_len ts > 32 then Some BatchTooLarge else None"])
      (use assms eq in auto)
qed

lemma cancel_discipline:
  assumes "\<forall>r. fst (task_cancel_task a t C s) \<noteq> Trap r"
  shows "if lock_held s then (\<exists>e. task_cancel_task a t C s = (Err e, s))
    else \<not> lock_held (snd (task_cancel_task a t C s))"
proof -
  obtain body where "leaves_free lock_held body" and eq: "task_cancel_task a t C s =
    (if authorized C a then thenM reentrancy_lock body C s else (Trap AuthFailed, s))"
    by (rule cancel_section)
  then show ?thesis
    by (intro section_discipline [where early = None]) (use assms eq in auto)
qed

end
