(* ===== verification/Vero_Tokens.thy ===== *)
theory Vero_Tokens
  imports Vero_Access
begin

text \<open>
  The locked tokens.  The token contract is not part of the repository; \<open>token_laws\<close> states
  what its documented interface promises (a successful transfer moves a non-negative amount
  and nothing else, balances are non-negative), \<open>keeps_funds\<close> that no other contract can
  spend the tokens of this one, and \<open>token_live\<close> that a transfer covered by the sender's
  balance succeeds.  Under the first two, the contract always holds at least the tokens it
  owes (\<open>funds_inv\<close>).
\<close>

type_synonym 'w balances = "'w \<Rightarrow> address \<Rightarrow> address \<Rightarrow> int"

definition token_laws :: "'w externs \<Rightarrow> 'w balances \<Rightarrow> bool" where
  "token_laws X balance \<longleftrightarrow>
     (\<forall>w token a. 0 \<le> balance w token a) \<and>
     (\<forall>token from to n w w'. x_token_transfer X token from to n w = Some w' \<longrightarrow>
        0 \<le> sint n \<and>
        (\<forall>token' a. balance w' token' a =
           balance w token' a
           - (if token' = token \<and> a = from then sint n else 0)
           + (if token' = token \<and> a = to then sint n else 0)))"

definition keeps_funds :: "'w externs \<Rightarrow> 'w balances \<Rightarrow> address \<Rightarrow> bool" where
  "keeps_funds X balance me \<longleftrightarrow>
     (\<forall>v t w w' token. x_release_funds X v t w = Some w' \<longrightarrow> balance w token me \<le> balance w' token me) \<and>
     (\<forall>d c t n w w' token. x_start_stream X d c t n w = Some w' \<longrightarrow> balance w token me \<le> balance w' token me)"

definition token_live :: "'w externs \<Rightarrow> 'w balances \<Rightarrow> bool" where
  "token_live X balance \<longleftrightarrow>
     (\<forall>token from to n w. 0 \<le> sint n \<longrightarrow> sint n \<le> balance w token from \<longrightarrow>
        x_token_transfer X token from to n w \<noteq> None)"

text \<open>The calls of one deployment: fixed other contracts, fixed own address, and the contract
  itself never signs.\<close>

definition deployed :: "'w externs \<Rightarrow> address \<Rightarrow> 'w ctx \<Rightarrow> bool" where
  "deployed X me C \<longleftrightarrow> externs C = X \<and> self C = me \<and> \<not> authorized C me"

definition funds_kept :: "'w balances \<Rightarrow> address \<Rightarrow> 'w \<Rightarrow> 'w \<Rightarrow> bool" where
  "funds_kept balance me w w' \<longleftrightarrow> (\<forall>token. balance w token me \<le> balance w' token me)"

definition holders :: "storage \<Rightarrow> address set" where
  "holders \<sigma> = {g. \<sigma> (LockedBalance g) \<noteq> None}"

definition total_locked :: "storage \<Rightarrow> int" where
  "total_locked \<sigma> = (\<Sum>g\<in>holders \<sigma>. sint (locked_view \<sigma> g))"

definition funds_inv :: "'w balances \<Rightarrow> address \<Rightarrow> 'w env \<Rightarrow> bool" where
  "funds_inv balance me s \<longleftrightarrow>
     finite (holders (storage s)) \<and> (\<forall>g. 0 \<le> sint (locked_view (storage s) g)) \<and>
     (case token_view (storage s) of
        None \<Rightarrow> holders (storage s) = {}
      | Some token \<Rightarrow> total_locked (storage s) \<le> balance (world s) token me)"

section \<open>Sums of locked balances\<close>

lemma locked_view_upd:
  "locked_view (\<sigma>(LockedBalance g \<mapsto> VI128 b)) h = (if h = g then b else locked_view \<sigma> h)"
  "\<forall>g. k \<noteq> LockedBalance g \<Longrightarrow> locked_view (\<sigma>(k := v)) h = locked_view \<sigma> h"
  by (auto simp: views)

lemma locked_view_outside: "g \<notin> holders \<sigma> \<Longrightarrow> locked_view \<sigma> g = 0"
  by (auto simp: holders_def views look_or_def look_def)

lemma holders_upd:
  "holders (\<sigma>(LockedBalance g \<mapsto> v)) = insert g (holders \<sigma>)"
  "\<forall>g. k \<noteq> LockedBalance g \<Longrightarrow> holders (\<sigma>(k := v')) = holders \<sigma>"
  by (auto simp: holders_def)

lemma total_locked_upd:
  assumes "finite (holders \<sigma>)"
  shows "total_locked (\<sigma>(LockedBalance g \<mapsto> VI128 b)) = total_locked \<sigma> - sint (locked_view \<sigma> g) + sint b"
proof -
  let ?\<sigma> = "\<sigma>(LockedBalance g \<mapsto> VI128 b)"
  have upd: "total_locked ?\<sigma> = sint b + (\<Sum>h\<in>holders \<sigma> - {g}. sint (locked_view \<sigma> h))"
    using assms by (simp add: total_locked_def holders_upd sum.insert_remove locked_view_upd)
  have rest: "(\<Sum>h\<in>holders \<sigma> - {g}. sint (locked_view \<sigma> h)) = total_locked \<sigma> - sint (locked_view \<sigma> g)"
    using assms locked_view_outside [of g \<sigma>] by (auto simp: total_locked_def sum_diff1)
  show ?thesis unfolding upd rest by simp
qed

lemma total_locked_frame: "\<forall>g. k \<noteq> LockedBalance g \<Longrightarrow> total_locked (\<sigma>(k := v)) = total_locked \<sigma>"
  by (simp add: total_locked_def holders_upd locked_view_upd)

lemma token_view_upd:
  "k \<noteq> TokenAddress \<Longrightarrow> token_view (\<sigma>(k := v)) = token_view \<sigma>"
  "token_view (\<sigma>(TokenAddress \<mapsto> VAddress a)) = Some a"
  by (simp_all add: views)

lemmas funds_upd = locked_view_upd holders_upd total_locked_frame token_view_upd

section \<open>The contract can always pay what it owes\<close>

text \<open>Whatever leaves the locked balances and the token alone, and does not take tokens away.\<close>

lemma funds_inv_frame:
  assumes inv: "funds_inv balance me s"
    and same: "\<And>g. storage s' (LockedBalance g) = storage s (LockedBalance g)"
      "storage s' TokenAddress = storage s TokenAddress"
    and kept: "funds_kept balance me (world s) (world s')"
  shows "funds_inv balance me s'"
proof -
  from same have "locked_view (storage s') = locked_view (storage s)" "holders (storage s') = holders (storage s)"
    "token_view (storage s') = token_view (storage s)"
    by (auto simp: fun_eq_iff views look_or_def look_def holders_def)
  then show ?thesis
    using inv kept by (auto simp: funds_inv_def total_locked_def funds_kept_def split: option.splits intro: order_trans)
qed

lemma funds_kept_refl: "funds_kept balance me w w"
  by (simp add: funds_kept_def)

lemma lock_tokens_funds:
  assumes laws: "token_laws X balance" and C: "deployed X me C"
    and inv: "funds_inv balance me s" and wt: "well_typed (storage s)"
    and run: "lock_tokens g n C s = (Ok (), s')"
  shows "funds_inv balance me s'"
proof -
  from run wt obtain token w b where auth: "authorized C g" and token: "token_view (storage s) = Some token"
    and w: "x_token_transfer (externs C) token g (self C) n (world s) = Some w"
    and b: "checked_add_signed (locked_view (storage s) g) n = Some b"
    and s': "s' = s\<lparr>storage := (storage s)(LockedBalance g \<mapsto> VI128 b), world := w\<rparr>"
    by (auto simp: lock_tokens_exec split: if_splits option.splits)
  from auth C have "g \<noteq> me" by (auto simp: deployed_def)
  with w laws C have "0 \<le> sint n" "balance w token me = balance (world s) token me + sint n"
    unfolding token_laws_def deployed_def by fastforce+
  with checked_add_signed_SomeD [OF b] inv token show ?thesis
    by (auto simp: s' funds_inv_def funds_upd total_locked_upd)
qed

lemma refund_funds:
  assumes laws: "token_laws X balance" and C: "deployed X me C" and auth: "authorized C g"
    and inv: "funds_inv balance me s" and wt: "well_typed (storage s)"
    and token: "storage s TokenAddress \<noteq> None"
    and run: "refund_locked g C s = (Ok (), s')"
  shows "funds_inv balance me s'"
proof (cases "sint (locked_view (storage s) g) \<le> 0")
  case True
  with run wt token inv show ?thesis by (simp add: refund_locked_exec)
next
  case False
  let ?n = "locked_view (storage s) g"
  from token wt obtain tok where tok: "token_view (storage s) = Some tok"
    by (metis token_view_None_iff not_None_eq)
  with False run wt token obtain w where
    w: "x_token_transfer (externs C) tok (self C) g ?n (world s) = Some w"
    and s': "s' = s\<lparr>storage := (storage s)(LockedBalance g \<mapsto> VI128 0), world := w\<rparr>"
    by (auto simp: refund_locked_exec split: option.splits)
  from auth C have "g \<noteq> me" by (auto simp: deployed_def)
  with w laws C have "balance w tok me = balance (world s) tok me - sint ?n"
    unfolding token_laws_def deployed_def by fastforce
  with inv tok show ?thesis
    by (auto simp: s' funds_inv_def funds_upd total_locked_upd)
qed

fun funds_call :: "call \<Rightarrow> bool" where
  "funds_call (C_lock_tokens _ _) = True"
| "funds_call (C_resign_guardian _) = True"
| "funds_call (C_unlock_tokens _) = True"
| "funds_call (C_initialize _ _) = True"
| "funds_call _ = False"

lemma other_call_funds:
  assumes keeps: "keeps_funds X balance me" and C: "externs C = X" and inv: "contract_inv s"
    and c: "\<not> funds_call c" and run: "run_call c C s = (Ok (), s')"
  shows "(\<forall>g. storage s' (LockedBalance g) = storage s (LockedBalance g)) \<and>
    storage s' TokenAddress = storage s TokenAddress \<and> funds_kept balance me (world s) (world s')"
proof (cases "ledger_call c")
  case False
  with contract_inv_wt [OF inv] c run show ?thesis
    by (cases c) (auto simp: plain_exec funds_kept_refl split: if_splits option.splits)
next
  case True
  note wt = contract_inv_wt [OF inv]
  show ?thesis
  proof (cases c)
    case (C_vote g t)
    with run wt show ?thesis using keeps C
      by (auto simp: vote_Ok_iff voted_env_def payout_def keeps_funds_def funds_kept_def
          split: if_splits option.splits)
  next
    case (C_start_reward_stream a d c' t)
    with run have "start_reward_stream a d c' t C s = (Ok (), s')" by simp
    with wt show ?thesis using keeps C
      by (elim start_reward_stream_OkD) (auto simp: keeps_funds_def funds_kept_def)
  qed (use True run wt in \<open>auto simp: guarded_exec register_tasks_exec cancel_task_exec
      archive_task_entry_exec funds_kept_refl split: if_splits option.splits\<close>)
qed

lemma run_call_funds:
  assumes laws: "token_laws X balance" and keeps: "keeps_funds X balance me" and C: "deployed X me C"
    and cinv: "contract_inv s" and inv: "funds_inv balance me s" and run: "run_call c C s = (Ok (), s')"
  shows "funds_inv balance me s'"
proof (cases "funds_call c")
  case False
  have "externs C = X" using C by (simp add: deployed_def)
  from other_call_funds [OF keeps this cinv False run] inv show ?thesis
    by (auto intro: funds_inv_frame)
next
  case True
  note wt = contract_inv_wt [OF cinv]
  show ?thesis
  proof (cases c)
    case (C_lock_tokens g n)
    with run have "lock_tokens g n C s = (Ok (), s')" by simp
    then show ?thesis by (rule lock_tokens_funds [OF laws C inv wt])
  next
    case (C_resign_guardian g)
    let ?s = "s\<lparr>storage := (storage s)(Guardian g \<mapsto> VBool False)\<rparr>"
    have "funds_inv balance me ?s" by (rule funds_inv_frame [OF inv]) (auto simp: funds_kept_refl)
    with C_resign_guardian run wt show ?thesis
      by (auto simp: resign_guardian_exec split: if_splits intro: refund_funds [OF laws C, of g ?s])
  next
    case (C_unlock_tokens g)
    with run wt show ?thesis
      by (auto simp: unlock_tokens_exec split: if_splits intro: refund_funds [OF laws C _ inv])
  next
    case (C_initialize token n)
    with run wt cinv have none: "storage s TokenAddress = None"
      and s': "storage s' = (storage s)(Initialized \<mapsto> VBool True, TokenAddress \<mapsto> VAddress token,
          LockThreshold \<mapsto> VI128 n, Paused \<mapsto> VBool False)" "world s' = world s"
      by (auto simp: initialize_exec contract_inv_def config_inv_def split: if_splits)
    from none inv wt have "holders (storage s) = {}"
      by (simp add: funds_inv_def token_view_None_iff [THEN iffD2])
    with inv laws show ?thesis
      by (simp add: funds_inv_def s' funds_upd total_locked_def token_laws_def)
  qed (use True in auto)
qed

lemma funds_system:
  assumes laws: "token_laws X balance" and keeps: "keeps_funds X balance me"
  shows "safe_system fresh_env (contract_step (deployed X me) (funds_kept balance me))
    (\<lambda>s. contract_inv s \<and> funds_inv balance me s)"
proof
  fix s :: "'a env" assume "fresh_env s"
  then show "contract_inv s \<and> funds_inv balance me s"
    by (auto simp: contract_inv_init fresh_env_def funds_inv_def holders_def views)
next
  fix s s' assume inv: "contract_inv s \<and> funds_inv balance me s"
    and step: "contract_step (deployed X me) (funds_kept balance me) s s'"
  from inv step have "contract_inv s'" by (blast intro: vero.inv_step)
  moreover have "funds_inv balance me s'" using step
  proof (cases rule: contract_step.cases)
    case (call_step C c)
    with inv show ?thesis
      by (cases rule: call_env_cases [of c C s]) (auto intro: run_call_funds [OF laws keeps])
  next
    case (world_step w)
    with inv show ?thesis by (auto intro: funds_inv_frame)
  qed
  ultimately show "contract_inv s' \<and> funds_inv balance me s'" ..
qed

lemmas funds_reach = safe_system.inv_reach [OF funds_system]

section \<open>Getting the tokens back\<close>

text \<open>A holder leaves by resigning if still a guardian, and by unlocking otherwise.\<close>

definition withdraw :: "'w env \<Rightarrow> address \<Rightarrow> ('w, unit) contract" where
  "withdraw s g = (if guardian_view (storage s) g then resign_guardian g else unlock_tokens g)"

lemma refund_pays:
  assumes laws: "token_laws X balance" and C: "deployed X me C" and auth: "authorized C g"
    and wt: "well_typed (storage s)" and tok: "token_view (storage s) = Some tok"
    and pos: "0 \<le> sint (locked_view (storage s) g)"
    and run: "refund_locked g C s = (Ok (), s')"
  shows "locked_view (storage s') g = 0 \<and> guardian_view (storage s') g = guardian_view (storage s) g \<and>
    balance (world s') tok g = balance (world s) tok g + sint (locked_view (storage s) g)"
proof -
  from tok have token: "storage s TokenAddress \<noteq> None" by (auto simp: views look_def split: option.splits)
  show ?thesis
  proof (cases "sint (locked_view (storage s) g) \<le> 0")
    case True
    with pos have "sint (locked_view (storage s) g) = 0" by simp
    moreover from this have "locked_view (storage s) g = 0" by (simp add: signed_eq_0_iff)
    ultimately show ?thesis using run wt token by (simp add: refund_locked_exec)
  next
    case False
    with run wt token tok obtain w where
      w: "x_token_transfer (externs C) tok (self C) g (locked_view (storage s) g) (world s) = Some w"
      and s': "s' = s\<lparr>storage := (storage s)(LockedBalance g \<mapsto> VI128 0), world := w\<rparr>"
      by (auto simp: refund_locked_exec split: option.splits)
    from auth C have "g \<noteq> self C" by (auto simp: deployed_def)
    with w laws C have "balance w tok g = balance (world s) tok g + sint (locked_view (storage s) g)"
      unfolding token_laws_def deployed_def by fastforce
    then show ?thesis by (simp add: s' funds_upd) (simp add: views)
  qed
qed

lemma refund_succeeds:
  assumes live: "token_live X balance" and C: "deployed X me C"
    and wt: "well_typed (storage s)" and tok: "token_view (storage s) = Some tok"
    and cover: "sint (locked_view (storage s) g) \<le> balance (world s) tok me"
  shows "\<exists>s'. refund_locked g C s = (Ok (), s')"
proof (cases "sint (locked_view (storage s) g) \<le> 0")
  case True
  from tok have "storage s TokenAddress \<noteq> None" by (auto simp: views look_def split: option.splits)
  with True wt show ?thesis by (simp add: refund_locked_exec)
next
  case False
  from tok have token: "storage s TokenAddress \<noteq> None" by (auto simp: views look_def split: option.splits)
  from False live C cover have
    "x_token_transfer (externs C) tok (self C) g (locked_view (storage s) g) (world s) \<noteq> None"
    by (simp add: token_live_def deployed_def)
  with False wt token tok show ?thesis by (auto simp: refund_locked_exec)
qed

lemma withdraw_refund:
  assumes "well_typed (storage s)" and "authorized C g" and "token_view (storage s) = Some tok"
  shows "withdraw s g C s =
    refund_locked g C (if guardian_view (storage s) g
      then s\<lparr>storage := (storage s)(Guardian g \<mapsto> VBool False)\<rparr> else s)"
proof -
  from assms(3) have "storage s TokenAddress \<noteq> None" by (auto simp: views look_def split: option.splits)
  with assms show ?thesis by (auto simp: withdraw_def resign_guardian_exec unlock_tokens_exec)
qed

lemma locked_covered:
  assumes "funds_inv balance me s" and "token_view (storage s) = Some tok"
  shows "sint (locked_view (storage s) g) \<le> balance (world s) tok me"
proof -
  from assms have fin: "finite (holders (storage s))" and pos: "\<And>g. 0 \<le> sint (locked_view (storage s) g)"
    and cover: "total_locked (storage s) \<le> balance (world s) tok me"
    by (simp_all add: funds_inv_def)
  have "sint (locked_view (storage s) g) \<le> total_locked (storage s)"
  proof (cases "g \<in> holders (storage s)")
    case True
    with fin pos show ?thesis unfolding total_locked_def by (intro member_le_sum) auto
  next
    case False
    with pos show ?thesis by (simp add: locked_view_outside total_locked_def sum_nonneg)
  qed
  with cover show ?thesis by simp
qed

text \<open>The withdrawal does what it should whenever it returns, and it always returns.\<close>

lemma withdraw_pays:
  assumes "token_laws X balance" and "deployed X me C" and "authorized C g"
    and wt: "well_typed (storage s)" and tok: "token_view (storage s) = Some tok"
    and pos: "0 \<le> sint (locked_view (storage s) g)"
    and run: "withdraw s g C s = (Ok (), s')"
  shows "locked_view (storage s') g = 0 \<and> \<not> guardian_view (storage s') g \<and>
    balance (world s') tok g = balance (world s) tok g + sint (locked_view (storage s) g)"
proof -
  let ?s = "if guardian_view (storage s) g then s\<lparr>storage := (storage s)(Guardian g \<mapsto> VBool False)\<rparr> else s"
  have same: "well_typed (storage ?s)" "token_view (storage ?s) = Some tok"
    "locked_view (storage ?s) g = locked_view (storage s) g" "world ?s = world s"
    "\<not> guardian_view (storage ?s) g"
    using wt tok by (auto simp: views)
  from run have "refund_locked g C ?s = (Ok (), s')"
    unfolding withdraw_refund [OF wt assms(3) tok] .
  from refund_pays [OF assms(1-3) same(1,2) _ this] pos same show ?thesis by (simp only: simp_thms)
qed

lemma withdraw_succeeds:
  assumes "token_live X balance" and "deployed X me C" and "authorized C g"
    and wt: "well_typed (storage s)" and tok: "token_view (storage s) = Some tok"
    and inv: "funds_inv balance me s"
  shows "\<exists>s'. withdraw s g C s = (Ok (), s')"
proof -
  let ?s = "if guardian_view (storage s) g then s\<lparr>storage := (storage s)(Guardian g \<mapsto> VBool False)\<rparr> else s"
  have "well_typed (storage ?s)" "token_view (storage ?s) = Some tok"
    "sint (locked_view (storage ?s) g) \<le> balance (world ?s) tok me"
    using wt tok locked_covered [OF inv tok, of g] by (auto simp: views)
  then show ?thesis
    unfolding withdraw_refund [OF wt assms(3) tok] by (rule refund_succeeds [OF assms(1,2)])
qed

end
