(* ===== verification/Vero_Runs.thy ===== *)
theory Vero_Runs
  imports Vero_Tokens
begin

text \<open>
  Runs of several calls in one context: \<open>run_calls\<close> and its reachable states, what a run of
  failure reports does to the circuit breaker, and what a run of votes does to a task.  The
  last is an instance of the run lemmas of \<open>weighted_consensus\<close>.
\<close>

definition run_calls :: "'w ctx \<Rightarrow> call list \<Rightarrow> 'w env \<Rightarrow> 'w env" where
  "run_calls C cs s = fold (call_env C) cs s"

fun upgrade_call :: "call \<Rightarrow> bool" where
  "upgrade_call (C_upgrade_contract _ _) = True"
| "upgrade_call _ = False"

lemma run_call_wasm:
  assumes inv: "contract_inv s" and c: "\<not> upgrade_call c" and run: "run_call c C s = (Ok (), s')"
  shows "wasm_update s' = wasm_update s"
proof (cases "ledger_call c")
  case False
  with contract_inv_wt [OF inv] c run show ?thesis
    by (cases c) (auto simp: plain_exec split: if_splits option.splits)
next
  case True
  with contract_inv_wt [OF inv] run show ?thesis
    by (cases c)
      (auto simp: guarded_exec register_tasks_exec cancel_task_exec archive_task_entry_exec vote_Ok_iff
        voted_env_def start_reward_stream_exec start_drips_stream_exec split: if_splits option.splits)
qed

text \<open>A run of calls is a path of the system, from whatever start.\<close>

lemma call_env_wasm:
  assumes "contract_inv s" and "\<not> upgrade_call c"
  shows "wasm_update (call_env C c s) = wasm_update s"
  by (cases rule: call_env_cases [of c C s]) (use assms in \<open>auto dest: run_call_wasm\<close>)

lemma run_calls_reach:
  assumes "reach init (contract_step P R) s" and "contract_inv s" and "P C" and "wasm_update s = None"
    and "\<forall>c\<in>set cs. \<not> upgrade_call c"
  shows "reach init (contract_step P R) (run_calls C cs s) \<and> wasm_update (run_calls C cs s) = None"
  using assms
proof (induction cs arbitrary: s)
  case Nil
  then show ?case by (simp add: run_calls_def)
next
  case (Cons c cs)
  have step: "reach init (contract_step P R) (call_env C c s)"
    using Cons.prems by (blast intro: reach_step call_step)
  have inv: "contract_inv (call_env C c s)" using Cons.prems(2) by (rule call_env_inv)
  have "wasm_update (call_env C c s) = None" using Cons.prems by (simp add: call_env_wasm)
  with Cons.IH [OF step inv] Cons.prems show ?case by (simp add: run_calls_def)
qed

lemma run_calls_append: "run_calls C ds (run_calls C cs s) = run_calls C (cs @ ds) s"
  by (simp add: run_calls_def)

lemma reachable_run_calls:
  assumes "reachable P R s" and "P C" and "wasm_update s = None" and "\<forall>c\<in>set cs. \<not> upgrade_call c"
  shows "reachable P R (run_calls C cs s)" and "wasm_update (run_calls C cs s) = None"
  using run_calls_reach [OF assms(1) vero.inv_reach [OF assms(1)] assms(2-4)] by simp_all

section \<open>A run of failure reports\<close>

definition trips :: "event list \<Rightarrow> event list" where
  "trips = filter (\<lambda>e. case e of CircuitBreakerTriggered _ \<Rightarrow> True | _ \<Rightarrow> False)"

lemma record_failure_step:
  assumes "well_typed (storage s)" and "unat (failures_view (storage s)) + 1 < 2 ^ 32"
  shows "let s' = call_env C C_record_failure s in
    well_typed (storage s') \<and>
    unat (failures_view (storage s')) = unat (failures_view (storage s)) + 1 \<and>
    (paused_view (storage s') \<longleftrightarrow> paused_view (storage s) \<or> unat (failures_view (storage s)) + 1 > 50) \<and>
    length (trips (events s')) = length (trips (events s)) +
      (if \<not> paused_view (storage s) \<and> unat (failures_view (storage s)) + 1 > 50 then 1 else 0)"
proof -
  let ?n = "failures_view (storage s)"
  from assms(2) have add: "checked_add ?n 1 = Some (?n + 1)" and n: "unat (?n + 1) = unat ?n + 1"
    by (simp_all add: checked_add_def unat_word_ariths)
  then have big: "50 < ?n + 1 \<longleftrightarrow> unat ?n + 1 > 50" by (simp add: word_less_nat_alt)
  from assms(1) add have run: "call_env C C_record_failure s =
    (if ?n + 1 > 50 \<and> \<not> paused_view (storage s)
     then s\<lparr>storage := (storage s)(FailureCount \<mapsto> VU32 (?n + 1), Paused \<mapsto> VBool True),
            events := events s @ [CircuitBreakerTriggered (?n + 1)]\<rparr>
     else s\<lparr>storage := (storage s)(FailureCount \<mapsto> VU32 (?n + 1))\<rparr>)"
    by (simp add: call_env_def invoke_def record_failure_def record_failure_exec)
  have after: "failures_view (storage (call_env C C_record_failure s)) = ?n + 1"
    "paused_view (storage (call_env C C_record_failure s)) \<longleftrightarrow> paused_view (storage s) \<or> 50 < ?n + 1"
    "well_typed (storage (call_env C C_record_failure s))"
    using assms(1) unfolding run by (auto simp: views)
  show ?thesis
    unfolding Let_def after n big [symmetric] using assms(1) after(3) by (simp add: run trips_def)
qed

lemma record_failures:
  assumes "well_typed (storage s)" and "unat (failures_view (storage s)) + n < 2 ^ 32" and "0 < n"
  shows "let s' = run_calls C (replicate n C_record_failure) s in
    well_typed (storage s') \<and>
    unat (failures_view (storage s')) = unat (failures_view (storage s)) + n \<and>
    (paused_view (storage s') \<longleftrightarrow> paused_view (storage s) \<or> unat (failures_view (storage s)) + n > 50) \<and>
    length (trips (events s')) = length (trips (events s)) +
      (if \<not> paused_view (storage s) \<and> unat (failures_view (storage s)) + n > 50 then 1 else 0)"
  using assms(3,1,2)
proof (induction n arbitrary: s rule: nat_induct_non_zero)
  case 1
  with record_failure_step [of s C] show ?case by (simp add: run_calls_def)
next
  case (Suc n)
  let ?u = "call_env C C_record_failure s"
  have one: "well_typed (storage ?u)" "unat (failures_view (storage ?u)) = unat (failures_view (storage s)) + 1"
    "paused_view (storage ?u) \<longleftrightarrow> paused_view (storage s) \<or> unat (failures_view (storage s)) + 1 > 50"
    "length (trips (events ?u)) = length (trips (events s)) +
      (if \<not> paused_view (storage s) \<and> unat (failures_view (storage s)) + 1 > 50 then 1 else 0)"
    using record_failure_step [of s C] Suc.prems by (simp_all add: Let_def)
  from one(2) Suc.prems have "unat (failures_view (storage ?u)) + n < 2 ^ 32" by simp
  note more = Suc.IH [OF one(1) this]
  have "run_calls C (replicate (Suc n) C_record_failure) s = run_calls C (replicate n C_record_failure) ?u"
    by (simp add: run_calls_def)
  with more one show ?case by (auto simp: Let_def)
qed

section \<open>A run of votes\<close>

text \<open>\<open>may_vote C s t w gs\<close>: the guardians \<open>gs\<close> are different, have not voted on \<open>t\<close> and meet
  every condition \<open>vote\<close> puts on a guardian, with the weights \<open>w\<close>.\<close>

definition may_vote :: "'w ctx \<Rightarrow> 'w env \<Rightarrow> u64 \<Rightarrow> (address \<Rightarrow> u64) \<Rightarrow> address list \<Rightarrow> bool" where
  "may_vote C s t w gs \<longleftrightarrow>
     distinct gs \<and> \<not> paused_view (storage s) \<and> \<not> lock_held s \<and> storage s TokenAddress \<noteq> None \<and>
     (\<forall>g\<in>set gs. authorized C g \<and> guardian_view (storage s) g \<and>
        sint (lock_threshold_view (storage s)) < sint (locked_view (storage s) g) \<and>
        storage s (Voted t g) = None \<and> reputation_view (storage s) g = Some (w g) \<and> w g \<noteq> 0)"

text \<open>The vault, if there is one, pays for \<open>t\<close> whenever it is asked.\<close>

definition vault_pays :: "'w ctx \<Rightarrow> storage \<Rightarrow> u64 \<Rightarrow> bool" where
  "vault_pays C \<sigma> t \<longleftrightarrow>
     (\<forall>v \<omega>. vault_view \<sigma> = Some v \<longrightarrow> x_release_funds (externs C) v t \<omega> \<noteq> None)"

lemma tally_room:
  assumes "unat (t_total_weight_accrued x) + unat w < 2 ^ 64" and "unat (t_votes x) + 1 < 2 ^ 32"
  shows "\<exists>y. tally thr now w x = Some y"
  using assms by (simp add: tally_def checked_add_def Let_def)

text \<open>The arithmetic of \<open>vote\<close> is \<open>apply_vote\<close>, except for the width of the vote counter.\<close>

lemma tally_apply_vote:
  assumes "w \<noteq> 0" and "t_votes x \<noteq> - 1"
  shows "map_option consensus_of (tally thr now w x) = apply_vote_step thr w (consensus_of x)"
proof -
  have "unat (t_votes x) \<noteq> unat (- 1 :: u32)" using assms(2) by (simp add: word_unat_eq_iff)
  then have "unat (t_votes x) + 1 < 2 ^ 32"
    using unat_u32_bound [of "t_votes x"] by (simp add: unsigned_minus_1_eq_mask mask_eq_exp_minus_1)
  then have "checked_add (t_votes x) 1 = Some (t_votes x + 1)" by (simp add: checked_add_def)
  with assms(1) show ?thesis
    by (auto simp: tally_def apply_vote_step_def apply_vote_cases consensus_of_def saturating_add_def Let_def
        split: option.split)
qed

lemma tally_full:
  assumes "t_votes x = - 1"
  shows "tally thr now w x = None"
  using assms by (simp add: tally_def checked_add_def unsigned_minus_1_eq_mask mask_eq_exp_minus_1 split: option.split)

lemma vote_apply_vote:
  assumes wt: "well_typed (storage s)" and el: "eligible C s g t w x" and vault: "vault_pays C (storage s) t"
  shows "case apply_vote (consensus_of x) w (threshold_view (storage s)) of
      (Inl e, _) \<Rightarrow> e = ConsensusWeightOverflow \<and> fst (invoke (vote g t) C s) = Err WeightOverflow
    | (Inr _, st) \<Rightarrow>
        if t_votes x = - 1 then fst (invoke (vote g t) C s) = Trap ArithmeticOverflow
        else fst (invoke (vote g t) C s) = Ok () \<and>
          map_option consensus_of (active_view (storage (snd (invoke (vote g t) C s))) t) = Some st"
proof (cases "checked_add (t_total_weight_accrued x) w")
  case None
  moreover from None have "tally (threshold_view (storage s)) (timestamp C) w x = None" by (simp add: tally_def)
  ultimately show ?thesis
    using el wt by (simp add: eligible_def vote_exec apply_vote_cases consensus_of_def)
next
  case (Some v)
  from el have w: "w \<noteq> 0" by (simp add: eligible_def)
  with Some obtain st where st: "apply_vote (consensus_of x) w (threshold_view (storage s)) = (Inr (), st)"
    by (simp add: apply_vote_cases consensus_of_def)
  show ?thesis
  proof (cases "t_votes x = - 1")
    case True
    with Some el wt st show ?thesis by (simp add: eligible_def vote_exec tally_full)
  next
    case False
    from tally_apply_vote [OF w False, of "threshold_view (storage s)" "timestamp C"] st
    obtain y where y: "tally (threshold_view (storage s)) (timestamp C) w x = Some y" and st_y: "consensus_of y = st"
      by (auto simp: apply_vote_step_def)
    have "payout C s t y \<noteq> None"
      using vault by (auto simp: payout_def vault_pays_def split: option.split)
    then obtain \<omega> where "payout C s t y = Some \<omega>" by blast
    with el y wt have "vote g t C s = (Ok (), voted_env s g t w y \<omega>)" by (auto simp: vote_Ok_iff)
    with st st_y False show ?thesis by (simp add: invoke_def voted_env_def view_upd)
  qed
qed

lemma vote_run_step:
  assumes wt: "well_typed (storage s)" and ready: "may_vote C s t w (g # gs)"
    and vault: "vault_pays C (storage s) t"
    and x: "active_view (storage s) t = Some x" "\<not> t_is_cancelled x"
    and y: "tally (threshold_view (storage s)) (timestamp C) (w g) x = Some y"
  shows "well_typed (storage (call_env C (C_vote g t) s)) \<and>
    may_vote C (call_env C (C_vote g t) s) t w gs \<and>
    vault_pays C (storage (call_env C (C_vote g t) s)) t \<and>
    active_view (storage (call_env C (C_vote g t) s)) t = Some y \<and>
    threshold_view (storage (call_env C (C_vote g t) s)) = threshold_view (storage s)"
proof -
  have el: "eligible C s g t (w g) x" using ready x by (auto simp: may_vote_def eligible_def)
  have "payout C s t y \<noteq> None"
    using vault by (auto simp: payout_def vault_pays_def split: option.split)
  then obtain \<omega> where "payout C s t y = Some \<omega>" by blast
  with el y wt have "vote g t C s = (Ok (), voted_env s g t (w g) y \<omega>)" by (auto simp: vote_Ok_iff)
  then have env: "call_env C (C_vote g t) s = voted_env s g t (w g) y \<omega>"
    by (simp add: call_env_def invoke_def)
  from wt ready vault show ?thesis
    unfolding env by (auto simp: voted_env_def may_vote_def vault_pays_def lock_held_def views)
qed

lemma vote_run:
  assumes "well_typed (storage s)" and "may_vote C s t w gs" and "vault_pays C (storage s) t"
    and "active_view (storage s) t = Some x" and "\<not> t_is_cancelled x"
    and "unat (t_total_weight_accrued x) + total_of (map w gs) < 2 ^ 64"
    and "unat (t_votes x) + length gs < 2 ^ 32"
  shows "\<exists>y. count_votes (tally (threshold_view (storage s)) (timestamp C)) (map w gs) x = Some y \<and>
    active_view (storage (run_calls C (map (\<lambda>g. C_vote g t) gs) s)) t = Some y"
  using assms
proof (induction gs arbitrary: s x)
  case Nil
  then show ?case by (simp add: run_calls_def)
next
  case (Cons g gs)
  let ?s = "call_env C (C_vote g t) s" and ?tally = "tally (threshold_view (storage s)) (timestamp C)"
  from Cons.prems(6,7) obtain y where y: "?tally (w g) x = Some y"
    using tally_room [of x "w g" "threshold_view (storage s)" "timestamp C"] by (auto simp: total_of_def)
  note s' = vote_run_step [OF Cons.prems(1-5) y] and yx = tally_SomeD [OF y]
  have "\<exists>z. count_votes (tally (threshold_view (storage ?s)) (timestamp C)) (map w gs) y = Some z \<and>
      active_view (storage (run_calls C (map (\<lambda>g. C_vote g t) gs) ?s)) t = Some z"
    by (rule Cons.IH) (use s' yx Cons.prems in \<open>auto simp: total_of_def\<close>)
  with s' y show ?case by (simp add: run_calls_def)
qed

end
