(* ===== verification/Vero_Scenario.thy ===== *)
theory Vero_Scenario
  imports Vero_Runs
begin

text \<open>
  A small deployment to run the contract in: a token ledger, a vault that notes which tasks
  it has paid for, and a Drips protocol that accepts every stream.  The concrete instances
  of the properties are taken from its runs.
\<close>

section \<open>The deployment\<close>

record demo_world =
  d_balance :: "address \<Rightarrow> address \<Rightarrow> nat"
  d_released :: "u64 list"

definition demo_transfer ::
  "address \<Rightarrow> address \<Rightarrow> address \<Rightarrow> i128 \<Rightarrow> demo_world \<Rightarrow> demo_world option" where
  "demo_transfer token from to n w =
     (if 0 \<le> sint n \<and> sint n \<le> int (d_balance w token from) then
        (let b = (d_balance w token)(from := d_balance w token from - nat (sint n))
         in Some (w\<lparr>d_balance := (d_balance w)(token := b(to := b to + nat (sint n)))\<rparr>))
      else None)"

definition demo_externs :: "demo_world externs" where
  "demo_externs =
     \<lparr>x_token_transfer = demo_transfer,
      x_release_funds = (\<lambda>v t w. Some (w\<lparr>d_released := d_released w @ [t]\<rparr>)),
      x_start_stream = (\<lambda>d c t n w. Some w),
      x_wasm_installed = (\<lambda>h. True)\<rparr>"

definition demo_ctx :: "u64 \<Rightarrow> demo_world ctx" where
  "demo_ctx now =
     \<lparr>authorized = (\<lambda>a. a \<noteq> Address 0), timestamp = now, extend_live = (\<lambda>n m l. max l m), self = Address 0,
      externs = demo_externs\<rparr>"

definition demo_balance :: "demo_world balances" where
  "demo_balance w token a = int (d_balance w token a)"

abbreviation admin1 :: address where "admin1 \<equiv> Address 1"
abbreviation token1 :: address where "token1 \<equiv> Address 2"
abbreviation vault1 :: address where "vault1 \<equiv> Address 3"
abbreviation alice :: address where "alice \<equiv> Address 11"
abbreviation bob :: address where "bob \<equiv> Address 12"

definition demo_start :: "demo_world env" where
  "demo_start =
     \<lparr>storage = Map.empty, events = [], live_until = 0, wasm_update = None,
      world = \<lparr>d_balance = (\<lambda>token a. if a \<in> {alice, bob} then 500 else 0), d_released = []\<rparr>\<rparr>"

definition demo_setup :: "call list" where
  "demo_setup =
     [C_initialize token1 100, C_set_vault_address admin1 vault1,
      C_add_guardian admin1 alice, C_set_reputation admin1 alice 300, C_lock_tokens alice 150,
      C_add_guardian admin1 bob, C_set_reputation admin1 bob 40, C_lock_tokens bob 101,
      C_register_task admin1 7]"

text \<open>\<open>demo_open\<close>: task 7 is open, both guardians may vote.  \<open>demo_voted\<close>: Bob's vote, which
  is below the threshold.  \<open>demo_done\<close>: Alice's vote resolves it.\<close>

definition demo_open :: "demo_world env" where
  "demo_open = run_calls (demo_ctx 1000) demo_setup demo_start"

definition demo_voted :: "demo_world env" where
  "demo_voted = run_calls (demo_ctx 1000) [C_vote bob 7] demo_open"

definition demo_done :: "demo_world env" where
  "demo_done = run_calls (demo_ctx 1000) [C_vote alice 7] demo_voted"

lemma demo_deployed: "deployed demo_externs (Address 0) (demo_ctx now)"
  by (simp add: deployed_def demo_ctx_def)

lemma demo_laws: "token_laws demo_externs demo_balance" "keeps_funds demo_externs demo_balance me"
  "token_live demo_externs demo_balance"
  by (auto simp: token_laws_def keeps_funds_def token_live_def demo_externs_def demo_transfer_def
      demo_balance_def Let_def split: if_splits)

lemma reachable_demo_start: "reachable P R demo_start"
  by (rule reach_init) (simp add: fresh_env_def demo_start_def)

lemmas run_exec =
  run_calls_def call_env_def invoke_def plain_exec guarded_exec register_tasks_exec
  registrable_def fresh_id_def lock_held_def views demo_ctx_def demo_externs_def demo_transfer_def
  Let_def vec_len_def checked_add_signed_def

lemma demo_open_eq:
  "storage demo_open =
     [Initialized \<mapsto> VBool True, TokenAddress \<mapsto> VAddress token1, LockThreshold \<mapsto> VI128 100,
      Paused \<mapsto> VBool False, VaultAddress \<mapsto> VAddress vault1,
      AllGuardians \<mapsto> VAddresses [alice], Guardian alice \<mapsto> VBool True,
      Reputation alice \<mapsto> VU64 300, LockedBalance alice \<mapsto> VI128 150,
      AllGuardians \<mapsto> VAddresses [alice, bob], Guardian bob \<mapsto> VBool True,
      Reputation bob \<mapsto> VU64 40, LockedBalance bob \<mapsto> VI128 101,
      ActiveTask 7 \<mapsto> VTask (new_task 7), AllTasks \<mapsto> VIds [7]]"
  "events demo_open = []" "wasm_update demo_open = None"
  by (simp_all add: demo_open_def demo_setup_def demo_start_def run_exec)

lemma well_typed_demo_open: "well_typed (storage demo_open)"
  by (simp add: demo_open_eq)

lemmas vote_run_exec =
  run_calls_def call_env_def invoke_def vote_exec tally_def payout_def reaches_def voted_env_def
  checked_add_def lock_held_def views demo_ctx_def demo_externs_def new_task_def Let_def

lemma demo_voted_eq:
  "storage demo_voted = (storage demo_open)(AllVotes \<mapsto> VVotes [(7, bob)], Voted 7 bob \<mapsto> VBool True,
     ActiveTask 7 \<mapsto> VTask ((new_task 7)\<lparr>t_total_weight_accrued := 40, t_votes := 1\<rparr>))"
  "events demo_voted = [WeightedVote 7 bob 40]" "wasm_update demo_voted = None"
  by (simp_all add: demo_voted_def demo_open_eq vote_run_exec)

lemma demo_done_eq:
  "storage demo_done = (storage demo_open)(AllVotes \<mapsto> VVotes [(7, bob), (7, alice)],
     Voted 7 bob \<mapsto> VBool True, Voted 7 alice \<mapsto> VBool True,
     ActiveTask 7 \<mapsto> VTask \<lparr>t_id = 7, t_votes = 2, t_is_done = True, t_resolved_at = 1000,
       t_total_weight_accrued = 340, t_is_cancelled = False\<rparr>)"
  "events demo_done = [WeightedVote 7 bob 40, TaskResolved 7 340, WeightedVote 7 alice 300]"
  "wasm_update demo_done = None"
  by (simp_all add: demo_done_def demo_voted_eq demo_open_eq vote_run_exec fun_upd_twist)

lemma reachable_demo:
  assumes "\<And>now. P (demo_ctx now)"
  shows "reachable P R demo_open" "reachable P R demo_voted" "reachable P R demo_done"
proof -
  show *: "reachable P R demo_open"
    unfolding demo_open_def
    by (rule reachable_run_calls [OF reachable_demo_start])
      (use assms in \<open>auto simp: demo_start_def demo_setup_def\<close>)
  show **: "reachable P R demo_voted"
    unfolding demo_voted_def
    by (rule reachable_run_calls [OF *]) (use assms in \<open>auto simp: demo_open_eq\<close>)
  show "reachable P R demo_done"
    unfolding demo_done_def
    by (rule reachable_run_calls [OF **]) (use assms in \<open>auto simp: demo_voted_eq\<close>)
qed

lemmas demo_reach = reachable_demo [where P = "\<lambda>_. True" and R = "\<lambda>_ _. True", simplified]

lemma demo_step: "contract_step (\<lambda>_. True) (\<lambda>_ _. True) demo_voted demo_done"
  unfolding demo_done_def run_calls_def by (simp add: call_step demo_voted_eq)

text \<open>What follows the resolution: a reward stream, and the archive thirty days later.\<close>

abbreviation drips1 :: address where "drips1 \<equiv> Address 4"
abbreviation carol :: address where "carol \<equiv> Address 13"

definition demo_streamed :: "demo_world env" where
  "demo_streamed = run_calls (demo_ctx 1000) [C_start_reward_stream admin1 drips1 carol 7] demo_done"

definition demo_archived :: "demo_world env" where
  "demo_archived = run_calls (demo_ctx 2593001) [C_archive_task 7] demo_streamed"

lemma demo_streamed_eq:
  "storage demo_streamed = (storage demo_done)(AllRewardStreams \<mapsto> VIds [7],
     RewardStream 7 \<mapsto> VStream (new_stream drips1 carol 7))"
  "events demo_streamed = events demo_done @ [RewardStreamStarted 7 carol]"
  "wasm_update demo_streamed = None"
  by (simp_all add: demo_streamed_def run_calls_def call_env_def invoke_def start_reward_stream_exec
      start_drips_stream_exec demo_done_eq demo_open_eq views demo_ctx_def demo_externs_def)

lemma demo_archived_eq:
  "storage demo_archived = (storage demo_streamed)(ArchivedTask 7 \<mapsto>
     VTask \<lparr>t_id = 7, t_votes = 2, t_is_done = True, t_resolved_at = 1000,
       t_total_weight_accrued = 340, t_is_cancelled = False\<rparr>, ActiveTask 7 := None)"
  "events demo_archived = events demo_streamed @ [TaskArchived 7 1000]"
  "wasm_update demo_archived = None"
  by (simp_all add: demo_archived_def run_calls_def call_env_def invoke_def archive_task_entry_exec
      stale_def demo_streamed_eq demo_done_eq demo_open_eq views demo_ctx_def)

lemma reachable_demo_after:
  assumes "\<And>now. P (demo_ctx now)"
  shows "reachable P R demo_streamed" "reachable P R demo_archived"
proof -
  show *: "reachable P R demo_streamed"
    unfolding demo_streamed_def
    by (rule reachable_run_calls [OF reachable_demo(3)]) (use assms in \<open>auto simp: demo_done_eq\<close>)
  show "reachable P R demo_archived"
    unfolding demo_archived_def
    by (rule reachable_run_calls [OF *]) (use assms in \<open>auto simp: demo_streamed_eq\<close>)
qed

lemmas demo_reach_after = reachable_demo_after [where P = "\<lambda>_. True" and R = "\<lambda>_ _. True", simplified]

end
