(* ===== verification/Vero_Snapshot.thy ===== *)
theory Vero_Snapshot
  imports Vero_Execution "HOL-Library.Product_Lexorder"
begin

text \<open>
  \<open>VeroCore::get_snapshot\<close> of \<open>src/src/lib.rs\<close>: one page of the contract's state.  A
  \<open>soroban_sdk::Map\<close> is an association list kept sorted by key (\<open>map_set\<close> inserts or
  replaces); a slice of a vector traps when its bounds are not inside the vector.  The
  four paging blocks of the source, which differ only in the list they page through, share
  \<open>page_slice\<close>.
\<close>

section \<open>Ordered maps\<close>

fun map_set :: "'k::linorder \<Rightarrow> 'v \<Rightarrow> ('k \<times> 'v) list \<Rightarrow> ('k \<times> 'v) list" where
  "map_set k v [] = [(k, v)]"
| "map_set k v ((k', v') # m) =
     (if k < k' then (k, v) # (k', v') # m
      else if k = k' then (k, v) # m
      else (k', v') # map_set k v m)"

lemma map_of_map_set [simp]: "map_of (map_set k v m) = (map_of m)(k \<mapsto> v)"
  by (induction k v m rule: map_set.induct) (auto simp: fun_eq_iff)

lemma set_keys_map_set: "fst ` set (map_set k v m) = insert k (fst ` set m)"
  by (induction k v m rule: map_set.induct) auto

text \<open>A map in its canonical form: no key twice, keys in ascending order.  Together with what
  \<open>map_of\<close> returns, this determines the list.\<close>

definition ordered :: "('k::linorder \<times> 'v) list \<Rightarrow> bool" where
  "ordered m \<longleftrightarrow> sorted_wrt (<) (map fst m)"

lemma ordered_Nil [simp]: "ordered []"
  by (simp add: ordered_def)

lemma ordered_map_set: "ordered m \<Longrightarrow> ordered (map_set k v m)"
  unfolding ordered_def
proof (induction k v m rule: map_set.induct)
  case (2 k v k' v' m)
  then show ?case
    by (auto simp: set_keys_map_set)
qed simp

lemma ordered_map_eq:
  assumes "ordered m" and "ordered m'" and "map_of m = map_of m'"
  shows "m = m'"
proof -
  have rep: "map (\<lambda>k. (k, the (map_of m k))) (map fst m) = m" if "ordered m" for m :: "('a \<times> 'b) list"
    using that by (auto simp: ordered_def strict_sorted_iff comp_def intro!: map_idI)
  from assms(3) have "set (map fst m) = set (map fst m')" by (simp flip: dom_map_of_conv_image_fst)
  with assms(1,2) have "map fst m = map fst m'"
    by (intro sorted_distinct_set_unique) (simp_all add: ordered_def strict_sorted_iff)
  with rep [OF assms(1)] rep [OF assms(2)] assms(3) show ?thesis by simp
qed

section \<open>The snapshot\<close>

record snapshot =
  sn_paused :: bool
  sn_failure_count :: u32
  sn_weight_threshold :: u64
  sn_admin :: "address option"
  sn_vault_address :: "address option"
  sn_drips_address :: "address option"
  sn_guardians :: "(address \<times> bool) list"
  sn_reputations :: "(address \<times> u64) list"
  sn_tasks :: "(u64 \<times> task) list"
  sn_votes :: "((u64 \<times> address) \<times> bool) list"
  sn_reward_streams :: "(u64 \<times> reward_stream) list"

definition MAX_SNAPSHOT_BATCH_SIZE :: u32 where
  "MAX_SNAPSHOT_BATCH_SIZE = 32"

definition vec_slice :: "u32 \<Rightarrow> u32 \<Rightarrow> 'a list \<Rightarrow> ('w, 'a list) contract" where
  "vec_slice a b xs =
     (if a \<le> b \<and> unat b \<le> length xs then ret (take (unat b - unat a) (drop (unat a) xs))
      else trap IndexOutOfBounds)"

definition page_slice :: "u32 \<Rightarrow> u32 \<Rightarrow> 'a list \<Rightarrow> ('w, 'a list) contract" where
  "page_slice offset limit xs =
     (let len = vec_len xs;
          first = min offset len;
          last = min (saturating_add offset limit) len
      in vec_slice first last xs)"

fun guardians_loop ::
  "address list \<Rightarrow> (address \<times> bool) list \<Rightarrow> (address \<times> u64) list \<Rightarrow>
   ('w, (address \<times> bool) list \<times> (address \<times> u64) list) contract" where
  "guardians_loop [] guardians reputations = ret (guardians, reputations)"
| "guardians_loop (g # gs) guardians reputations =
     bindM (guardian_is_guardian g) (\<lambda>b.
     bindM (reputation_get_reputation g) (\<lambda>score.
     guardians_loop gs (map_set g b guardians)
       (case score of None \<Rightarrow> reputations | Some n \<Rightarrow> map_set g n reputations)))"

fun tasks_loop :: "u64 list \<Rightarrow> (u64 \<times> task) list \<Rightarrow> ('w, (u64 \<times> task) list) contract" where
  "tasks_loop [] tasks = ret tasks"
| "tasks_loop (t # ts) tasks =
     bindM (task_get_task t) (\<lambda>found.
     tasks_loop ts (case found of None \<Rightarrow> tasks | Some x \<Rightarrow> map_set t x tasks))"

fun votes_loop :: "(u64 \<times> address) list \<Rightarrow> ((u64 \<times> address) \<times> bool) list \<Rightarrow> ((u64 \<times> address) \<times> bool) list" where
  "votes_loop [] votes = votes"
| "votes_loop (v # vs) votes = votes_loop vs (map_set v True votes)"

fun streams_loop ::
  "u64 list \<Rightarrow> (u64 \<times> reward_stream) list \<Rightarrow> ('w, (u64 \<times> reward_stream) list) contract" where
  "streams_loop [] streams = ret streams"
| "streams_loop (t # ts) streams =
     bindM (drips_get_reward_stream t) (\<lambda>found.
     streams_loop ts (case found of None \<Rightarrow> streams | Some r \<Rightarrow> map_set t r streams))"

definition get_snapshot :: "u32 \<Rightarrow> u32 \<Rightarrow> ('w, snapshot) contract" where
  "get_snapshot offset limit =
     bindM (instance_get_or as_bool False Paused) (\<lambda>paused.
     bindM (instance_get_or as_u32 0 FailureCount) (\<lambda>failure_count.
     bindM (instance_get_or as_u64 DEFAULT_WEIGHT_THRESHOLD WeightThreshold) (\<lambda>weight_threshold.
     bindM (instance_get as_address Admin) (\<lambda>admin.
     bindM (instance_get as_address VaultAddress) (\<lambda>vault_address.
     bindM (instance_get as_address DripsAddress) (\<lambda>drips_address.
     let limit = min limit MAX_SNAPSHOT_BATCH_SIZE in
     bindM get_all_guardians (\<lambda>all_guardians.
     bindM (page_slice offset limit all_guardians) (\<lambda>guardians_slice.
     bindM (guardians_loop guardians_slice [] []) (\<lambda>(guardians, reputations).
     bindM get_all_tasks (\<lambda>all_tasks.
     bindM (page_slice offset limit all_tasks) (\<lambda>tasks_slice.
     bindM (tasks_loop tasks_slice []) (\<lambda>tasks.
     bindM (instance_get_or as_votes [] AllVotes) (\<lambda>all_votes.
     bindM (page_slice offset limit all_votes) (\<lambda>votes_slice.
     let votes = votes_loop votes_slice [] in
     bindM get_all_reward_streams (\<lambda>all_streams.
     bindM (page_slice offset limit all_streams) (\<lambda>streams_slice.
     bindM (streams_loop streams_slice []) (\<lambda>reward_streams.
     ret \<lparr>sn_paused = paused, sn_failure_count = failure_count,
          sn_weight_threshold = weight_threshold, sn_admin = admin,
          sn_vault_address = vault_address, sn_drips_address = drips_address,
          sn_guardians = guardians, sn_reputations = reputations, sn_tasks = tasks,
          sn_votes = votes, sn_reward_streams = reward_streams\<rparr>)))))))))))))))))"

section \<open>Pages\<close>

text \<open>The part of a list a page shows, with the cap on the page size.\<close>

definition page :: "u32 \<Rightarrow> u32 \<Rightarrow> 'a list \<Rightarrow> 'a list" where
  "page offset limit xs = take (min (unat limit) 32) (drop (unat offset) xs)"

lemma unat_vec_len: "length xs < 2 ^ 32 \<Longrightarrow> unat (vec_len xs) = length xs"
  by (simp add: vec_len_def unsigned_of_nat take_bit_nat_eq_self)

lemma unat_min_word: "unat (min a b) = min (unat a) (unat (b :: 'a::len word))"
  by (simp add: min_def word_le_nat_alt)

lemma page_slice_exec:
  assumes "length xs < 2 ^ 32"
  shows "page_slice offset (min limit MAX_SNAPSHOT_BATCH_SIZE) xs = ret (page offset limit xs)"
proof -
  let ?l = "min limit 32"
  let ?a = "min offset (vec_len xs)" and ?b = "min (saturating_add offset ?l) (vec_len xs)"
  have a: "unat ?a = min (unat offset) (length xs)"
    using assms by (simp add: unat_min_word unat_vec_len)
  have b: "unat ?b = min (unat offset + min (unat limit) 32) (length xs)"
    using assms by (simp add: unat_min_word unat_vec_len unat_saturating_add)
  have ab: "?a \<le> ?b" unfolding word_le_nat_alt a b by simp
  have "take (unat ?b - unat ?a) (drop (unat ?a) xs) = page offset limit xs"
    unfolding a b page_def by (cases "unat offset \<le> length xs") (simp_all add: min_def)
  with ab b show ?thesis
    by (simp add: page_slice_def vec_slice_def Let_def MAX_SNAPSHOT_BATCH_SIZE_def)
qed

text \<open>The loops fill the maps with what the readers return for the page's entries.\<close>

lemma guardians_loop_exec:
  assumes "well_typed (storage s)" and "ordered m" and "ordered r"
  shows "\<exists>gm rm. guardians_loop gs m r C s = (Ok (gm, rm), s) \<and> ordered gm \<and> ordered rm \<and>
     map_of gm = (\<lambda>g. if g \<in> set gs then Some (guardian_view (storage s) g) else map_of m g) \<and>
     map_of rm = (\<lambda>g. if g \<in> set gs \<and> reputation_view (storage s) g \<noteq> None
                      then reputation_view (storage s) g else map_of r g)"
  using assms
proof (induction gs arbitrary: m r)
  case Nil
  then show ?case by (simp add: exec)
next
  case (Cons g gs)
  let ?m = "map_set g (guardian_view (storage s) g) m"
  let ?r = "case reputation_view (storage s) g of None \<Rightarrow> r | Some n \<Rightarrow> map_set g n r"
  have "ordered ?m" "ordered ?r" using Cons.prems(2,3) by (simp_all add: ordered_map_set split: option.split)
  with Cons.IH [OF Cons.prems(1)] obtain gm rm where "guardians_loop gs ?m ?r C s = (Ok (gm, rm), s)"
    and "ordered gm" "ordered rm"
    and "map_of gm = (\<lambda>g. if g \<in> set gs then Some (guardian_view (storage s) g) else map_of ?m g)"
    and "map_of rm = (\<lambda>g. if g \<in> set gs \<and> reputation_view (storage s) g \<noteq> None
                      then reputation_view (storage s) g else map_of ?r g)"
    by blast
  with Cons.prems show ?case by (auto simp: exec fun_eq_iff split: option.splits)
qed

lemma tasks_loop_exec:
  assumes "well_typed (storage s)" and "ordered m"
  shows "\<exists>tm. tasks_loop ts m C s = (Ok tm, s) \<and> ordered tm \<and>
     map_of tm = (\<lambda>t. if t \<in> set ts \<and> active_view (storage s) t \<noteq> None
                      then active_view (storage s) t else map_of m t)"
  using assms
proof (induction ts arbitrary: m)
  case Nil
  then show ?case by (simp add: exec)
next
  case (Cons t ts)
  let ?m = "case active_view (storage s) t of None \<Rightarrow> m | Some x \<Rightarrow> map_set t x m"
  have "ordered ?m" using Cons.prems(2) by (simp add: ordered_map_set split: option.split)
  with Cons.IH [OF Cons.prems(1)] obtain tm where "tasks_loop ts ?m C s = (Ok tm, s)" and "ordered tm"
    and "map_of tm = (\<lambda>t. if t \<in> set ts \<and> active_view (storage s) t \<noteq> None
                      then active_view (storage s) t else map_of ?m t)"
    by blast
  with Cons.prems show ?case by (auto simp: exec fun_eq_iff split: option.splits)
qed

lemma streams_loop_exec:
  assumes "well_typed (storage s)" and "ordered m"
  shows "\<exists>tm. streams_loop ts m C s = (Ok tm, s) \<and> ordered tm \<and>
     map_of tm = (\<lambda>t. if t \<in> set ts \<and> stream_view (storage s) t \<noteq> None
                      then stream_view (storage s) t else map_of m t)"
  using assms
proof (induction ts arbitrary: m)
  case Nil
  then show ?case by (simp add: exec)
next
  case (Cons t ts)
  let ?m = "case stream_view (storage s) t of None \<Rightarrow> m | Some x \<Rightarrow> map_set t x m"
  have "ordered ?m" using Cons.prems(2) by (simp add: ordered_map_set split: option.split)
  with Cons.IH [OF Cons.prems(1)] obtain tm where "streams_loop ts ?m C s = (Ok tm, s)" and "ordered tm"
    and "map_of tm = (\<lambda>t. if t \<in> set ts \<and> stream_view (storage s) t \<noteq> None
                      then stream_view (storage s) t else map_of ?m t)"
    by blast
  with Cons.prems show ?case by (auto simp: exec fun_eq_iff split: option.splits)
qed

lemma votes_loop_map: "map_of (votes_loop vs m) = (\<lambda>v. if v \<in> set vs then Some True else map_of m v)"
  by (induction vs m rule: votes_loop.induct) (auto simp: fun_eq_iff)

lemma votes_loop_ordered: "ordered m \<Longrightarrow> ordered (votes_loop vs m)"
  by (induction vs m rule: votes_loop.induct) (simp_all add: ordered_map_set)

lemma votes_loop_page: "map_of (votes_loop vs []) = (\<lambda>v. if v \<in> set vs then Some True else None)"
  by (simp add: votes_loop_map fun_eq_iff)

text \<open>The pages at the multiples of the page size cover the whole list.\<close>

lemma page_covers:
  assumes "y \<in> set xs" and "length xs < 2 ^ 32"
  shows "\<exists>i. 32 * i < length xs \<and> y \<in> set (page (of_nat (32 * i)) 32 xs)"
proof -
  from assms(1) obtain j where j: "j < length xs" "y = xs ! j" by (metis in_set_conv_nth)
  let ?i = "j div 32"
  have le: "32 * ?i \<le> j" "j < 32 * ?i + 32" by simp_all
  with j(1) assms(2) have off: "unat (of_nat (32 * ?i) :: u32) = 32 * ?i"
    by (intro unat_of_nat_small) simp
  have "take 32 (drop (32 * ?i) xs) ! (j - 32 * ?i) = y" using j le by simp
  moreover have "j - 32 * ?i < 32" "j - 32 * ?i < length xs - 32 * ?i" using j le by linarith+
  then have "j - 32 * ?i < length (take 32 (drop (32 * ?i) xs))" by simp
  ultimately have "y \<in> set (take 32 (drop (32 * ?i) xs))" by (metis nth_mem)
  then have "y \<in> set (page (of_nat (32 * ?i)) 32 xs)" unfolding page_def off by simp
  with j le show ?thesis by (intro exI [of _ ?i]) simp
qed

definition pageable :: "storage \<Rightarrow> bool" where
  "pageable \<sigma> \<longleftrightarrow>
     length (guardians_view \<sigma>) < 2 ^ 32 \<and> length (tasks_view \<sigma>) < 2 ^ 32 \<and>
     length (votes_view \<sigma>) < 2 ^ 32 \<and> length (streams_view \<sigma>) < 2 ^ 32"

text \<open>The configuration of the contract: all of it, field by field.\<close>

definition shows_config :: "storage \<Rightarrow> snapshot \<Rightarrow> bool" where
  "shows_config \<sigma> sn \<longleftrightarrow>
     sn_paused sn = paused_view \<sigma> \<and> sn_failure_count sn = failures_view \<sigma> \<and>
     sn_weight_threshold sn = threshold_view \<sigma> \<and> sn_admin sn = look as_address \<sigma> Admin \<and>
     sn_vault_address sn = vault_view \<sigma> \<and> sn_drips_address sn = look as_address \<sigma> DripsAddress"

text \<open>What a page contains.\<close>

definition shows_page :: "storage \<Rightarrow> u32 \<Rightarrow> u32 \<Rightarrow> snapshot \<Rightarrow> bool" where
  "shows_page \<sigma> offset limit sn \<longleftrightarrow>
     ordered (sn_guardians sn) \<and> ordered (sn_reputations sn) \<and> ordered (sn_tasks sn) \<and>
     ordered (sn_votes sn) \<and> ordered (sn_reward_streams sn) \<and>
     map_of (sn_guardians sn) = (\<lambda>g. if g \<in> set (page offset limit (guardians_view \<sigma>))
        then Some (guardian_view \<sigma> g) else None) \<and>
     map_of (sn_reputations sn) = (\<lambda>g. if g \<in> set (page offset limit (guardians_view \<sigma>))
        then reputation_view \<sigma> g else None) \<and>
     map_of (sn_tasks sn) = (\<lambda>t. if t \<in> set (page offset limit (tasks_view \<sigma>)) then active_view \<sigma> t else None) \<and>
     map_of (sn_votes sn) = (\<lambda>v. if v \<in> set (page offset limit (votes_view \<sigma>)) then Some True else None) \<and>
     map_of (sn_reward_streams sn) =
       (\<lambda>t. if t \<in> set (page offset limit (streams_view \<sigma>)) then stream_view \<sigma> t else None)"

lemma get_snapshot_exec:
  assumes wt: "well_typed (storage s)" and len: "pageable (storage s)"
  shows "\<exists>sn. get_snapshot offset limit C s = (Ok sn, s) \<and> shows_page (storage s) offset limit sn \<and>
     shows_config (storage s) sn"
proof -
  let ?\<sigma> = "storage s" and ?l = "min limit MAX_SNAPSHOT_BATCH_SIZE"
  from len have pages:
    "page_slice offset ?l (guardians_view ?\<sigma>) = ret (page offset limit (guardians_view ?\<sigma>))"
    "page_slice offset ?l (tasks_view ?\<sigma>) = ret (page offset limit (tasks_view ?\<sigma>))"
    "page_slice offset ?l (votes_view ?\<sigma>) = ret (page offset limit (votes_view ?\<sigma>))"
    "page_slice offset ?l (streams_view ?\<sigma>) = ret (page offset limit (streams_view ?\<sigma>))"
    by (simp_all add: pageable_def page_slice_exec)
  obtain gm rm where g: "guardians_loop (page offset limit (guardians_view ?\<sigma>)) [] [] C s = (Ok (gm, rm), s)"
    and go: "ordered gm" "ordered rm"
    and gm: "map_of gm = (\<lambda>g. if g \<in> set (page offset limit (guardians_view ?\<sigma>)) then Some (guardian_view ?\<sigma> g) else None)"
    and rm: "map_of rm = (\<lambda>g. if g \<in> set (page offset limit (guardians_view ?\<sigma>)) then reputation_view ?\<sigma> g else None)"
    using guardians_loop_exec [OF wt ordered_Nil ordered_Nil, of "page offset limit (guardians_view ?\<sigma>)" C]
    by (auto simp: fun_eq_iff)
  obtain tm where t: "tasks_loop (page offset limit (tasks_view ?\<sigma>)) [] C s = (Ok tm, s)" and to: "ordered tm"
    and tm: "map_of tm = (\<lambda>t. if t \<in> set (page offset limit (tasks_view ?\<sigma>)) then active_view ?\<sigma> t else None)"
    using tasks_loop_exec [OF wt ordered_Nil, of "page offset limit (tasks_view ?\<sigma>)" C] by (auto simp: fun_eq_iff)
  obtain rs where r: "streams_loop (page offset limit (streams_view ?\<sigma>)) [] C s = (Ok rs, s)" and ro: "ordered rs"
    and rs: "map_of rs = (\<lambda>t. if t \<in> set (page offset limit (streams_view ?\<sigma>)) then stream_view ?\<sigma> t else None)"
    using streams_loop_exec [OF wt ordered_Nil, of "page offset limit (streams_view ?\<sigma>)" C] by (auto simp: fun_eq_iff)
  have votes: "look_or as_votes [] ?\<sigma> AllVotes = votes_view ?\<sigma>" by (simp add: views)
  from wt show ?thesis
    by (simp add: get_snapshot_def exec Let_def votes pages bindM_OkI g t r
        shows_page_def shows_config_def gm rm tm rs votes_loop_page go to ro votes_loop_ordered
        DEFAULT_WEIGHT_THRESHOLD_def)
      (simp add: views)
qed

text \<open>The two predicates leave no freedom: they determine the snapshot.\<close>

lemma snapshot_unique:
  assumes "shows_page \<sigma> offset limit sn" "shows_config \<sigma> sn"
    and "shows_page \<sigma> offset limit sn'" "shows_config \<sigma> sn'"
  shows "sn = sn'"
proof (rule snapshot.equality)
  show "sn_guardians sn = sn_guardians sn'" "sn_reputations sn = sn_reputations sn'"
    "sn_tasks sn = sn_tasks sn'" "sn_votes sn = sn_votes sn'" "sn_reward_streams sn = sn_reward_streams sn'"
    by (rule ordered_map_eq; use assms(1,3) in \<open>simp add: shows_page_def\<close>)+
qed (use assms(2,4) in \<open>simp_all add: shows_config_def\<close>)

lemma get_snapshot_iff:
  assumes "well_typed (storage s)" and "pageable (storage s)"
  shows "get_snapshot offset limit C s = (Ok sn, s) \<longleftrightarrow>
    shows_page (storage s) offset limit sn \<and> shows_config (storage s) sn"
  using get_snapshot_exec [OF assms, of offset limit C] snapshot_unique by fastforce

end
