(* ===== verification/Vero_Gas.thy ===== *)
theory Vero_Gas
  imports Vero_Contract
begin

text \<open>
  \<open>src/src/gas.rs\<close>: the cost table, and the entry point of \<open>src/src/lib.rs\<close> that serves it.
  The formulas in the comments above the constants are not modelled.
\<close>

definition COST_REGISTER_TASK :: u64 where "COST_REGISTER_TASK = 1000000"
definition COST_VOTE :: u64 where "COST_VOTE = 1960000"
definition COST_ADD_GUARDIAN :: u64 where "COST_ADD_GUARDIAN = 700000"
definition COST_SET_REPUTATION :: u64 where "COST_SET_REPUTATION = 700000"
definition COST_LOCK_TOKENS :: u64 where "COST_LOCK_TOKENS = 1250000"
definition COST_UNLOCK_TOKENS :: u64 where "COST_UNLOCK_TOKENS = 1300000"
definition COST_RESIGN_GUARDIAN :: u64 where "COST_RESIGN_GUARDIAN = 1400000"
definition COST_SET_WEIGHT_THRESHOLD :: u64 where "COST_SET_WEIGHT_THRESHOLD = 650000"
definition COST_START_REWARD_STREAM :: u64 where "COST_START_REWARD_STREAM = 1330000"
definition COST_TOGGLE_PAUSE :: u64 where "COST_TOGGLE_PAUSE = 730000"
definition COST_RECORD_FAILURE :: u64 where "COST_RECORD_FAILURE = 880000"
definition COST_RESET_CIRCUIT_BREAKER :: u64 where "COST_RESET_CIRCUIT_BREAKER = 800000"
definition COST_UPGRADE_CONTRACT :: u64 where "COST_UPGRADE_CONTRACT = 2500000"

fun get_estimated_cost :: "operation \<Rightarrow> u64" where
  "get_estimated_cost RegisterTask = COST_REGISTER_TASK"
| "get_estimated_cost Vote = COST_VOTE"
| "get_estimated_cost AddGuardian = COST_ADD_GUARDIAN"
| "get_estimated_cost SetReputation = COST_SET_REPUTATION"
| "get_estimated_cost LockTokens = COST_LOCK_TOKENS"
| "get_estimated_cost UnlockTokens = COST_UNLOCK_TOKENS"
| "get_estimated_cost ResignGuardian = COST_RESIGN_GUARDIAN"
| "get_estimated_cost SetWeightThreshold = COST_SET_WEIGHT_THRESHOLD"
| "get_estimated_cost StartRewardStream = COST_START_REWARD_STREAM"
| "get_estimated_cost TogglePause = COST_TOGGLE_PAUSE"
| "get_estimated_cost RecordFailure = COST_RECORD_FAILURE"
| "get_estimated_cost ResetCircuitBreaker = COST_RESET_CIRCUIT_BREAKER"
| "get_estimated_cost UpgradeContract = COST_UPGRADE_CONTRACT"

definition get_estimated_cost_entry :: "operation \<Rightarrow> ('w, u64) contract" where
  "get_estimated_cost_entry op = ret (get_estimated_cost op)"

lemmas cost_defs =
  COST_REGISTER_TASK_def COST_VOTE_def COST_ADD_GUARDIAN_def COST_SET_REPUTATION_def
  COST_LOCK_TOKENS_def COST_UNLOCK_TOKENS_def COST_RESIGN_GUARDIAN_def
  COST_SET_WEIGHT_THRESHOLD_def COST_START_REWARD_STREAM_def COST_TOGGLE_PAUSE_def
  COST_RECORD_FAILURE_def COST_RESET_CIRCUIT_BREAKER_def COST_UPGRADE_CONTRACT_def

end
