(* ===== verification/Vero_Consensus_Tests.thy ===== *)
theory Vero_Consensus_Tests
  imports Vero_Consensus
begin

text \<open>
  The unit tests at the end of \<open>src/src/consensus.rs\<close>, as the predicates their assertions
  denote: an \<open>unwrap\<close> demands that the vote was accepted, an \<open>unwrap_err\<close> that it was not.
\<close>

definition test_apply_vote_resolves_at_threshold :: bool where
  "test_apply_vote_resolves_at_threshold \<longleftrightarrow>
     (let (r, state) = apply_vote consensus_new 300 300
      in r = Inr () \<and> cs_is_done state \<and> cs_total_weight_accrued state = 300 \<and> cs_votes state = 1)"

definition test_apply_vote_does_not_resolve_below_threshold :: bool where
  "test_apply_vote_does_not_resolve_below_threshold \<longleftrightarrow>
     (let (r, state) = apply_vote consensus_new 299 300
      in r = Inr () \<and> \<not> cs_is_done state \<and> cs_total_weight_accrued state = 299)"

definition test_apply_vote_resolves_above_threshold :: bool where
  "test_apply_vote_resolves_above_threshold \<longleftrightarrow>
     (let (r, state) = apply_vote consensus_new 500 300
      in r = Inr () \<and> cs_is_done state \<and> cs_total_weight_accrued state = 500)"

definition test_apply_vote_accumulates_across_multiple_votes :: bool where
  "test_apply_vote_accumulates_across_multiple_votes \<longleftrightarrow>
     (let (r1, state1) = apply_vote consensus_new 100 300;
          (r2, state2) = apply_vote state1 100 300;
          (r3, state3) = apply_vote state2 100 300
      in r1 = Inr () \<and> \<not> cs_is_done state1 \<and> r2 = Inr () \<and> \<not> cs_is_done state2 \<and>
         r3 = Inr () \<and> cs_is_done state3 \<and>
         cs_total_weight_accrued state3 = 300 \<and> cs_votes state3 = 3)"

definition test_apply_vote_rejects_zero_weight :: bool where
  "test_apply_vote_rejects_zero_weight \<longleftrightarrow>
     (let (err, state) = apply_vote consensus_new 0 300
      in err = Inl ConsensusZeroWeight \<and> \<not> cs_is_done state \<and> cs_total_weight_accrued state = 0)"

definition test_apply_vote_overflow_protection :: bool where
  "test_apply_vote_overflow_protection \<longleftrightarrow>
     (let (err, state) = apply_vote (consensus_new\<lparr>cs_total_weight_accrued := - 1\<rparr>) 1 300
      in err = Inl ConsensusWeightOverflow \<and> cs_total_weight_accrued state = - 1 \<and> \<not> cs_is_done state)"

definition test_votes_counter_saturates :: bool where
  "test_votes_counter_saturates \<longleftrightarrow>
     (let (r, state) = apply_vote (consensus_new\<lparr>cs_votes := - 1\<rparr>) 1 (- 1)
      in r = Inr () \<and> cs_votes state = - 1)"

definition test_is_done_monotone_once_set :: bool where
  "test_is_done_monotone_once_set \<longleftrightarrow>
     (let (r1, state1) = apply_vote consensus_new 300 300;
          (r2, state2) = apply_vote state1 100 300
      in r1 = Inr () \<and> cs_is_done state1 \<and> r2 = Inr () \<and> cs_is_done state2)"

definition test_zero_threshold_first_vote_resolves :: bool where
  "test_zero_threshold_first_vote_resolves \<longleftrightarrow>
     (let (r, state) = apply_vote consensus_new 1 0 in r = Inr () \<and> cs_is_done state)"

definition test_resolution_invariant_holds_after_vote :: bool where
  "test_resolution_invariant_holds_after_vote \<longleftrightarrow>
     (let (r, state) = apply_vote consensus_new 400 300
      in r = Inr () \<and> resolution_invariant_holds state 300)"

definition test_resolution_invariant_holds_before_threshold :: bool where
  "test_resolution_invariant_holds_before_threshold \<longleftrightarrow>
     (let (r, state) = apply_vote consensus_new 200 300
      in r = Inr () \<and> resolution_invariant_holds state 300 \<and> \<not> cs_is_done state)"

lemmas consensus_test_defs =
  test_apply_vote_resolves_at_threshold_def test_apply_vote_does_not_resolve_below_threshold_def
  test_apply_vote_resolves_above_threshold_def test_apply_vote_accumulates_across_multiple_votes_def
  test_apply_vote_rejects_zero_weight_def test_apply_vote_overflow_protection_def
  test_votes_counter_saturates_def test_is_done_monotone_once_set_def
  test_zero_threshold_first_vote_resolves_def test_resolution_invariant_holds_after_vote_def
  test_resolution_invariant_holds_before_threshold_def

definition consensus_suite :: "bool list" where
  "consensus_suite =
     [test_apply_vote_resolves_at_threshold, test_apply_vote_does_not_resolve_below_threshold,
      test_apply_vote_resolves_above_threshold, test_apply_vote_accumulates_across_multiple_votes,
      test_apply_vote_rejects_zero_weight, test_apply_vote_overflow_protection,
      test_votes_counter_saturates, test_is_done_monotone_once_set,
      test_zero_threshold_first_vote_resolves, test_resolution_invariant_holds_after_vote,
      test_resolution_invariant_holds_before_threshold]"

lemma consensus_suite_passes: "list_all (\<lambda>passed. passed) consensus_suite"
  by (simp add: consensus_suite_def consensus_test_defs apply_vote_cases consensus_new_def checked_add_def
      saturating_add_def resolution_invariant_holds_def Let_def
      unsigned_minus_1_eq_mask mask_eq_exp_minus_1)

end
