(* ===== verification/Vero_Tests.thy ===== *)
theory Vero_Tests
  imports Vero_Scenario Vero_Snapshot Vero_Gas Vero_Consensus_Tests
begin

text \<open>
  The integration tests of \<open>src/tests/test.rs\<close> and \<open>src/tests/init.rs\<close>, as scripts for the
  model.  A script is a list of steps: a call that has to succeed, a \<open>try_\<close> call that has to be
  refused, a mint of the test token, an assertion on what the readers return.  The environment
  is the one the tests set up: every signature is mocked, the ledger's clock is at zero, the
  token is a ledger of balances and the mock Drips contract accepts every stream.
\<close>

datatype test_step =
    Must call
  | Refused call
  | Mint address i128
  | Expect "demo_world ctx \<Rightarrow> demo_world env \<Rightarrow> bool"

definition returns :: "(demo_world, 'a) contract \<Rightarrow> ('a \<Rightarrow> bool) \<Rightarrow> test_step" where
  "returns m p = Expect (\<lambda>C s. case fst (invoke m C s) of Ok a \<Rightarrow> p a | _ \<Rightarrow> False)"

definition test_mint :: "address \<Rightarrow> address \<Rightarrow> i128 \<Rightarrow> demo_world \<Rightarrow> demo_world" where
  "test_mint token a n w =
     w\<lparr>d_balance := (d_balance w)(token := (d_balance w token)(a := d_balance w token a + nat (sint n)))\<rparr>"

fun passes :: "demo_world ctx \<Rightarrow> test_step list \<Rightarrow> demo_world env \<Rightarrow> bool" where
  "passes C [] s = True"
| "passes C (Must c # ts) s =
     (case invoke (run_call c) C s of (Ok _, s') \<Rightarrow> passes C ts s' | _ \<Rightarrow> False)"
| "passes C (Refused c # ts) s =
     (case fst (invoke (run_call c) C s) of Ok _ \<Rightarrow> False | _ \<Rightarrow> passes C ts s)"
| "passes C (Mint a n # ts) s = passes C ts (s\<lparr>world := test_mint token1 a n (world s)\<rparr>)"
| "passes C (Expect p # ts) s = (p C s \<and> passes C ts s)"

definition test_ctx :: "demo_world ctx" where
  "test_ctx =
     \<lparr>authorized = (\<lambda>_. True), timestamp = 0, extend_live = (\<lambda>n m l. max l m), self = Address 0,
      externs = demo_externs\<rparr>"

definition test_env :: "demo_world env" where
  "test_env =
     \<lparr>storage = Map.empty, events = [], live_until = 0, wasm_update = None,
      world = \<lparr>d_balance = (\<lambda>token a. 0), d_released = []\<rparr>\<rparr>"

definition test_setup :: "test_step list" where
  "test_setup = [Must (C_initialize token1 100)]"

definition lock_for_guardian :: "address \<Rightarrow> i128 \<Rightarrow> test_step list" where
  "lock_for_guardian g n = [Mint g n, Must (C_lock_tokens g n)]"

definition add_guardian_with_rep :: "address \<Rightarrow> u64 \<Rightarrow> test_step list" where
  "add_guardian_with_rep g score =
     [Must (C_add_guardian admin1 g), Must (C_set_reputation admin1 g score)] @ lock_for_guardian g 101"

abbreviation g1 :: address where "g1 \<equiv> Address 21"
abbreviation g2 :: address where "g2 \<equiv> Address 22"
abbreviation g3 :: address where "g3 \<equiv> Address 23"
abbreviation g4 :: address where "g4 \<equiv> Address 24"
abbreviation g5 :: address where "g5 \<equiv> Address 25"

definition all_operations :: "operation list" where
  "all_operations =
     [RegisterTask, Vote, AddGuardian, SetReputation, LockTokens, UnlockTokens, ResignGuardian,
      SetWeightThreshold, StartRewardStream, TogglePause, RecordFailure, ResetCircuitBreaker, UpgradeContract]"

section \<open>The scripts\<close>

definition test_add_guardian_and_register_task :: "test_step list" where
  "test_add_guardian_and_register_task =
     test_setup @
     [Must (C_add_guardian admin1 g1), Must (C_register_task admin1 1),
     returns (get_task 1) (\<lambda>x. case x of None \<Rightarrow> False | Some t \<Rightarrow> t_id t = 1 \<and> t_votes t = 0 \<and> t_total_weight_accrued t = 0 \<and> t_resolved_at t = 0 \<and> \<not> t_is_done t)]"

definition test_set_and_get_reputation :: "test_step list" where
  "test_set_and_get_reputation =
     test_setup @
     [Must (C_add_guardian admin1 g1), Must (C_set_reputation admin1 g1 500),
     returns (get_reputation g1) (\<lambda>x. x = Some 500),
     returns (calculate_voting_power g1) (\<lambda>x. x = Some 500)]"

definition test_calculate_voting_power_returns_score :: "test_step list" where
  "test_calculate_voting_power_returns_score =
     test_setup @
     [Must (C_add_guardian admin1 g1), Must (C_set_reputation admin1 g1 150),
     returns (calculate_voting_power g1) (\<lambda>x. x = Some 150)]"

definition test_calculate_voting_power_none_for_unset :: "test_step list" where
  "test_calculate_voting_power_none_for_unset =
     test_setup @
     [returns (calculate_voting_power g1) (\<lambda>x. x = None)]"

definition test_single_high_rep_guardian_resolves_task :: "test_step list" where
  "test_single_high_rep_guardian_resolves_task =
     test_setup @
     [Must (C_set_weight_threshold admin1 300)] @
     add_guardian_with_rep g1 300 @
     [Must (C_register_task admin1 1)] @
     lock_for_guardian g1 101 @
     [Must (C_vote g1 1),
     returns (get_task 1) (\<lambda>x. case x of None \<Rightarrow> False | Some t \<Rightarrow> t_votes t = 1 \<and> t_total_weight_accrued t = 300 \<and> t_is_done t)]"

definition test_multiple_low_rep_guardians_accumulate_weight :: "test_step list" where
  "test_multiple_low_rep_guardians_accumulate_weight =
     test_setup @
     [Must (C_set_weight_threshold admin1 300)] @
     add_guardian_with_rep g1 100 @
     add_guardian_with_rep g2 100 @
     add_guardian_with_rep g3 100 @
     [Must (C_register_task admin1 42), Must (C_vote g1 42), Must (C_vote g2 42), Must (C_vote g3 42),
     returns (get_task 42) (\<lambda>x. case x of None \<Rightarrow> False | Some t \<Rightarrow> t_votes t = 3 \<and> t_is_done t)]"

definition test_weight_vs_count_logic :: "test_step list" where
  "test_weight_vs_count_logic =
     test_setup @
     [Must (C_set_weight_threshold admin1 300)] @
     add_guardian_with_rep g1 200 @
     add_guardian_with_rep g2 150 @
     [Must (C_register_task admin1 20)] @
     lock_for_guardian g1 101 @
     lock_for_guardian g2 101 @
     [Must (C_vote g1 20), Must (C_vote g2 20),
     returns (get_task 20) (\<lambda>x. case x of None \<Rightarrow> False | Some t \<Rightarrow> t_votes t = 2 \<and> t_total_weight_accrued t = 350 \<and> t_is_done t)]"

definition test_many_low_rep_guardians_cannot_resolve_without_enough_weight :: "test_step list" where
  "test_many_low_rep_guardians_cannot_resolve_without_enough_weight =
     test_setup @
     [Must (C_set_weight_threshold admin1 300)] @
     concat (map (\<lambda>g. add_guardian_with_rep g 50) [g1, g2, g3, g4, g5]) @
     [Must (C_register_task admin1 10)] @
     concat (map (\<lambda>g. lock_for_guardian g 101 @ [Must (C_vote g 10)]) [g1, g2, g3, g4, g5]) @
     [returns (get_task 10) (\<lambda>x. case x of None \<Rightarrow> False | Some t \<Rightarrow> t_votes t = 5 \<and> t_total_weight_accrued t = 250 \<and> \<not> t_is_done t)]"

definition test_task_resolved_includes_final_weight :: "test_step list" where
  "test_task_resolved_includes_final_weight =
     test_setup @
     [Must (C_set_weight_threshold admin1 100)] @
     add_guardian_with_rep g1 42 @
     add_guardian_with_rep g2 73 @
     [Must (C_register_task admin1 40)] @
     lock_for_guardian g1 101 @
     lock_for_guardian g2 101 @
     [Must (C_vote g1 40), Must (C_vote g2 40),
     returns (get_task 40) (\<lambda>x. case x of None \<Rightarrow> False | Some t \<Rightarrow> t_total_weight_accrued t = 115 \<and> t_is_done t)]"

definition test_vote_rejects_missing_or_zero_reputation :: "test_step list" where
  "test_vote_rejects_missing_or_zero_reputation =
     test_setup @
     [Must (C_add_guardian admin1 g1)] @
     lock_for_guardian g1 101 @
     [Must (C_add_guardian admin1 g2), Must (C_set_reputation admin1 g2 0)] @
     lock_for_guardian g2 101 @
     [Must (C_register_task admin1 11), Refused (C_vote g1 11), Refused (C_vote g2 11)]"

definition test_custom_weight_threshold :: "test_step list" where
  "test_custom_weight_threshold =
     test_setup @
     [returns get_weight_threshold (\<lambda>x. x = 300), Must (C_set_weight_threshold admin1 1000),
     returns get_weight_threshold (\<lambda>x. x = 1000)]"

definition test_vote_rejected_without_reputation :: "test_step list" where
  "test_vote_rejected_without_reputation =
     test_setup @
     [Must (C_add_guardian admin1 g1), Must (C_register_task admin1 7)] @
     lock_for_guardian g1 101 @
     [Refused (C_vote g1 7)]"

definition test_token_locking_rules :: "test_step list" where
  "test_token_locking_rules =
     test_setup @
     [Must (C_add_guardian admin1 g1), Must (C_set_reputation admin1 g1 100),
     Must (C_register_task admin1 12), Must (C_register_task admin1 99), Refused (C_vote g1 12)] @
     lock_for_guardian g1 100 @
     [Refused (C_vote g1 12), Refused (C_vote g2 99)]"

definition test_vote_on_nonexistent_task_rejected :: "test_step list" where
  "test_vote_on_nonexistent_task_rejected =
     test_setup @
     add_guardian_with_rep g1 100 @
     [Refused (C_vote g1 999)]"

definition test_reputation_can_be_updated :: "test_step list" where
  "test_reputation_can_be_updated =
     test_setup @
     [Must (C_add_guardian admin1 g1), Must (C_set_reputation admin1 g1 100),
     returns (get_reputation g1) (\<lambda>x. x = Some 100), Must (C_set_reputation admin1 g1 500),
     returns (get_reputation g1) (\<lambda>x. x = Some 500),
     returns (calculate_voting_power g1) (\<lambda>x. x = Some 500)]"

definition test_reward_stream_rejected_for_unverified_task :: "test_step list" where
  "test_reward_stream_rejected_for_unverified_task =
     test_setup @
     [Must (C_register_task admin1 10), Refused (C_start_reward_stream admin1 drips1 carol 10)]"

definition test_reward_stream_rejected_until_task_verified :: "test_step list" where
  "test_reward_stream_rejected_until_task_verified =
     test_setup @
     [Refused (C_start_reward_stream admin1 drips1 carol 999)]"

definition test_reward_stream_duplicate_rejected :: "test_step list" where
  "test_reward_stream_duplicate_rejected =
     test_setup @
     add_guardian_with_rep g1 100 @
     add_guardian_with_rep g2 100 @
     add_guardian_with_rep g3 100 @
     [Must (C_register_task admin1 50), Must (C_vote g1 50), Must (C_vote g2 50), Must (C_vote g3 50),
     Must (C_start_reward_stream admin1 drips1 carol 50),
     Refused (C_start_reward_stream admin1 drips1 carol 50)]"

definition test_reward_stream_stored_after_success :: "test_step list" where
  "test_reward_stream_stored_after_success =
     test_setup @
     add_guardian_with_rep g4 300 @
     add_guardian_with_rep g1 100 @
     add_guardian_with_rep g2 100 @
     add_guardian_with_rep g3 100 @
     [Must (C_register_task admin1 77), Must (C_vote g1 77), Must (C_vote g2 77), Must (C_vote g3 77),
     Must (C_start_reward_stream admin1 drips1 carol 77),
     returns (get_reward_stream 77) (\<lambda>x. case x of None \<Rightarrow> False | Some r \<Rightarrow> rs_task_id r = 77 \<and> rs_contributor r = carol \<and> rs_active r)]"

definition test_voting_fails_if_tokens_not_locked :: "test_step list" where
  "test_voting_fails_if_tokens_not_locked =
     test_setup @
     [Must (C_add_guardian admin1 g1), Must (C_set_reputation admin1 g1 100),
     Must (C_register_task admin1 100), Refused (C_vote g1 100)]"

definition test_admin_pause_and_circuit_breaker :: "test_step list" where
  "test_admin_pause_and_circuit_breaker =
     test_setup @
     [Must (C_add_guardian admin1 g1), Must (C_set_reputation admin1 g1 100),
     Must (C_register_task admin1 100)] @
     lock_for_guardian g1 100 @
     [Refused (C_vote g1 100)] @
     lock_for_guardian g1 1 @
     [Must (C_vote g1 100),
     returns (get_task 100) (\<lambda>x. case x of None \<Rightarrow> False | Some t \<Rightarrow> t_votes t = 1)]"

definition test_resign_guardian_refunds_tokens :: "test_step list" where
  "test_resign_guardian_refunds_tokens =
     test_setup @
     [Must (C_add_guardian admin1 g1)] @
     lock_for_guardian g1 200 @
     [Must (C_resign_guardian g1), returns (is_guardian g1) (\<lambda>b. \<not> b),
     Expect (\<lambda>C s. d_balance (world s) token1 g1 = 200)]"

definition test_unlock_fails_while_guardian :: "test_step list" where
  "test_unlock_fails_while_guardian =
     test_setup @
     [Must (C_add_guardian admin1 g1)] @
     lock_for_guardian g1 200 @
     [Refused (C_unlock_tokens g1)]"

definition test_unlock_succeeds_for_non_guardian :: "test_step list" where
  "test_unlock_succeeds_for_non_guardian =
     test_setup @
     lock_for_guardian g1 150 @
     [Must (C_unlock_tokens g1), Expect (\<lambda>C s. d_balance (world s) token1 g1 = 150)]"

definition test_lock_released_after_successful_vote :: "test_step list" where
  "test_lock_released_after_successful_vote =
     test_setup @
     add_guardian_with_rep g1 100 @
     add_guardian_with_rep g2 100 @
     [Must (C_register_task admin1 202)] @
     lock_for_guardian g1 101 @
     lock_for_guardian g2 101 @
     [Must (C_vote g1 202), Must (C_vote g2 202),
     returns (get_task 202) (\<lambda>x. case x of None \<Rightarrow> False | Some t \<Rightarrow> t_votes t = 2)]"

definition test_lock_released_after_successful_register_task :: "test_step list" where
  "test_lock_released_after_successful_register_task =
     test_setup @
     [Must (C_register_task admin1 300), Must (C_register_task admin1 301),
     returns (get_task 300) (\<lambda>x. x \<noteq> None),
     returns (get_task 301) (\<lambda>x. x \<noteq> None)]"

definition test_lock_released_after_failed_vote :: "test_step list" where
  "test_lock_released_after_failed_vote =
     test_setup @
     add_guardian_with_rep g1 100 @
     [Must (C_register_task admin1 303), Refused (C_vote g2 303)] @
     lock_for_guardian g1 101 @
     [Must (C_vote g1 303),
     returns (get_task 303) (\<lambda>x. case x of None \<Rightarrow> False | Some t \<Rightarrow> t_votes t = 1)]"

definition test_admin_can_toggle_pause :: "test_step list" where
  "test_admin_can_toggle_pause =
     test_setup @
     [returns is_paused (\<lambda>b. \<not> b), returns is_paused (\<lambda>b. \<not> b),
     Must (C_toggle_pause admin1), returns is_paused (\<lambda>b. b), Must (C_toggle_pause admin1),
     returns is_paused (\<lambda>b. \<not> b)]"

definition test_admin_can_pause_and_unpause :: "test_step list" where
  "test_admin_can_pause_and_unpause =
     test_setup @
     [Must (C_pause admin1), returns is_paused (\<lambda>b. b), Must (C_unpause admin1),
     returns is_paused (\<lambda>b. \<not> b)]"

definition test_contract_paused_error_on_register_task :: "test_step list" where
  "test_contract_paused_error_on_register_task =
     test_setup @
     replicate 51 (Must C_record_failure) @
     [returns is_paused (\<lambda>b. b), Refused (C_register_task admin1 1)]"

definition test_circuit_breaker_paused_contract_rejects_register_task :: "test_step list" where
  "test_circuit_breaker_paused_contract_rejects_register_task =
     test_setup @
     replicate 51 (Must C_record_failure) @
     [returns is_paused (\<lambda>b. b), Refused (C_register_task admin1 2)]"

definition test_contract_paused_error_on_vote :: "test_step list" where
  "test_contract_paused_error_on_vote =
     test_setup @
     add_guardian_with_rep g1 300 @
     [Must (C_register_task admin1 1)] @
     lock_for_guardian g1 101 @
     [Must (C_toggle_pause admin1), Refused (C_vote g1 1)]"

definition test_contract_paused_error_on_add_guardian :: "test_step list" where
  "test_contract_paused_error_on_add_guardian =
     test_setup @
     [Must (C_toggle_pause admin1), Refused (C_add_guardian admin1 g1)]"

definition test_contract_paused_error_on_set_reputation :: "test_step list" where
  "test_contract_paused_error_on_set_reputation =
     test_setup @
     [Must (C_add_guardian admin1 g1), Must (C_toggle_pause admin1), Refused (C_set_reputation admin1 g1 100)]"

definition test_operations_resume_after_unpause :: "test_step list" where
  "test_operations_resume_after_unpause =
     test_setup @
     add_guardian_with_rep g1 300 @
     [Must (C_toggle_pause admin1), Refused (C_register_task admin1 1), Must (C_toggle_pause admin1),
     Must (C_register_task admin1 1)] @
     lock_for_guardian g1 101 @
     [Must (C_vote g1 1),
     returns (get_task 1) (\<lambda>x. case x of None \<Rightarrow> False | Some t \<Rightarrow> t_is_done t)]"

definition test_paused_contract_rejects_register_task :: "test_step list" where
  "test_paused_contract_rejects_register_task =
     test_setup @
     [Must (C_pause admin1), returns is_paused (\<lambda>b. b), Refused (C_register_task admin1 2),
     Must (C_unpause admin1), returns is_paused (\<lambda>b. \<not> b), Must (C_register_task admin1 2),
     returns (get_task 2) (\<lambda>x. x \<noteq> None)]"

definition test_paused_contract_rejects_vote :: "test_step list" where
  "test_paused_contract_rejects_vote =
     test_setup @
     [Must (C_register_task admin1 1)] @
     add_guardian_with_rep g1 100 @
     lock_for_guardian g1 101 @
     [Must (C_pause admin1), returns is_paused (\<lambda>b. b), Refused (C_vote g1 1)]"

definition test_circuit_breaker_trips_after_threshold :: "test_step list" where
  "test_circuit_breaker_trips_after_threshold =
     test_setup @
     replicate 51 (Must C_record_failure) @
     [returns is_paused (\<lambda>b. b)]"

definition test_paused_contract_rejects_vote_via_circuit_breaker :: "test_step list" where
  "test_paused_contract_rejects_vote_via_circuit_breaker =
     test_setup @
     [Must (C_register_task admin1 1)] @
     add_guardian_with_rep g1 100 @
     lock_for_guardian g1 101 @
     replicate 51 (Must C_record_failure) @
     [returns is_paused (\<lambda>b. b), Refused (C_vote g1 1)]"

definition test_admin_can_reset_circuit_breaker :: "test_step list" where
  "test_admin_can_reset_circuit_breaker =
     test_setup @
     [Must (C_register_task admin1 1)] @
     add_guardian_with_rep g1 100 @
     lock_for_guardian g1 101 @
     replicate 51 (Must C_record_failure) @
     [returns is_paused (\<lambda>b. b), Must (C_reset_circuit_breaker admin1),
     returns is_paused (\<lambda>b. \<not> b), Must (C_vote g1 1)]"

definition debug_circuit_breaker_count :: "test_step list" where
  "debug_circuit_breaker_count =
     test_setup @
     replicate 50 (Must C_record_failure) @
     [returns is_paused (\<lambda>b. \<not> b), Must C_record_failure, returns is_paused (\<lambda>b. b)]"

definition test_all_operations_return_nonzero_cost :: "test_step list" where
  "test_all_operations_return_nonzero_cost =
     test_setup @
     map (\<lambda>op. returns (get_estimated_cost_entry op) (\<lambda>cost. cost > 0))
       all_operations"

definition test_vote_is_most_expensive_write_operation :: "test_step list" where
  "test_vote_is_most_expensive_write_operation =
     test_setup @
     map (\<lambda>op. returns (get_estimated_cost_entry op) (\<lambda>cost. get_estimated_cost Vote \<ge> cost))
       (filter (\<lambda>op. op \<notin> {Vote, UpgradeContract}) all_operations)"

definition test_upgrade_contract_is_overall_maximum :: "test_step list" where
  "test_upgrade_contract_is_overall_maximum =
     test_setup @
     map (\<lambda>op. returns (get_estimated_cost_entry op) (\<lambda>cost. get_estimated_cost UpgradeContract \<ge> cost))
       (filter (\<lambda>op. op \<noteq> UpgradeContract) all_operations)"

definition test_cost_spot_checks :: "test_step list" where
  "test_cost_spot_checks =
     test_setup @
     map (\<lambda>(op, n). returns (get_estimated_cost_entry op) (\<lambda>cost. cost = n))
       [(SetWeightThreshold, 650000), (SetReputation, 700000), (AddGuardian, 700000),
       (TogglePause, 730000), (ResetCircuitBreaker, 800000), (RecordFailure, 880000),
       (RegisterTask, 1000000), (LockTokens, 1250000), (StartRewardStream, 1330000),
       (UnlockTokens, 1300000), (ResignGuardian, 1400000), (Vote, 1960000), (UpgradeContract, 2500000)]"

definition test_all_costs_above_base_invocation_overhead :: "test_step list" where
  "test_all_costs_above_base_invocation_overhead =
     test_setup @
     map (\<lambda>op. returns (get_estimated_cost_entry op) (\<lambda>cost. cost > 500000))
       all_operations"

definition test_logic_version :: "test_step list" where
  "test_logic_version =
     test_setup @
     [returns get_version (\<lambda>x. x = 1)]"

definition test_get_snapshot_pagination :: "test_step list" where
  "test_get_snapshot_pagination =
     test_setup @
     add_guardian_with_rep g1 100 @
     add_guardian_with_rep g2 200 @
     [Must (C_register_task admin1 1), Must (C_register_task admin1 2), Expect (\<lambda>C s.
       case (fst (invoke (get_snapshot 0 1) C s), fst (invoke (get_snapshot 1 1) C s)) of
         (Ok snap1, Ok snap2) \<Rightarrow>
           length (sn_guardians snap1) = 1 \<and> length (sn_tasks snap1) = 1 \<and>
           length (sn_guardians snap2) = 1 \<and> length (sn_tasks snap2) = 1 \<and>
           fst (hd (sn_guardians snap1)) \<noteq> fst (hd (sn_guardians snap2)) \<and>
           fst (hd (sn_tasks snap1)) \<noteq> fst (hd (sn_tasks snap2))
       | _ \<Rightarrow> False)]"

definition test_estimated_cost_requires_no_auth :: "test_step list" where
  "test_estimated_cost_requires_no_auth =
     [returns (get_estimated_cost_entry Vote) (\<lambda>cost. cost > 0)]"

definition test_registry_starts_clean :: "test_step list" where
  "test_registry_starts_clean =
     [returns (get_task 1) (\<lambda>x. x = None), returns (get_reward_stream 1) (\<lambda>x. x = None),
     returns get_weight_threshold (\<lambda>x. x = 300),
     returns (calculate_voting_power g1) (\<lambda>x. x = None),
     returns (get_reputation g1) (\<lambda>x. x = None)]"

definition test_reinitialize_reverts :: "test_step list" where
  "test_reinitialize_reverts =
     [Must (C_initialize token1 100), Refused (C_initialize token1 100)]"

definition test_suite :: "test_step list list" where
  "test_suite =
     [test_add_guardian_and_register_task,
      test_set_and_get_reputation,
      test_calculate_voting_power_returns_score,
      test_calculate_voting_power_none_for_unset,
      test_single_high_rep_guardian_resolves_task,
      test_multiple_low_rep_guardians_accumulate_weight,
      test_weight_vs_count_logic,
      test_many_low_rep_guardians_cannot_resolve_without_enough_weight,
      test_task_resolved_includes_final_weight,
      test_vote_rejects_missing_or_zero_reputation,
      test_custom_weight_threshold,
      test_vote_rejected_without_reputation,
      test_token_locking_rules,
      test_vote_on_nonexistent_task_rejected,
      test_reputation_can_be_updated,
      test_reward_stream_rejected_for_unverified_task,
      test_reward_stream_rejected_until_task_verified,
      test_reward_stream_duplicate_rejected,
      test_reward_stream_stored_after_success,
      test_voting_fails_if_tokens_not_locked,
      test_admin_pause_and_circuit_breaker,
      test_resign_guardian_refunds_tokens,
      test_unlock_fails_while_guardian,
      test_unlock_succeeds_for_non_guardian,
      test_lock_released_after_successful_vote,
      test_lock_released_after_successful_register_task,
      test_lock_released_after_failed_vote,
      test_admin_can_toggle_pause,
      test_admin_can_pause_and_unpause,
      test_contract_paused_error_on_register_task,
      test_circuit_breaker_paused_contract_rejects_register_task,
      test_contract_paused_error_on_vote,
      test_contract_paused_error_on_add_guardian,
      test_contract_paused_error_on_set_reputation,
      test_operations_resume_after_unpause,
      test_paused_contract_rejects_register_task,
      test_paused_contract_rejects_vote,
      test_circuit_breaker_trips_after_threshold,
      test_paused_contract_rejects_vote_via_circuit_breaker,
      test_admin_can_reset_circuit_breaker,
      debug_circuit_breaker_count,
      test_all_operations_return_nonzero_cost,
      test_vote_is_most_expensive_write_operation,
      test_upgrade_contract_is_overall_maximum,
      test_cost_spot_checks,
      test_all_costs_above_base_invocation_overhead,
      test_logic_version,
      test_get_snapshot_pagination,
      test_registry_starts_clean,
      test_reinitialize_reverts]"

section \<open>They pass\<close>

text \<open>The failure reports of the circuit breaker tests, in one step.\<close>

lemma report_failure:
  assumes "well_typed (storage s)" and "\<not> paused_view (storage s)" and "unat (failures_view (storage s)) + 1 \<le> 50"
  shows "passes C (Must C_record_failure # ts) s =
    passes C ts (s\<lparr>storage := (storage s)(FailureCount \<mapsto> VU32 (failures_view (storage s) + 1))\<rparr>)"
proof -
  have add: "unat (failures_view (storage s) + 1) = unat (failures_view (storage s)) + 1"
    using assms(3) by (simp add: unat_plus_no_overflow)
  with assms(3) have "\<not> failures_view (storage s) + 1 > 50" by (simp add: word_less_nat_alt)
  moreover from assms(3) have "checked_add (failures_view (storage s)) 1 = Some (failures_view (storage s) + 1)"
    by (simp add: checked_add_def)
  ultimately show ?thesis using assms(1) by (simp add: invoke_def record_failure_def record_failure_exec)
qed

lemma report_failures:
  assumes "well_typed (storage s)" and "\<not> paused_view (storage s)"
    and "unat (failures_view (storage s)) + Suc n \<le> 50"
  shows "passes C (replicate (Suc n) (Must C_record_failure) @ ts) s =
    passes C ts (s\<lparr>storage := (storage s)(FailureCount \<mapsto> VU32 (failures_view (storage s) + of_nat (Suc n)))\<rparr>)"
  using assms
proof (induction n arbitrary: s)
  case 0
  note one = report_failure [OF 0(1,2) 0(3) [folded One_nat_def], of C ts]
  have n: "of_nat (Suc 0) = (1 :: u32)" by simp
  show ?case unfolding replicate_Suc replicate_0 append_Cons append_Nil n by (rule one)
next
  case (Suc n)
  let ?f = "failures_view (storage s)"
  let ?s = "s\<lparr>storage := (storage s)(FailureCount \<mapsto> VU32 (?f + 1))\<rparr>"
  have f: "failures_view (storage ?s) = ?f + 1" "\<not> paused_view (storage ?s)" "well_typed (storage ?s)"
    using Suc.prems by (simp_all add: views)
  have "unat (?f + 1) = unat ?f + 1"
    using Suc.prems(3) by (simp add: unat_plus_no_overflow)
  with f Suc.prems(3) have le: "unat (failures_view (storage ?s)) + Suc n \<le> 50" by simp
  have "passes C (replicate (Suc (Suc n)) (Must C_record_failure) @ ts) s =
      passes C (replicate (Suc n) (Must C_record_failure) @ ts) ?s"
    using report_failure [of s C "replicate (Suc n) (Must C_record_failure) @ ts"] Suc.prems by simp
  also have "\<dots> = passes C ts (s\<lparr>storage := (storage s)(FailureCount \<mapsto> VU32 (?f + of_nat (Suc (Suc n))))\<rparr>)"
    unfolding Suc.IH [OF f(3,2) le] f(1) by (simp add: add.assoc)
  finally show ?case .
qed

lemmas fifty_failures = report_failures [of _ 49, simplified]

lemma fifty_one: "replicate 51 x @ ts = replicate 50 x @ x # ts"
  using replicate_add [of 50 1 x] by simp

lemmas script_exec =
  test_setup_def lock_for_guardian_def add_guardian_with_rep_def returns_def test_ctx_def test_env_def
  demo_externs_def demo_transfer_def test_mint_def all_operations_def cost_defs get_estimated_cost_entry_def
  invoke_def plain_exec guarded_exec register_tasks_exec registrable_def fresh_id_def lock_held_def vec_len_def
  vote_exec tally_def payout_def reaches_def voted_env_def start_reward_stream_exec start_drips_stream_exec
  new_stream_def new_task_def checked_add_signed_def checked_add_def
  get_task_def get_reputation_def calculate_voting_power_def get_weight_threshold_def DEFAULT_WEIGHT_THRESHOLD_def
  is_guardian_def is_paused_def get_reward_stream_def get_version_def VERSION_def
  get_snapshot_def page_slice_def vec_slice_def MAX_SNAPSHOT_BATCH_SIZE_def saturating_add_def
  fifty_one fifty_failures views exec Let_def

lemma test_add_guardian_and_register_task_passes [simp]:
  "passes test_ctx test_add_guardian_and_register_task test_env"
  by (simp add: test_add_guardian_and_register_task_def script_exec)

lemma test_set_and_get_reputation_passes [simp]:
  "passes test_ctx test_set_and_get_reputation test_env"
  by (simp add: test_set_and_get_reputation_def script_exec)

lemma test_calculate_voting_power_returns_score_passes [simp]:
  "passes test_ctx test_calculate_voting_power_returns_score test_env"
  by (simp add: test_calculate_voting_power_returns_score_def script_exec)

lemma test_calculate_voting_power_none_for_unset_passes [simp]:
  "passes test_ctx test_calculate_voting_power_none_for_unset test_env"
  by (simp add: test_calculate_voting_power_none_for_unset_def script_exec)

lemma test_single_high_rep_guardian_resolves_task_passes [simp]:
  "passes test_ctx test_single_high_rep_guardian_resolves_task test_env"
  by (simp add: test_single_high_rep_guardian_resolves_task_def script_exec)

lemma test_multiple_low_rep_guardians_accumulate_weight_passes [simp]:
  "passes test_ctx test_multiple_low_rep_guardians_accumulate_weight test_env"
  by (simp add: test_multiple_low_rep_guardians_accumulate_weight_def script_exec)

lemma test_weight_vs_count_logic_passes [simp]:
  "passes test_ctx test_weight_vs_count_logic test_env"
  by (simp add: test_weight_vs_count_logic_def script_exec)

lemma test_many_low_rep_guardians_cannot_resolve_without_enough_weight_passes [simp]:
  "passes test_ctx test_many_low_rep_guardians_cannot_resolve_without_enough_weight test_env"
  by (simp add: test_many_low_rep_guardians_cannot_resolve_without_enough_weight_def script_exec)

lemma test_task_resolved_includes_final_weight_passes [simp]:
  "passes test_ctx test_task_resolved_includes_final_weight test_env"
  by (simp add: test_task_resolved_includes_final_weight_def script_exec)

lemma test_vote_rejects_missing_or_zero_reputation_passes [simp]:
  "passes test_ctx test_vote_rejects_missing_or_zero_reputation test_env"
  by (simp add: test_vote_rejects_missing_or_zero_reputation_def script_exec)

lemma test_custom_weight_threshold_passes [simp]:
  "passes test_ctx test_custom_weight_threshold test_env"
  by (simp add: test_custom_weight_threshold_def script_exec)

lemma test_vote_rejected_without_reputation_passes [simp]:
  "passes test_ctx test_vote_rejected_without_reputation test_env"
  by (simp add: test_vote_rejected_without_reputation_def script_exec)

lemma test_token_locking_rules_passes [simp]:
  "passes test_ctx test_token_locking_rules test_env"
  by (simp add: test_token_locking_rules_def script_exec)

lemma test_vote_on_nonexistent_task_rejected_passes [simp]:
  "passes test_ctx test_vote_on_nonexistent_task_rejected test_env"
  by (simp add: test_vote_on_nonexistent_task_rejected_def script_exec)

lemma test_reputation_can_be_updated_passes [simp]:
  "passes test_ctx test_reputation_can_be_updated test_env"
  by (simp add: test_reputation_can_be_updated_def script_exec)

lemma test_reward_stream_rejected_for_unverified_task_passes [simp]:
  "passes test_ctx test_reward_stream_rejected_for_unverified_task test_env"
  by (simp add: test_reward_stream_rejected_for_unverified_task_def script_exec)

lemma test_reward_stream_rejected_until_task_verified_passes [simp]:
  "passes test_ctx test_reward_stream_rejected_until_task_verified test_env"
  by (simp add: test_reward_stream_rejected_until_task_verified_def script_exec)

lemma test_reward_stream_duplicate_rejected_passes [simp]:
  "passes test_ctx test_reward_stream_duplicate_rejected test_env"
  by (simp add: test_reward_stream_duplicate_rejected_def script_exec)

lemma test_reward_stream_stored_after_success_passes [simp]:
  "passes test_ctx test_reward_stream_stored_after_success test_env"
  by (simp add: test_reward_stream_stored_after_success_def script_exec)

lemma test_voting_fails_if_tokens_not_locked_passes [simp]:
  "passes test_ctx test_voting_fails_if_tokens_not_locked test_env"
  by (simp add: test_voting_fails_if_tokens_not_locked_def script_exec)

lemma test_admin_pause_and_circuit_breaker_passes [simp]:
  "passes test_ctx test_admin_pause_and_circuit_breaker test_env"
  by (simp add: test_admin_pause_and_circuit_breaker_def script_exec)

lemma test_resign_guardian_refunds_tokens_passes [simp]:
  "passes test_ctx test_resign_guardian_refunds_tokens test_env"
  by (simp add: test_resign_guardian_refunds_tokens_def script_exec)

lemma test_unlock_fails_while_guardian_passes [simp]:
  "passes test_ctx test_unlock_fails_while_guardian test_env"
  by (simp add: test_unlock_fails_while_guardian_def script_exec)

lemma test_unlock_succeeds_for_non_guardian_passes [simp]:
  "passes test_ctx test_unlock_succeeds_for_non_guardian test_env"
  by (simp add: test_unlock_succeeds_for_non_guardian_def script_exec)

lemma test_lock_released_after_successful_vote_passes [simp]:
  "passes test_ctx test_lock_released_after_successful_vote test_env"
  by (simp add: test_lock_released_after_successful_vote_def script_exec)

lemma test_lock_released_after_successful_register_task_passes [simp]:
  "passes test_ctx test_lock_released_after_successful_register_task test_env"
  by (simp add: test_lock_released_after_successful_register_task_def script_exec)

lemma test_lock_released_after_failed_vote_passes [simp]:
  "passes test_ctx test_lock_released_after_failed_vote test_env"
  by (simp add: test_lock_released_after_failed_vote_def script_exec)

lemma test_admin_can_toggle_pause_passes [simp]:
  "passes test_ctx test_admin_can_toggle_pause test_env"
  by (simp add: test_admin_can_toggle_pause_def script_exec)

lemma test_admin_can_pause_and_unpause_passes [simp]:
  "passes test_ctx test_admin_can_pause_and_unpause test_env"
  by (simp add: test_admin_can_pause_and_unpause_def script_exec)

lemma test_contract_paused_error_on_register_task_passes [simp]:
  "passes test_ctx test_contract_paused_error_on_register_task test_env"
  by (simp add: test_contract_paused_error_on_register_task_def script_exec)

lemma test_circuit_breaker_paused_contract_rejects_register_task_passes [simp]:
  "passes test_ctx test_circuit_breaker_paused_contract_rejects_register_task test_env"
  by (simp add: test_circuit_breaker_paused_contract_rejects_register_task_def script_exec)

lemma test_contract_paused_error_on_vote_passes [simp]:
  "passes test_ctx test_contract_paused_error_on_vote test_env"
  by (simp add: test_contract_paused_error_on_vote_def script_exec)

lemma test_contract_paused_error_on_add_guardian_passes [simp]:
  "passes test_ctx test_contract_paused_error_on_add_guardian test_env"
  by (simp add: test_contract_paused_error_on_add_guardian_def script_exec)

lemma test_contract_paused_error_on_set_reputation_passes [simp]:
  "passes test_ctx test_contract_paused_error_on_set_reputation test_env"
  by (simp add: test_contract_paused_error_on_set_reputation_def script_exec)

lemma test_operations_resume_after_unpause_passes [simp]:
  "passes test_ctx test_operations_resume_after_unpause test_env"
  by (simp add: test_operations_resume_after_unpause_def script_exec)

lemma test_paused_contract_rejects_register_task_passes [simp]:
  "passes test_ctx test_paused_contract_rejects_register_task test_env"
  by (simp add: test_paused_contract_rejects_register_task_def script_exec)

lemma test_paused_contract_rejects_vote_passes [simp]:
  "passes test_ctx test_paused_contract_rejects_vote test_env"
  by (simp add: test_paused_contract_rejects_vote_def script_exec)

lemma test_circuit_breaker_trips_after_threshold_passes [simp]:
  "passes test_ctx test_circuit_breaker_trips_after_threshold test_env"
  by (simp add: test_circuit_breaker_trips_after_threshold_def script_exec)

lemma test_paused_contract_rejects_vote_via_circuit_breaker_passes [simp]:
  "passes test_ctx test_paused_contract_rejects_vote_via_circuit_breaker test_env"
  by (simp add: test_paused_contract_rejects_vote_via_circuit_breaker_def script_exec)

lemma test_admin_can_reset_circuit_breaker_passes [simp]:
  "passes test_ctx test_admin_can_reset_circuit_breaker test_env"
  by (simp add: test_admin_can_reset_circuit_breaker_def script_exec)

lemma debug_circuit_breaker_count_passes [simp]:
  "passes test_ctx debug_circuit_breaker_count test_env"
  by (simp add: debug_circuit_breaker_count_def script_exec)

lemma test_all_operations_return_nonzero_cost_passes [simp]:
  "passes test_ctx test_all_operations_return_nonzero_cost test_env"
  by (simp add: test_all_operations_return_nonzero_cost_def script_exec)

lemma test_vote_is_most_expensive_write_operation_passes [simp]:
  "passes test_ctx test_vote_is_most_expensive_write_operation test_env"
  by (simp add: test_vote_is_most_expensive_write_operation_def script_exec)

lemma test_upgrade_contract_is_overall_maximum_passes [simp]:
  "passes test_ctx test_upgrade_contract_is_overall_maximum test_env"
  by (simp add: test_upgrade_contract_is_overall_maximum_def script_exec)

lemma test_cost_spot_checks_passes [simp]:
  "passes test_ctx test_cost_spot_checks test_env"
  by (simp add: test_cost_spot_checks_def script_exec)

lemma test_all_costs_above_base_invocation_overhead_passes [simp]:
  "passes test_ctx test_all_costs_above_base_invocation_overhead test_env"
  by (simp add: test_all_costs_above_base_invocation_overhead_def script_exec)

lemma test_logic_version_passes [simp]:
  "passes test_ctx test_logic_version test_env"
  by (simp add: test_logic_version_def script_exec)

lemma test_get_snapshot_pagination_passes [simp]:
  "passes test_ctx test_get_snapshot_pagination test_env"
  by (simp add: test_get_snapshot_pagination_def script_exec)

lemma test_estimated_cost_requires_no_auth_passes [simp]:
  "passes (test_ctx\<lparr>authorized := \<lambda>_. False\<rparr>) test_estimated_cost_requires_no_auth test_env"
  by (simp add: test_estimated_cost_requires_no_auth_def script_exec)

lemma test_registry_starts_clean_passes [simp]:
  "passes test_ctx test_registry_starts_clean test_env"
  by (simp add: test_registry_starts_clean_def script_exec)

lemma test_reinitialize_reverts_passes [simp]:
  "passes test_ctx test_reinitialize_reverts test_env"
  by (simp add: test_reinitialize_reverts_def script_exec)

text \<open>
  The tests of the repository hold of the model, which validates the definitions.  The unit tests of \<open>consensus.rs\<close> are
  true, and every integration test of \<open>src/tests\<close>, run as a script, makes each call succeed or
  fail as the test demands and meets each of its assertions; the one test without mocked
  signatures is run without them.
\<close>

lemma repository_tests_pass:
  "list_all (\<lambda>passed. passed) consensus_suite \<and>
   list_all (\<lambda>script. passes test_ctx script test_env) test_suite \<and>
   passes (test_ctx\<lparr>authorized := \<lambda>_. False\<rparr>) test_estimated_cost_requires_no_auth test_env"
  by (simp add: test_suite_def consensus_suite_passes)

end
