(* ===== verification/Vero_Spec.thy ===== *)
theory Vero_Spec
  imports Vero_Evolution
begin

text \<open>
  The abstract specification of the contract, and the proof that the contract refines it.  The
  abstract state has no storage keys, no machine counters, no enumeration lists and no lock: a
  task is its set of ballots (who voted with which weight), the time of its last resolution and
  two flags; locked balances are integers.  \<open>spec_call\<close> gives every call as a guard and an
  action.  \<open>abs_env\<close> reads the abstract state off a concrete one, the ballots from the
  published events.  The locale \<open>functional_refinement\<close> lifts the refinement of one call to runs.
\<close>

section \<open>The abstract contract\<close>

record ballot_box =
  b_ballots :: "address \<rightharpoonup> u64"
  b_resolved :: "u64 option"
  b_cancelled :: bool
  b_archived :: bool

record 'w vero =
  v_token :: "(address \<times> i128) option"
  v_paused :: bool
  v_failures :: nat
  v_threshold :: u64
  v_vault :: "address option"
  v_guardians :: "address \<rightharpoonup> bool"
  v_reputation :: "address \<rightharpoonup> u64"
  v_locked :: "address \<Rightarrow> int"
  v_tasks :: "u64 \<rightharpoonup> ballot_box"
  v_streams :: "u64 \<rightharpoonup> address \<times> address"
  v_code :: "bytesn32 option"
  v_world :: 'w

definition box_weight :: "ballot_box \<Rightarrow> nat" where
  "box_weight b = (\<Sum>g\<in>dom (b_ballots b). unat (the (b_ballots b g)))"

definition box_votes :: "ballot_box \<Rightarrow> nat" where
  "box_votes b = card (dom (b_ballots b))"

definition empty_box :: ballot_box where
  "empty_box = \<lparr>b_ballots = Map.empty, b_resolved = None, b_cancelled = False, b_archived = False\<rparr>"

definition guarded :: "bool \<Rightarrow> 'a option \<Rightarrow> 'a option" where
  "guarded b x = (if b then x else None)"

text \<open>A task that is still open to operations: registered and not archived.\<close>

definition open_box :: "'w vero \<Rightarrow> u64 \<Rightarrow> ballot_box option" where
  "open_box v t = (case v_tasks v t of None \<Rightarrow> None | Some b \<Rightarrow> if b_archived b then None else Some b)"

definition spec_refund :: "'w ctx \<Rightarrow> address \<Rightarrow> 'w vero \<Rightarrow> 'w vero option" where
  "spec_refund C g v =
     (if v_locked v g \<le> 0 then Some v
      else (case x_token_transfer (externs C) (fst (the (v_token v))) (self C) g
                   (word_of_int (v_locked v g)) (v_world v) of
              None \<Rightarrow> None
            | Some w \<Rightarrow> Some (v\<lparr>v_locked := (v_locked v)(g := 0), v_world := w\<rparr>)))"

definition spec_pay :: "'w ctx \<Rightarrow> u64 \<Rightarrow> 'w vero \<Rightarrow> 'w vero option" where
  "spec_pay C t v =
     (case v_vault v of
        None \<Rightarrow> Some v
      | Some a \<Rightarrow> map_option (\<lambda>w. v\<lparr>v_world := w\<rparr>) (x_release_funds (externs C) a t (v_world v)))"

text \<open>A vote: the ballot is added; if the box now holds the threshold, it is resolved and paid.\<close>

definition may_cast :: "'w ctx \<Rightarrow> 'w vero \<Rightarrow> address \<Rightarrow> ballot_box \<Rightarrow> u64 \<Rightarrow> bool" where
  "may_cast C v g b w \<longleftrightarrow>
     \<not> v_paused v \<and> authorized C g \<and> v_guardians v g = Some True \<and>
     (\<exists>tok n. v_token v = Some (tok, n) \<and> sint n < v_locked v g) \<and>
     v_reputation v g = Some w \<and> w \<noteq> 0 \<and> \<not> b_cancelled b \<and> b_ballots b g = None \<and>
     box_weight b + unat w < 2 ^ 64 \<and> box_votes b + 1 < 2 ^ 32"

definition spec_vote :: "'w ctx \<Rightarrow> address \<Rightarrow> u64 \<Rightarrow> 'w vero \<Rightarrow> 'w vero option" where
  "spec_vote C g t v =
     (case (open_box v t, v_reputation v g) of
        (Some b, Some w) \<Rightarrow>
          guarded (may_cast C v g b w)
            (let b' = b\<lparr>b_ballots := (b_ballots b)(g \<mapsto> w)\<rparr> in
             if unat (v_threshold v) \<le> box_weight b + unat w
             then spec_pay C t (v\<lparr>v_tasks := (v_tasks v)(t \<mapsto> b'\<lparr>b_resolved := Some (timestamp C)\<rparr>)\<rparr>)
             else Some (v\<lparr>v_tasks := (v_tasks v)(t \<mapsto> b')\<rparr>))
      | _ \<Rightarrow> None)"

fun spec_call :: "'w ctx \<Rightarrow> call \<Rightarrow> 'w vero \<Rightarrow> 'w vero option" where
  "spec_call C (C_initialize tok n) v =
     guarded (v_token v = None) (Some (v\<lparr>v_token := Some (tok, n), v_paused := False\<rparr>))"
| "spec_call C (C_toggle_pause a) v = guarded (authorized C a) (Some (v\<lparr>v_paused := \<not> v_paused v\<rparr>))"
| "spec_call C (C_pause a) v = guarded (authorized C a) (Some (v\<lparr>v_paused := True\<rparr>))"
| "spec_call C (C_unpause a) v = guarded (authorized C a) (Some (v\<lparr>v_paused := False\<rparr>))"
| "spec_call C (C_add_guardian a g) v =
     guarded (\<not> v_paused v \<and> authorized C a) (Some (v\<lparr>v_guardians := (v_guardians v)(g \<mapsto> True)\<rparr>))"
| "spec_call C (C_remove_guardian a g) v =
     guarded (\<not> v_paused v \<and> authorized C a \<and> v_guardians v g \<noteq> None)
       (Some (v\<lparr>v_guardians := (v_guardians v)(g := None)\<rparr>))"
| "spec_call C (C_lock_tokens g n) v =
     guarded (authorized C g \<and> v_token v \<noteq> None \<and>
         - (2 ^ 127) \<le> v_locked v g + sint n \<and> v_locked v g + sint n < 2 ^ 127)
       (map_option (\<lambda>w. v\<lparr>v_locked := (v_locked v)(g := v_locked v g + sint n), v_world := w\<rparr>)
         (x_token_transfer (externs C) (fst (the (v_token v))) g (self C) n (v_world v)))"
| "spec_call C (C_resign_guardian g) v =
     guarded (authorized C g \<and> v_token v \<noteq> None \<and> v_guardians v g = Some True)
       (spec_refund C g (v\<lparr>v_guardians := (v_guardians v)(g \<mapsto> False)\<rparr>))"
| "spec_call C (C_unlock_tokens g) v =
     guarded (authorized C g \<and> v_token v \<noteq> None \<and> v_guardians v g \<noteq> Some True) (spec_refund C g v)"
| "spec_call C (C_set_reputation a g n) v =
     guarded (\<not> v_paused v \<and> authorized C a) (Some (v\<lparr>v_reputation := (v_reputation v)(g \<mapsto> n)\<rparr>))"
| "spec_call C (C_set_weight_threshold a n) v = guarded (authorized C a) (Some (v\<lparr>v_threshold := n\<rparr>))"
| "spec_call C (C_set_vault_address a x) v = guarded (authorized C a) (Some (v\<lparr>v_vault := Some x\<rparr>))"
| "spec_call C (C_register_task a t) v =
     guarded (\<not> v_paused v \<and> authorized C a \<and> v_tasks v t = None)
       (Some (v\<lparr>v_tasks := (v_tasks v)(t \<mapsto> empty_box)\<rparr>))"
| "spec_call C (C_cancel_task a t) v =
     guarded (\<not> v_paused v \<and> authorized C a)
       (map_option (\<lambda>b. v\<lparr>v_tasks := (v_tasks v)(t \<mapsto> b\<lparr>b_cancelled := True\<rparr>)\<rparr>) (open_box v t))"
| "spec_call C (C_vote g t) v = spec_vote C g t v"
| "spec_call C (C_archive_task t) v =
     (case open_box v t of
        None \<Rightarrow> None
      | Some b \<Rightarrow>
          guarded (\<not> v_paused v \<and> (\<exists>r. b_resolved b = Some r \<and> r \<noteq> 0 \<and> unat (timestamp C) > unat r + 2592000))
            (Some (v\<lparr>v_tasks := (v_tasks v)(t \<mapsto> b\<lparr>b_archived := True\<rparr>)\<rparr>)))"
| "spec_call C (C_start_reward_stream a d c t) v =
     (case open_box v t of
        None \<Rightarrow> None
      | Some b \<Rightarrow>
          guarded (\<not> v_paused v \<and> authorized C a \<and> \<not> b_cancelled b \<and> b_resolved b \<noteq> None \<and> v_streams v t = None)
            (map_option (\<lambda>w. v\<lparr>v_streams := (v_streams v)(t \<mapsto> (c, d)), v_world := w\<rparr>)
              (x_start_stream (externs C) d c t 1 (v_world v))))"
| "spec_call C C_record_failure v =
     guarded (v_failures v + 1 < 2 ^ 32)
       (Some (v\<lparr>v_failures := v_failures v + 1, v_paused := (v_paused v \<or> v_failures v + 1 > 50)\<rparr>))"
| "spec_call C (C_reset_circuit_breaker a) v =
     guarded (authorized C a) (Some (v\<lparr>v_failures := 0, v_paused := False\<rparr>))"
| "spec_call C (C_upgrade_contract a h) v =
     guarded (authorized C a \<and> x_wasm_installed (externs C) h) (Some (v\<lparr>v_code := Some h\<rparr>))"

text \<open>A call that is refused changes nothing.\<close>

definition spec_env :: "'w ctx \<Rightarrow> call \<Rightarrow> 'w vero \<Rightarrow> 'w vero" where
  "spec_env C c v = (case spec_call C c v of None \<Rightarrow> v | Some v' \<Rightarrow> v')"

section \<open>The abstraction\<close>

definition box_of :: "event list \<Rightarrow> storage \<Rightarrow> u64 \<Rightarrow> task \<Rightarrow> ballot_box" where
  "box_of es \<sigma> t x =
     \<lparr>b_ballots = map_of (votes_of t es),
      b_resolved = (if t_is_done x then Some (t_resolved_at x) else None),
      b_cancelled = t_is_cancelled x, b_archived = (archived_view \<sigma> t \<noteq> None)\<rparr>"

definition abs_env :: "'w env \<Rightarrow> 'w vero" where
  "abs_env s =
     (let \<sigma> = storage s in
      \<lparr>v_token = map_option (\<lambda>tok. (tok, lock_threshold_view \<sigma>)) (token_view \<sigma>),
       v_paused = paused_view \<sigma>, v_failures = unat (failures_view \<sigma>),
       v_threshold = threshold_view \<sigma>, v_vault = vault_view \<sigma>,
       v_guardians = (\<lambda>g. look as_bool \<sigma> (Guardian g)), v_reputation = reputation_view \<sigma>,
       v_locked = (\<lambda>g. sint (locked_view \<sigma> g)),
       v_tasks = (\<lambda>t. map_option (box_of (events s) \<sigma> t) (task_of \<sigma> t)),
       v_streams = (\<lambda>t. map_option (\<lambda>r. (rs_contributor r, rs_drips_contract r)) (stream_view \<sigma> t)),
       v_code = wasm_update s, v_world = world s\<rparr>)"

text \<open>What one call has to satisfy.\<close>

definition refined :: "'w ctx \<Rightarrow> call \<Rightarrow> 'w env \<Rightarrow> bool" where
  "refined C c s \<longleftrightarrow>
     (case run_call c C s of
        (Ok _, s') \<Rightarrow> spec_call C c (abs_env s) = Some (abs_env s')
      | _ \<Rightarrow> spec_call C c (abs_env s) = None)"

lemma abs_env_sel [simp]:
  "v_token (abs_env s) = map_option (\<lambda>tok. (tok, lock_threshold_view (storage s))) (token_view (storage s))"
  "v_paused (abs_env s) = paused_view (storage s)" "v_failures (abs_env s) = unat (failures_view (storage s))"
  "v_threshold (abs_env s) = threshold_view (storage s)" "v_vault (abs_env s) = vault_view (storage s)"
  "v_guardians (abs_env s) g = look as_bool (storage s) (Guardian g)"
  "v_reputation (abs_env s) = reputation_view (storage s)" "v_locked (abs_env s) g = sint (locked_view (storage s) g)"
  "v_tasks (abs_env s) t = map_option (box_of (events s) (storage s) t) (task_of (storage s) t)"
  "v_streams (abs_env s) t =
     map_option (\<lambda>r. (rs_contributor r, rs_drips_contract r)) (stream_view (storage s) t)"
  "v_code (abs_env s) = wasm_update s" "v_world (abs_env s) = world s"
  by (simp_all add: abs_env_def Let_def)

lemma vero_eqI:
  assumes "v_token v = v_token u" "v_paused v = v_paused u" "v_failures v = v_failures u"
    "v_threshold v = v_threshold u" "v_vault v = v_vault u" "\<And>g. v_guardians v g = v_guardians u g"
    "\<And>g. v_reputation v g = v_reputation u g" "\<And>g. v_locked v g = v_locked u g"
    "\<And>t. v_tasks v t = v_tasks u t" "\<And>t. v_streams v t = v_streams u t" "v_code v = v_code u"
    "v_world v = v_world u"
  shows "v = (u :: 'w vero)"
  using assms by (cases v; cases u) (simp add: fun_eq_iff)

section \<open>Calls outside the ledger\<close>

lemma box_frame: "\<not> ledger_key k \<Longrightarrow> box_of es (\<sigma>(k := v)) t = box_of es \<sigma> t"
  by (simp add: box_of_def ledger_frame fun_eq_iff)

lemma box_event:
  assumes "\<forall>t g w. e \<noteq> WeightedVote t g w"
  shows "box_of (es @ [e]) \<sigma> t = box_of es \<sigma> t"
proof -
  from assms have "votes_of t [e] = []" by (cases e) auto
  then show ?thesis by (simp add: box_of_def fun_eq_iff)
qed

text \<open>The effect of each write on the abstract state.\<close>

lemmas abs_proof = ledger_frame box_frame box_event

lemma abs_upd:
  "abs_env (s\<lparr>storage := \<sigma>(Paused \<mapsto> VBool b)\<rparr>) = (abs_env (s\<lparr>storage := \<sigma>\<rparr>))\<lparr>v_paused := b\<rparr>"
  "abs_env (s\<lparr>storage := \<sigma>(Paused := None)\<rparr>) = (abs_env (s\<lparr>storage := \<sigma>\<rparr>))\<lparr>v_paused := False\<rparr>"
  "abs_env (s\<lparr>storage := \<sigma>(FailureCount \<mapsto> VU32 n)\<rparr>) = (abs_env (s\<lparr>storage := \<sigma>\<rparr>))\<lparr>v_failures := unat n\<rparr>"
  "abs_env (s\<lparr>storage := \<sigma>(WeightThreshold \<mapsto> VU64 m)\<rparr>) = (abs_env (s\<lparr>storage := \<sigma>\<rparr>))\<lparr>v_threshold := m\<rparr>"
  "abs_env (s\<lparr>storage := \<sigma>(VaultAddress \<mapsto> VAddress a)\<rparr>) = (abs_env (s\<lparr>storage := \<sigma>\<rparr>))\<lparr>v_vault := Some a\<rparr>"
  "abs_env (s\<lparr>storage := \<sigma>(Guardian g \<mapsto> VBool b)\<rparr>) =
     (abs_env (s\<lparr>storage := \<sigma>\<rparr>))\<lparr>v_guardians := (v_guardians (abs_env (s\<lparr>storage := \<sigma>\<rparr>)))(g \<mapsto> b)\<rparr>"
  "abs_env (s\<lparr>storage := \<sigma>(Guardian g := None)\<rparr>) =
     (abs_env (s\<lparr>storage := \<sigma>\<rparr>))\<lparr>v_guardians := (v_guardians (abs_env (s\<lparr>storage := \<sigma>\<rparr>)))(g := None)\<rparr>"
  "abs_env (s\<lparr>storage := \<sigma>(AllGuardians \<mapsto> gs)\<rparr>) = abs_env (s\<lparr>storage := \<sigma>\<rparr>)"
  "abs_env (s\<lparr>storage := \<sigma>(Reputation g \<mapsto> VU64 m)\<rparr>) =
     (abs_env (s\<lparr>storage := \<sigma>\<rparr>))\<lparr>v_reputation := (v_reputation (abs_env (s\<lparr>storage := \<sigma>\<rparr>)))(g \<mapsto> m)\<rparr>"
  "abs_env (s\<lparr>storage := \<sigma>(LockedBalance g \<mapsto> VI128 l)\<rparr>) =
     (abs_env (s\<lparr>storage := \<sigma>\<rparr>))\<lparr>v_locked := (v_locked (abs_env (s\<lparr>storage := \<sigma>\<rparr>)))(g := sint l)\<rparr>"
  "abs_env (s\<lparr>storage := \<sigma>(Initialized \<mapsto> iv, TokenAddress \<mapsto> VAddress a, LockThreshold \<mapsto> VI128 l)\<rparr>) =
     (abs_env (s\<lparr>storage := \<sigma>\<rparr>))\<lparr>v_token := Some (a, l)\<rparr>"
  by (intro vero_eqI; simp add: abs_proof; simp add: views)+

lemma abs_upd_frame:
  "abs_env (s\<lparr>live_until := n\<rparr>) = abs_env s"
  "abs_env (s\<lparr>world := w\<rparr>) = (abs_env s)\<lparr>v_world := w\<rparr>"
  "abs_env (s\<lparr>wasm_update := h\<rparr>) = (abs_env s)\<lparr>v_code := h\<rparr>"
  "\<forall>t g w. e \<noteq> WeightedVote t g w \<Longrightarrow>
     abs_env (s\<lparr>storage := \<sigma>, events := events s @ [e]\<rparr>) = abs_env (s\<lparr>storage := \<sigma>\<rparr>)"
  by (simp_all add: abs_env_def box_event Let_def)

lemmas abs_simps = abs_upd abs_upd_frame

lemma refund_refined:
  assumes "well_typed (storage s)" and "storage s TokenAddress \<noteq> None"
  shows "spec_refund C g (abs_env s) =
    (case refund_locked g C s of (Ok _, s') \<Rightarrow> Some (abs_env s') | _ \<Rightarrow> None)"
proof -
  from assms obtain tok where "token_view (storage s) = Some tok"
    by (metis token_view_None_iff not_None_eq)
  with assms show ?thesis
    by (simp add: spec_refund_def refund_locked_exec abs_simps split: option.split)
qed

lemma lock_range:
  fixes a n :: i128
  shows "(- (2 ^ 127) \<le> sint a + sint n \<and> sint a + sint n < 2 ^ 127) \<longleftrightarrow> checked_add_signed a n \<noteq> None"
  by (simp add: checked_add_signed_def Let_def)

lemma guardian_flag: "guardian_view \<sigma> g \<longleftrightarrow> look as_bool \<sigma> (Guardian g) = Some True"
  by (auto simp: views look_or_def split: option.split)

lemma token_refined:
  assumes "contract_inv s"
  shows "refined C (C_lock_tokens g n) s" and "refined C (C_resign_guardian g) s"
    and "refined C (C_unlock_tokens g) s"
proof -
  note wt = contract_inv_wt [OF assms]
  have none: "storage s TokenAddress = None \<longleftrightarrow> token_view (storage s) = None"
    using wt by (simp add: token_view_None_iff)
  show "refined C (C_lock_tokens g n) s"
    using wt lock_range [of "locked_view (storage s) g" n]
      checked_add_signed_SomeD [of "locked_view (storage s) g" n]
    by (auto simp: refined_def lock_tokens_exec guarded_def abs_simps split: option.split)
  show "refined C (C_unlock_tokens g) s"
    using wt none refund_refined [OF wt, of C g]
    by (auto simp: refined_def unlock_tokens_exec guarded_def guardian_flag split: prod.split outcome.split)
  let ?s = "s\<lparr>storage := (storage s)(Guardian g \<mapsto> VBool False)\<rparr>"
  have "well_typed (storage ?s)" using wt by simp
  from refund_refined [OF this, of C g] wt none show "refined C (C_resign_guardian g) s"
    by (auto simp: refined_def resign_guardian_exec guarded_def guardian_flag abs_simps
        split: prod.split outcome.split)
qed

lemma plain_refined:
  assumes inv: "contract_inv s" and c: "\<not> ledger_call c"
  shows "refined C c s"
proof -
  note wt = contract_inv_wt [OF inv]
  from inv have init: "initialized_view (storage s) \<longleftrightarrow> token_view (storage s) \<noteq> None"
    by (simp add: contract_inv_def config_inv_def token_view_None_iff)
  have known: "storage s (Guardian g) = None \<longleftrightarrow> look as_bool (storage s) (Guardian g) = None" for g
    using wt by (simp add: look_None_iff)
  have "refined C C_record_failure s"
    using wt by (auto simp: refined_def record_failure_def record_failure_exec guarded_def abs_simps checked_add_def
        unat_plus_no_overflow word_less_nat_alt split: option.split)
  with c wt init known token_refined [OF inv] show ?thesis
    by (cases c) (simp_all add: refined_def plain_exec guarded_def abs_simps)
qed

section \<open>Calls that write the ledger\<close>

lemma open_box_abs:
  assumes "contract_inv s"
  shows "open_box (abs_env s) t =
    map_option (box_of (events s) (storage s) t) (active_view (storage s) t)"
  using contract_inv_active(2) [OF assms, of t]
  by (auto simp: open_box_def task_of_def box_of_def split: option.split)

lemma map_of_sum:
  assumes "distinct (map fst xs)"
  shows "(\<Sum>g\<in>dom (map_of xs). f (the (map_of xs g))) = sum_list (map (f \<circ> snd) xs)"
    and "card (dom (map_of xs)) = length xs"
proof -
  show "card (dom (map_of xs)) = length xs"
    using distinct_card [OF assms] by (simp add: dom_map_of_conv_image_fst)
  show "(\<Sum>g\<in>dom (map_of xs). f (the (map_of xs g))) = sum_list (map (f \<circ> snd) xs)"
    using assms
  proof (induction xs)
    case (Cons x xs)
    have new: "fst x \<notin> dom (map_of xs)" using Cons.prems by (simp add: dom_map_of_conv_image_fst)
    have dom: "dom (map_of (x # xs)) = insert (fst x) (dom (map_of xs))" by (cases x) auto
    have "(\<Sum>g\<in>dom (map_of (x # xs)). f (the (map_of (x # xs) g))) =
        f (snd x) + (\<Sum>g\<in>dom (map_of xs). f (the (map_of (x # xs) g)))"
      unfolding dom by (subst sum.insert) (use new in \<open>auto simp: finite_dom_map_of\<close>)
    moreover have "(\<Sum>g\<in>dom (map_of xs). f (the (map_of (x # xs) g))) =
        (\<Sum>g\<in>dom (map_of xs). f (the (map_of xs g)))"
      by (rule sum.cong) (use new in auto)
    ultimately show ?case using Cons by (simp only: list.map sum_list.Cons o_apply distinct.simps)
  qed simp
qed

lemma box_counts:
  assumes "contract_inv s" and "active_view (storage s) t = Some x"
  shows "box_weight (box_of (events s) (storage s) t x) = unat (t_total_weight_accrued x)"
    and "box_votes (box_of (events s) (storage s) t x) = unat (t_votes x)"
proof -
  from assms active_task_of [OF assms(2)] have "unat (t_votes x) = vote_count t (events s)"
    "unat (t_total_weight_accrued x) = vote_weight t (events s)"
    by (auto simp: contract_inv_def ledger_inv_def log_inv_def)
  with map_of_sum(1) [OF ledger_voters(1) [OF assms(1), of t], where f = unat]
    map_of_sum(2) [OF ledger_voters(1) [OF assms(1), of t]]
  show "box_weight (box_of (events s) (storage s) t x) = unat (t_total_weight_accrued x)"
    "box_votes (box_of (events s) (storage s) t x) = unat (t_votes x)"
    by (simp_all add: box_weight_def box_votes_def box_of_def vote_count_def vote_weight_def)
qed

lemma ballot_flag:
  assumes "contract_inv s"
  shows "map_of (votes_of t (events s)) g = None \<longleftrightarrow> storage s (Voted t g) = None"
  using ledger_voters(2) [OF assms, of t] by (auto simp: map_of_eq_None_iff)

text \<open>A write to one task touches that task only.\<close>

lemma abs_task_write:
  assumes "\<And>k. k \<notin> {ActiveTask t, ArchivedTask t, AllTasks, AllVotes} \<Longrightarrow> (\<forall>g. k \<noteq> Voted t g) \<Longrightarrow> \<sigma> k = storage s k"
    and "\<And>t'. t' \<noteq> t \<Longrightarrow> votes_of t' es = votes_of t' (events s)"
  shows "abs_env (s\<lparr>storage := \<sigma>, events := es, world := w\<rparr>) =
    (abs_env s)\<lparr>v_tasks := (v_tasks (abs_env s))(t := map_option (box_of es \<sigma> t) (task_of \<sigma> t)), v_world := w\<rparr>"
proof -
  have views_eq: "active_view \<sigma> t' = active_view (storage s) t'" "archived_view \<sigma> t' = archived_view (storage s) t'"
    if "t' \<noteq> t" for t'
    using that by (simp_all add: views look_def assms(1))
  then have tasks: "task_of \<sigma> t' = task_of (storage s) t'" if "t' \<noteq> t" for t'
    using that by (simp add: task_of_def split: option.split)
  have boxes: "box_of es \<sigma> t' = box_of (events s) (storage s) t'" if "t' \<noteq> t" for t'
    using that by (simp add: box_of_def views_eq assms(2) fun_eq_iff)
  show ?thesis
    by (rule vero_eqI) (simp_all add: tasks boxes, simp_all add: views look_def look_or_def assms(1))
qed

lemma register_refined:
  assumes inv: "contract_inv s"
  shows "refined C (C_register_task a t) s"
proof -
  note wt = contract_inv_wt [OF inv]
  let ?\<sigma> = "(storage s)(ActiveTask t \<mapsto> VTask (new_task t), AllTasks \<mapsto> VIds (tasks_view (storage s) @ [t]))"
  have "abs_env (s\<lparr>storage := ?\<sigma>, events := events s, world := world s\<rparr>) =
      (abs_env s)\<lparr>v_tasks := (v_tasks (abs_env s))(t \<mapsto> empty_box), v_world := world s\<rparr>"
    if fresh: "task_of (storage s) t = None"
  proof -
    from fresh have "archived_view (storage s) t = None" by (auto simp: task_of_def split: option.splits)
    moreover from inv fresh have "votes_of t (events s) = []"
      by (intro unregistered_no_votes) (auto simp: contract_inv_def)
    ultimately have "map_option (box_of (events s) ?\<sigma> t) (task_of ?\<sigma> t) = Some empty_box"
      by (simp add: box_of_def task_of_def view_upd new_task_def empty_box_def)
    then show ?thesis by (subst abs_task_write [where t = t]) auto
  qed
  with wt inv show ?thesis
    by (auto simp: refined_def guarded_exec register_tasks_exec registrable_def fresh_task_of guarded_def
        contract_inv_def vec_len_def)
qed

lemma cancel_refined:
  assumes inv: "contract_inv s"
  shows "refined C (C_cancel_task a t) s"
proof -
  note wt = contract_inv_wt [OF inv]
  have abs: "abs_env (s\<lparr>storage := (storage s)(ActiveTask t \<mapsto> VTask (x\<lparr>t_is_cancelled := True\<rparr>)),
        events := events s @ [TaskCancelledEvent t]\<rparr>) =
      (abs_env s)\<lparr>v_tasks := (v_tasks (abs_env s))(t \<mapsto> (box_of (events s) (storage s) t x)\<lparr>b_cancelled := True\<rparr>)\<rparr>"
    for x
    using abs_task_write [of t "(storage s)(ActiveTask t \<mapsto> VTask (x\<lparr>t_is_cancelled := True\<rparr>))" s
        "events s @ [TaskCancelledEvent t]" "world s"]
    by (simp add: box_of_def task_of_def view_upd)
  show ?thesis
    using wt inv contract_inv_active(1) [OF inv, of t]
    by (auto simp: refined_def guarded_exec cancel_task_exec guarded_def open_box_abs abs contract_inv_def
        split: option.split)
qed

lemma archive_refined:
  assumes inv: "contract_inv s"
  shows "refined C (C_archive_task t) s"
proof -
  note wt = contract_inv_wt [OF inv]
  have abs: "abs_env (s\<lparr>storage := (storage s)(ArchivedTask t \<mapsto> VTask x, ActiveTask t := None),
        events := events s @ [TaskArchived t r]\<rparr>) =
      (abs_env s)\<lparr>v_tasks := (v_tasks (abs_env s))(t \<mapsto> (box_of (events s) (storage s) t x)\<lparr>b_archived := True\<rparr>)\<rparr>"
    for x r
    using abs_task_write [of t "(storage s)(ArchivedTask t \<mapsto> VTask x, ActiveTask t := None)" s
        "events s @ [TaskArchived t r]" "world s"]
    by (simp add: box_of_def task_of_def view_upd)
  have res: "(\<exists>r. b_resolved (box_of es \<sigma> t x) = Some r \<and> r \<noteq> 0 \<and> unat r + 2592000 < n) \<longleftrightarrow>
      t_is_done x \<and> t_resolved_at x \<noteq> 0 \<and> unat (t_resolved_at x) + 2592000 < n" for es \<sigma> x n
    by (simp add: box_of_def)
  show ?thesis
    using wt inv contract_inv_active(2) [OF inv, of t]
    by (auto simp: refined_def archive_task_entry_exec guarded_def open_box_abs abs res stale_def
        split: option.split)
qed

lemma box_frame_other:
  assumes "\<forall>t. k \<noteq> ActiveTask t \<and> k \<noteq> ArchivedTask t"
  shows "task_of (\<sigma>(k := v)) t = task_of \<sigma> t" and "box_of es (\<sigma>(k := v)) t = box_of es \<sigma> t"
  using assms by (simp_all add: task_of_def box_of_def view_upd fun_eq_iff split: option.split)

lemma stream_refined:
  assumes inv: "contract_inv s"
  shows "refined C (C_start_reward_stream a d c t) s"
proof -
  note wt = contract_inv_wt [OF inv]
  have none: "storage s (RewardStream t) = None \<longleftrightarrow> stream_view (storage s) t = None"
    using wt by (simp add: views look_None_iff)
  have abs: "abs_env (s\<lparr>storage := (storage s)(AllRewardStreams \<mapsto> ix, RewardStream t \<mapsto> VStream (new_stream d c t)),
        world := w, events := events s @ [RewardStreamStarted t c]\<rparr>) =
      (abs_env s)\<lparr>v_streams := (v_streams (abs_env s))(t \<mapsto> (c, d)), v_world := w\<rparr>" for ix w
    by (rule vero_eqI; simp add: box_event box_frame_other view_upd new_stream_def; simp add: views)
  have res: "b_resolved (box_of es \<sigma> t x) = None \<longleftrightarrow> \<not> t_is_done x"
    "b_cancelled (box_of es \<sigma> t x) = t_is_cancelled x" for es \<sigma> x
    by (simp_all add: box_of_def)
  show ?thesis
    using wt inv
    by (auto simp: refined_def start_reward_stream_exec start_drips_stream_exec guarded_def open_box_abs
        abs res none split: option.split)
qed

lemma abs_voted:
  assumes inv: "contract_inv s" and el: "eligible C s g t w x"
    and y: "tally (threshold_view (storage s)) (timestamp C) w x = Some y"
  shows "abs_env (voted_env s g t w y \<omega>) =
    (abs_env s)\<lparr>v_tasks := (v_tasks (abs_env s))(t \<mapsto> (box_of (events s) (storage s) t x)
        \<lparr>b_ballots := (b_ballots (box_of (events s) (storage s) t x))(g \<mapsto> w),
         b_resolved := (if reaches (storage s) y then Some (timestamp C)
           else b_resolved (box_of (events s) (storage s) t x))\<rparr>), v_world := \<omega>\<rparr>"
proof -
  let ?\<sigma> = "(storage s)(AllVotes \<mapsto> VVotes (votes_view (storage s) @ [(t, g)]),
                         Voted t g \<mapsto> VBool True, ActiveTask t \<mapsto> VTask y)"
  let ?res = "if reaches (storage s) y then [TaskResolved t (t_total_weight_accrued y)] else []"
  let ?es = "events s @ ?res @ [WeightedVote t g w]"
  from el have flag: "map_of (votes_of t (events s)) g = None"
    by (simp add: eligible_def ballot_flag [OF inv])
  have votes: "votes_of t' ?es = votes_of t' (events s) @ (if t' = t then [(g, w)] else [])" for t'
    by simp
  have ballots: "map_of (votes_of t ?es) = (map_of (votes_of t (events s)))(g \<mapsto> w)"
    unfolding votes using flag by (auto simp: map_add_def fun_eq_iff split: option.split)
  have task: "task_of ?\<sigma> t = Some y" "archived_view ?\<sigma> t = archived_view (storage s) t"
    by (simp_all add: task_of_def view_upd)
  have "box_of ?es ?\<sigma> t y = (box_of (events s) (storage s) t x)
      \<lparr>b_ballots := (map_of (votes_of t (events s)))(g \<mapsto> w),
       b_resolved := (if reaches (storage s) y then Some (timestamp C)
         else b_resolved (box_of (events s) (storage s) t x))\<rparr>"
    using tally_SomeD(4-6) [OF y] unfolding box_of_def ballots task(2) by (simp add: reaches_def)
  with abs_task_write [of t ?\<sigma> s ?es \<omega>] votes task(1) show ?thesis
    by (simp add: voted_env_def box_of_def)
qed

lemma may_cast_iff:
  assumes inv: "contract_inv s" and x: "active_view (storage s) t = Some x"
  shows "may_cast C (abs_env s) g (box_of (events s) (storage s) t x) w \<longleftrightarrow>
    eligible C s g t w x \<and> unat (t_total_weight_accrued x) + unat w < 2 ^ 64 \<and> unat (t_votes x) + 1 < 2 ^ 32"
proof -
  have flag: "b_ballots (box_of (events s) (storage s) t x) g = None \<longleftrightarrow> storage s (Voted t g) = None"
    "b_cancelled (box_of (events s) (storage s) t x) = t_is_cancelled x"
    by (simp_all add: box_of_def ballot_flag [OF inv])
  have tok: "storage s TokenAddress = None \<longleftrightarrow> token_view (storage s) = None"
    using contract_inv_wt [OF inv] by (simp add: token_view_None_iff)
  from inv have "\<not> lock_held s" by (simp add: contract_inv_def)
  then show ?thesis
    using x by (auto simp: may_cast_def eligible_def flag tok guardian_flag box_counts [OF inv x])
qed

lemma tally_None_iff:
  "tally thr now w x \<noteq> None \<longleftrightarrow>
     unat (t_total_weight_accrued x) + unat w < 2 ^ 64 \<and> unat (t_votes x) + 1 < 2 ^ 32"
  by (simp add: tally_def checked_add_def Let_def)

lemma vote_refined:
  assumes inv: "contract_inv s"
  shows "refined C (C_vote g t) s"
proof (cases "\<exists>w x y. eligible C s g t w x \<and> tally (threshold_view (storage s)) (timestamp C) w x = Some y")
  case True
  then obtain w x y where el: "eligible C s g t w x"
    and y: "tally (threshold_view (storage s)) (timestamp C) w x = Some y" by blast
  from el have x: "active_view (storage s) t = Some x" and w: "reputation_view (storage s) g = Some w"
    by (simp_all add: eligible_def)
  have may: "may_cast C (abs_env s) g (box_of (events s) (storage s) t x) w"
    using may_cast_iff [OF inv x] el y tally_None_iff [of "threshold_view (storage s)" "timestamp C" w x] by simp
  have thr: "unat (threshold_view (storage s)) \<le> unat (t_total_weight_accrued x) + unat w \<longleftrightarrow> reaches (storage s) y"
    using tally_SomeD(1) [OF y] by (simp add: reaches_def word_le_nat_alt)
  have run: "vote g t C s = (case payout C s t y of
      None \<Rightarrow> (Err EscrowUnavailable, s\<lparr>events := events s @ [TaskResolved t (t_total_weight_accrued y)]\<rparr>)
    | Some \<omega> \<Rightarrow> (Ok (), voted_env s g t w y \<omega>))"
    using el y contract_inv_wt [OF inv] by (auto simp: vote_exec eligible_def)
  show ?thesis
    using x w may run abs_voted [OF inv el y]
    by (auto simp: refined_def spec_vote_def open_box_abs [OF inv] guarded_def box_counts [OF inv x] thr
        Let_def payout_def spec_pay_def split: option.split)
next
  case False
  then have "\<not> (\<exists>s'. vote g t C s = (Ok (), s'))"
    using contract_inv_wt [OF inv] by (auto simp: vote_Ok_iff)
  moreover have no: "\<not> may_cast C (abs_env s) g (box_of (events s) (storage s) t x) w"
    if "active_view (storage s) t = Some x" for x w
    using False may_cast_iff [OF inv that, of C g w]
      tally_None_iff [of "threshold_view (storage s)" "timestamp C" w x] by fastforce
  have "spec_vote C g t (abs_env s) = None"
    using no by (auto simp: spec_vote_def open_box_abs [OF inv] guarded_def split: option.split)
  ultimately show ?thesis by (auto simp: refined_def split: prod.split outcome.split)
qed

section \<open>The contract refines its specification\<close>

lemma call_refined: "contract_inv s \<Longrightarrow> refined C c s"
  by (cases "ledger_call c"; cases c)
    (auto intro: plain_refined register_refined cancel_refined archive_refined stream_refined vote_refined)

text \<open>A step function that refines another under an invariant does so along every run.\<close>

locale functional_refinement =
  fixes step :: "'c \<Rightarrow> 's \<Rightarrow> 's" and spec :: "'c \<Rightarrow> 'a \<Rightarrow> 'a"
    and abstraction :: "'s \<Rightarrow> 'a" and inv :: "'s \<Rightarrow> bool"
  assumes step_inv: "inv s \<Longrightarrow> inv (step c s)"
    and step_abs: "inv s \<Longrightarrow> abstraction (step c s) = spec c (abstraction s)"
begin

lemma run_inv: "inv s \<Longrightarrow> inv (fold step cs s)"
  by (induction cs arbitrary: s) (simp_all add: step_inv)

lemma run_abs: "inv s \<Longrightarrow> abstraction (fold step cs s) = fold spec cs (abstraction s)"
  by (induction cs arbitrary: s) (simp_all add: step_inv step_abs)

end

lemma call_env_refined: "contract_inv s \<Longrightarrow> abs_env (call_env C c s) = spec_env C c (abs_env s)"
  using call_refined [of s C c]
  by (auto simp: refined_def call_env_def invoke_def spec_env_def split: prod.splits outcome.splits)

interpretation vero_spec: functional_refinement "call_env C" "spec_env C" abs_env contract_inv for C
  by unfold_locales (auto simp: call_env_inv call_env_refined)

end
