(* ===== verification/Vero_Payout.thy ===== *)
theory Vero_Payout
  imports Vero_Access
begin

text \<open>
  Payments of the vault.  \<open>counts_payouts\<close> describes a vault that keeps a count of the releases
  per task: a successful \<open>release_funds\<close> adds one for its task, and no other call of the
  contract touches the count.  Under it, every payment is matched by a published resolution,
  and every resolution by a vote.
\<close>

definition resolutions :: "u64 \<Rightarrow> event list \<Rightarrow> nat" where
  "resolutions t es = length (filter (\<lambda>e. case e of TaskResolved t' _ \<Rightarrow> t' = t | _ \<Rightarrow> False) es)"

definition counts_payouts :: "'w externs \<Rightarrow> ('w \<Rightarrow> u64 \<Rightarrow> nat) \<Rightarrow> bool" where
  "counts_payouts X paid \<longleftrightarrow>
     (\<forall>v t w w'. x_release_funds X v t w = Some w' \<longrightarrow> paid w' = (paid w)(t := paid w t + 1)) \<and>
     (\<forall>token a b n w w'. x_token_transfer X token a b n w = Some w' \<longrightarrow> paid w' = paid w) \<and>
     (\<forall>d c t n w w'. x_start_stream X d c t n w = Some w' \<longrightarrow> paid w' = paid w)"

text \<open>The deployments considered: a fixed vault that has paid nothing before the contract is
  deployed, and whose count nobody else changes.\<close>

definition unpaid_env :: "('w \<Rightarrow> u64 \<Rightarrow> nat) \<Rightarrow> 'w env \<Rightarrow> bool" where
  "unpaid_env paid s \<longleftrightarrow> fresh_env s \<and> (\<forall>t. paid (world s) t = 0)"

definition count_kept :: "('w \<Rightarrow> u64 \<Rightarrow> nat) \<Rightarrow> 'w \<Rightarrow> 'w \<Rightarrow> bool" where
  "count_kept paid w w' \<longleftrightarrow> paid w' = paid w"

definition payout_inv :: "('w \<Rightarrow> u64 \<Rightarrow> nat) \<Rightarrow> 'w env \<Rightarrow> bool" where
  "payout_inv paid s \<longleftrightarrow>
     (\<forall>t. paid (world s) t \<le> resolutions t (events s) \<and> resolutions t (events s) \<le> vote_count t (events s))"

lemma resolutions_append [simp]: "resolutions t (es @ fs) = resolutions t es + resolutions t fs"
  by (simp add: resolutions_def)

lemma resolutions_Cons [simp]:
  "resolutions t [] = 0"
  "resolutions t (e # es) = (case e of TaskResolved t' _ \<Rightarrow> if t' = t then 1 else 0 | _ \<Rightarrow> 0) + resolutions t es"
  by (simp_all add: resolutions_def split: event.split)

lemma resolutions_pos: "0 < resolutions t es \<longleftrightarrow> (\<exists>w. TaskResolved t w \<in> set es)"
  by (induction es) (auto simp: resolutions_def split: event.splits)

lemma vote_count_append [simp]: "vote_count t (es @ fs) = vote_count t es + vote_count t fs"
  by (simp add: vote_count_def)

lemma other_call_payout:
  assumes X: "counts_payouts X paid" "externs C = X" and wt: "well_typed (storage s)"
    and c: "\<forall>g t. c \<noteq> C_vote g t" and run: "run_call c C s = (Ok (), s')"
  shows "paid (world s') = paid (world s) \<and> resolutions t (events s') = resolutions t (events s) \<and>
    vote_count t (events s') = vote_count t (events s)"
proof (cases "ledger_call c")
  case False
  have moved: "x_token_transfer (externs C) token a b n w = Some w' \<Longrightarrow> paid w' = paid w" for token a b n w w'
    using X by (simp add: counts_payouts_def)
  from False wt run show ?thesis
    by (cases c) (auto simp: plain_exec vote_count_def dest: moved split: if_splits option.splits)
next
  case True
  show ?thesis
  proof (cases c)
    case (C_start_reward_stream a d c' t')
    with run have "start_reward_stream a d c' t' C s = (Ok (), s')" by simp
    with wt obtain w where "x_start_stream (externs C) d c' t' 1 (world s) = Some w" "world s' = w"
      "events s' = events s @ [RewardStreamStarted t' c']"
      by (elim start_reward_stream_OkD) auto
    with X show ?thesis by (simp add: counts_payouts_def vote_count_def)
  qed (use True run wt c in \<open>auto simp: guarded_exec register_tasks_exec cancel_task_exec
      archive_task_entry_exec vote_count_def split: if_splits option.splits\<close>)
qed

lemma vote_payout:
  assumes X: "counts_payouts X paid" "externs C = X" and wt: "well_typed (storage s)"
    and inv: "payout_inv paid s" and run: "vote g t C s = (Ok (), s')"
  shows "payout_inv paid s'"
proof -
  from run wt obtain w y \<omega> where pay: "payout C s t y = Some \<omega>" and s': "s' = voted_env s g t w y \<omega>"
    by (auto simp: vote_Ok_iff)
  have paid: "paid \<omega> t' \<le> paid (world s) t' + (if reaches (storage s) y \<and> t' = t then 1 else 0)" for t'
    using pay X by (auto simp: payout_def counts_payouts_def split: if_splits option.splits)
  have "paid (world s') t' \<le> resolutions t' (events s') \<and> resolutions t' (events s') \<le> vote_count t' (events s')" for t'
  proof -
    from inv have "paid (world s) t' \<le> resolutions t' (events s)" "resolutions t' (events s) \<le> vote_count t' (events s)"
      by (simp_all add: payout_inv_def)
    with paid [of t'] show ?thesis
      by (cases "t' = t"; cases "reaches (storage s) y") (simp_all add: s' voted_env_def vote_count_def)
  qed
  then show ?thesis by (simp add: payout_inv_def)
qed

lemma payout_system:
  assumes X: "counts_payouts X paid"
  shows "safe_system (unpaid_env paid) (contract_step (\<lambda>C. externs C = X) (count_kept paid))
    (\<lambda>s. contract_inv s \<and> payout_inv paid s)"
proof
  fix s :: "'a env" assume "unpaid_env paid s"
  then show "contract_inv s \<and> payout_inv paid s"
    by (simp add: unpaid_env_def contract_inv_init) (simp add: fresh_env_def payout_inv_def vote_count_def)
next
  fix s s' assume inv: "contract_inv s \<and> payout_inv paid s"
    and step: "contract_step (\<lambda>C. externs C = X) (count_kept paid) s s'"
  from inv step have "contract_inv s'" by (blast intro: vero.inv_step)
  moreover have "payout_inv paid s'" using step
  proof (cases rule: contract_step.cases)
    case (call_step C c)
    then show ?thesis
    proof (cases rule: call_env_cases [of c C s])
      case (1 u)
      with call_step have run: "run_call c C s = (Ok (), s')" by simp
      show ?thesis
      proof (cases "\<exists>g t. c = C_vote g t")
        case True
        then obtain g t where "vote g t C s = (Ok (), s')" using run by auto
        with call_step inv show ?thesis
          using vote_payout [OF X _ contract_inv_wt [OF conjunct1 [OF inv]] conjunct2 [OF inv]] by blast
      next
        case False
        then have "\<forall>g t. c \<noteq> C_vote g t" by blast
        from other_call_payout [OF X _ contract_inv_wt [OF conjunct1 [OF inv]] this run] call_step inv
        show ?thesis by (simp only: payout_inv_def simp_thms)
      qed
    qed (use call_step inv in simp)
  next
    case (world_step w)
    with inv show ?thesis by (simp add: payout_inv_def count_kept_def)
  qed
  ultimately show "contract_inv s' \<and> payout_inv paid s'" ..
qed

lemmas payout_reach = safe_system.inv_reach [OF payout_system]

end
