(* ===== verification/Vero_Fleet.thy ===== *)
theory Vero_Fleet
  imports Vero_Scenario
begin

text \<open>
  Several deployments of the contract on one ledger.  Each has its own address and storage;
  the token, the vaults and all other contracts are shared.  \<open>fleet_step\<close> interleaves their
  calls with steps of the other contracts.  Seen from one deployment, the calls of the others
  are steps of the environment that leave its tokens alone, so everything that holds of a
  single deployment holds of each member of the fleet at the same time.
\<close>

record 'w fleet =
  f_instance :: "address \<Rightarrow> 'w env"
  f_world :: 'w

definition instance_at :: "'w fleet \<Rightarrow> address \<Rightarrow> 'w env" where
  "instance_at F a = (f_instance F a)\<lparr>world := f_world F\<rparr>"

definition fleet_init :: "address set \<Rightarrow> 'w fleet \<Rightarrow> bool" where
  "fleet_init D F \<longleftrightarrow> (\<forall>a\<in>D. fresh_env (f_instance F a))"

text \<open>A call of the deployment at \<open>self C\<close>.\<close>

definition fleet_call :: "'w ctx \<Rightarrow> call \<Rightarrow> 'w fleet \<Rightarrow> 'w fleet" where
  "fleet_call C c F =
     (let s' = call_env C c (instance_at F (self C))
      in \<lparr>f_instance = (f_instance F)(self C := s'), f_world = world s'\<rparr>)"

text \<open>No deployment ever signs.\<close>

definition fleet_ctx :: "'w externs \<Rightarrow> address set \<Rightarrow> 'w ctx \<Rightarrow> bool" where
  "fleet_ctx X D C \<longleftrightarrow> externs C = X \<and> self C \<in> D \<and> (\<forall>a\<in>D. \<not> authorized C a)"

inductive fleet_step ::
  "'w externs \<Rightarrow> 'w balances \<Rightarrow> address set \<Rightarrow> 'w fleet \<Rightarrow> 'w fleet \<Rightarrow> bool"
  for X :: "'w externs" and balance :: "'w balances" and D :: "address set" where
  member_call:
    "fleet_ctx X D C \<Longrightarrow> wasm_update (f_instance F (self C)) = None \<Longrightarrow>
     fleet_step X balance D F (fleet_call C c F)"
| others_step:
    "\<forall>a\<in>D. funds_kept balance a (f_world F) w \<Longrightarrow> fleet_step X balance D F (F\<lparr>f_world := w\<rparr>)"

abbreviation fleet_reach where
  "fleet_reach X balance D \<equiv> reach (fleet_init D) (fleet_step X balance D)"

section \<open>A call leaves the tokens of the other deployments alone\<close>

lemma transfer_funds_kept:
  assumes "token_laws X balance" and "x_token_transfer X token from to n w = Some w'" and "a \<noteq> from"
  shows "funds_kept balance a w w'"
  using assms unfolding token_laws_def funds_kept_def by fastforce

lemma refund_keeps_others:
  assumes "token_laws (externs C) balance" and "well_typed (storage s)" and "storage s TokenAddress \<noteq> None"
    and "refund_locked g C s = (Ok (), s')" and "a \<noteq> self C"
  shows "funds_kept balance a (world s) (world s')"
  using assms(2-5)
  by (auto simp: refund_locked_exec funds_kept_refl split: if_splits option.splits
      intro: transfer_funds_kept [OF assms(1)])

lemma call_keeps_others:
  assumes laws: "token_laws X balance" and keeps: "keeps_funds X balance a" and C: "externs C = X"
    and other: "a \<noteq> self C" "\<not> authorized C a" and inv: "contract_inv s"
  shows "funds_kept balance a (world s) (world (call_env C c s))"
proof (cases rule: call_env_cases [of c C s])
  case (1 s')
  note run = 1(1) and wt = contract_inv_wt [OF inv]
  show ?thesis
  proof (cases "funds_call c")
    case False
    with other_call_funds [OF keeps C inv False run] 1(2) show ?thesis by simp
  next
    case True
    have "funds_kept balance a (world s) (world s')"
    proof (cases c)
      case (C_lock_tokens g n)
      with run wt obtain token w where "authorized C g" "world s' = w"
        "x_token_transfer X token g (self C) n (world s) = Some w"
        using C by (auto simp: lock_tokens_exec split: if_splits option.splits)
      with other(2) show ?thesis by (auto intro: transfer_funds_kept [OF laws])
    next
      case (C_resign_guardian g)
      let ?s = "s\<lparr>storage := (storage s)(Guardian g \<mapsto> VBool False)\<rparr>"
      have "well_typed (storage ?s)" using wt by simp
      moreover from C_resign_guardian run wt
      have "refund_locked g C ?s = (Ok (), s')" "storage ?s TokenAddress \<noteq> None"
        by (auto simp: resign_guardian_exec split: if_splits)
      ultimately have "funds_kept balance a (world ?s) (world s')"
        using laws C other(1) by (blast intro: refund_keeps_others)
      then show ?thesis by simp
    next
      case (C_unlock_tokens g)
      with run wt have "refund_locked g C s = (Ok (), s')" "storage s TokenAddress \<noteq> None"
        by (auto simp: unlock_tokens_exec split: if_splits)
      with wt laws C other(1) show ?thesis by (blast intro: refund_keeps_others)
    next
      case (C_initialize token n)
      with run wt show ?thesis by (auto simp: initialize_exec funds_kept_refl split: if_splits)
    qed (use True in auto)
    with 1(2) show ?thesis by simp
  qed
next
  case 2
  then show ?thesis by (simp add: funds_kept_refl)
qed

section \<open>Each member is a deployment\<close>

lemma instance_at_call:
  "instance_at (fleet_call C c F) a =
     (if a = self C then call_env C c (instance_at F a)
      else (instance_at F a)\<lparr>world := world (call_env C c (instance_at F (self C)))\<rparr>)"
  by (simp add: instance_at_def fleet_call_def Let_def)

lemma member_step:
  assumes laws: "token_laws X balance" and keeps: "\<forall>a\<in>D. keeps_funds X balance a" and "a \<in> D"
    and step: "fleet_step X balance D F F'" and inv: "\<forall>b\<in>D. contract_inv (instance_at F b)"
  shows "contract_step (deployed X a) (funds_kept balance a) (instance_at F a) (instance_at F' a)"
  using step
proof (cases rule: fleet_step.cases)
  case (member_call C c)
  then have C: "externs C = X" "self C \<in> D" "\<forall>b\<in>D. \<not> authorized C b" by (simp_all add: fleet_ctx_def)
  show ?thesis
  proof (cases "a = self C")
    case True
    with C \<open>a \<in> D\<close> have "deployed X a C" by (simp add: deployed_def)
    moreover have "wasm_update (instance_at F a) = None" using member_call True by (simp add: instance_at_def)
    moreover have "instance_at F' a = call_env C c (instance_at F a)"
      using member_call True by (simp add: instance_at_call)
    ultimately show ?thesis by (simp add: contract_step.call_step)
  next
    case False
    have "funds_kept balance a (world (instance_at F (self C)))
        (world (call_env C c (instance_at F (self C))))"
      using False C \<open>a \<in> D\<close> keeps inv by (intro call_keeps_others [OF laws _ C(1)]) auto
    then have "funds_kept balance a (world (instance_at F a))
        (world (call_env C c (instance_at F (self C))))" by (simp add: instance_at_def)
    then show ?thesis using False member_call(1)
      by (auto simp: instance_at_call intro: contract_step.world_step)
  qed
next
  case (others_step w)
  have "instance_at F' a = (instance_at F a)\<lparr>world := w\<rparr>"
    using others_step by (simp add: instance_at_def)
  moreover have "funds_kept balance a (world (instance_at F a)) w"
    using others_step \<open>a \<in> D\<close> by (simp add: instance_at_def)
  ultimately show ?thesis by (simp add: contract_step.world_step)
qed

lemma member_reachable:
  assumes laws: "token_laws X balance" and keeps: "\<forall>a\<in>D. keeps_funds X balance a"
    and "fleet_reach X balance D F"
  shows "\<forall>a\<in>D. reachable (deployed X a) (funds_kept balance a) (instance_at F a)"
  using assms(3)
proof (induction rule: reach.induct)
  case (reach_init F)
  then show ?case
    by (auto simp: fleet_init_def instance_at_def fresh_env_def intro!: reach.reach_init)
next
  case (reach_step F F')
  have inv: "\<forall>b\<in>D. contract_inv (instance_at F b)"
    using reach_step.IH by (blast intro: vero.inv_reach)
  show ?case
    using reach_step.IH member_step [OF laws keeps _ reach_step.hyps(2) inv]
    by (blast intro: reach.reach_step)
qed

section \<open>A fleet of two\<close>

lemma fleet_run_reach:
  assumes "fleet_reach X balance D F" and "list_all (\<lambda>(C, c). fleet_ctx X D C \<and> \<not> upgrade_call c) cs"
    and "\<forall>a\<in>D. contract_inv (instance_at F a) \<and> wasm_update (f_instance F a) = None"
  shows "fleet_reach X balance D (fold (\<lambda>(C, c). fleet_call C c) cs F)"
  using assms
proof (induction cs arbitrary: F)
  case Nil
  then show ?case by simp
next
  case (Cons Cc cs)
  obtain C c where Cc: "Cc = (C, c)" by (cases Cc)
  let ?F = "fleet_call C c F" and ?s = "instance_at F (self C)"
  have C: "fleet_ctx X D C" "\<not> upgrade_call c" using Cons.prems(2) Cc by auto
  then have mem: "self C \<in> D" by (simp add: fleet_ctx_def)
  have "fleet_reach X balance D ?F"
    using Cons.prems(1,3) C(1) mem by (blast intro: reach.reach_step fleet_step.member_call)
  moreover have "\<forall>a\<in>D. contract_inv (instance_at ?F a) \<and> wasm_update (f_instance ?F a) = None"
  proof
    fix a assume "a \<in> D"
    with Cons.prems(3) mem have inv: "contract_inv ?s" "contract_inv (instance_at F a)"
      and none: "wasm_update ?s = None" "wasm_update (f_instance F a) = None"
      by (auto simp: instance_at_def)
    have "contract_inv (instance_at ?F a)"
      using inv by (simp add: instance_at_call call_env_inv)
    moreover have "wasm_update (f_instance ?F a) = None"
      using none call_env_wasm [OF inv(1) C(2)] by (simp add: fleet_call_def Let_def)
    ultimately show "contract_inv (instance_at ?F a) \<and> wasm_update (f_instance ?F a) = None" ..
  qed
  ultimately show ?case using Cons.IH Cons.prems(2) Cc by simp
qed

definition fleet_demo_ctx :: "address \<Rightarrow> demo_world ctx" where
  "fleet_demo_ctx a = (demo_ctx 1000)\<lparr>authorized := \<lambda>b. b \<notin> {Address 0, Address 5}, self := a\<rparr>"

definition fleet_demo_start :: "demo_world fleet" where
  "fleet_demo_start = \<lparr>f_instance = (\<lambda>_. demo_start), f_world = world demo_start\<rparr>"

definition fleet_demo :: "demo_world fleet" where
  "fleet_demo = fold (\<lambda>(C, c). fleet_call C c)
     [(fleet_demo_ctx (Address 0), C_initialize token1 100),
      (fleet_demo_ctx (Address 5), C_initialize token1 10),
      (fleet_demo_ctx (Address 0), C_lock_tokens alice 150),
      (fleet_demo_ctx (Address 5), C_lock_tokens alice 20),
      (fleet_demo_ctx (Address 5), C_lock_tokens bob 30)] fleet_demo_start"

lemma fleet_demo_eq:
  "storage (f_instance fleet_demo (Address 5)) =
    [Initialized \<mapsto> VBool True, TokenAddress \<mapsto> VAddress token1, LockThreshold \<mapsto> VI128 10,
     Paused \<mapsto> VBool False, LockedBalance alice \<mapsto> VI128 20, LockedBalance bob \<mapsto> VI128 30]"
  by (simp add: fleet_demo_def fleet_demo_start_def fleet_call_def instance_at_def fleet_demo_ctx_def demo_start_def run_exec)

lemma fleet_demo_ctx: "a \<in> {Address 0, Address 5} \<Longrightarrow> fleet_ctx demo_externs {Address 0, Address 5} (fleet_demo_ctx a)"
  by (auto simp: fleet_ctx_def fleet_demo_ctx_def demo_ctx_def)

lemma fleet_demo_reach: "fleet_reach demo_externs demo_balance {Address 0, Address 5} fleet_demo"
  unfolding fleet_demo_def
proof (rule fleet_run_reach)
  have fresh: "fresh_env demo_start" by (simp add: fresh_env_def demo_start_def)
  then show "fleet_reach demo_externs demo_balance {Address 0, Address 5} fleet_demo_start"
    by (intro reach.reach_init) (simp add: fleet_init_def fleet_demo_start_def)
  from fresh show "\<forall>a\<in>{Address 0, Address 5}. contract_inv (instance_at fleet_demo_start a) \<and>
      wasm_update (f_instance fleet_demo_start a) = None"
    by (simp add: instance_at_def fleet_demo_start_def contract_inv_init fresh_env_def)
qed (simp add: fleet_demo_ctx)

end
