(* ===== verification/Vero_Frame.thy ===== *)
theory Vero_Frame
  imports Vero_Runs
begin

text \<open>
  What a call leaves alone.  \<open>footprint\<close> names the storage keys a call may write; every other
  key, and for most calls the other contracts and the code as well, is the same afterwards.
  Hence a value that was written is read back as long as no call with that key in its footprint
  has come in between (\<open>answers\<close>: what the readers say after a call).
\<close>

fun footprint :: "call \<Rightarrow> data_key set" where
  "footprint (C_initialize _ _) = {Initialized, TokenAddress, LockThreshold, Paused}"
| "footprint (C_toggle_pause _) = {Paused}"
| "footprint (C_pause _) = {Paused}"
| "footprint (C_unpause _) = {Paused}"
| "footprint (C_add_guardian _ g) = {Guardian g, AllGuardians}"
| "footprint (C_remove_guardian _ g) = {Guardian g}"
| "footprint (C_lock_tokens g _) = {LockedBalance g}"
| "footprint (C_resign_guardian g) = {Guardian g, LockedBalance g}"
| "footprint (C_unlock_tokens g) = {LockedBalance g}"
| "footprint (C_set_reputation _ g _) = {Reputation g}"
| "footprint (C_set_weight_threshold _ _) = {WeightThreshold}"
| "footprint (C_set_vault_address _ _) = {VaultAddress}"
| "footprint (C_register_task _ t) = {ActiveTask t, AllTasks}"
| "footprint (C_cancel_task _ t) = {ActiveTask t}"
| "footprint (C_vote g t) = {Voted t g, AllVotes, ActiveTask t}"
| "footprint (C_archive_task t) = {ActiveTask t, ArchivedTask t}"
| "footprint (C_start_reward_stream _ _ _ t) = {RewardStream t, AllRewardStreams}"
| "footprint C_record_failure = {FailureCount, Paused}"
| "footprint (C_reset_circuit_breaker _) = {FailureCount, Paused}"
| "footprint (C_upgrade_contract _ _) = {}"

text \<open>The calls that may reach another contract.\<close>

fun reaches_out :: "call \<Rightarrow> bool" where
  "reaches_out (C_vote _ _) = True"
| "reaches_out c = calls_out c"

section \<open>The frame of a call\<close>

lemma run_call_frame:
  assumes "contract_inv s" and "run_call c C s = (Ok (), s')" and "k \<notin> footprint c"
  shows "storage s' k = storage s k"
proof -
  from assms(1) have wt: "well_typed (storage s)" and free: "storage s Lock = None"
    by (simp_all add: contract_inv_def lock_held_def)
  show ?thesis
  proof (cases "ledger_call c")
    case False
    with assms wt show ?thesis by (cases c) (auto simp: plain_exec split: if_splits option.splits)
  next
    case True
    with assms wt free show ?thesis
      by (cases c)
        (auto simp: guarded_exec register_tasks_exec cancel_task_exec archive_task_entry_exec vote_Ok_iff
          voted_env_def start_reward_stream_exec start_drips_stream_exec split: if_splits option.splits
          dest: contract_inv_active(1))
  qed
qed

lemma run_call_world:
  assumes "contract_inv s" and "run_call c C s = (Ok (), s')" and "\<not> reaches_out c"
  shows "world s' = world s"
proof (cases "ledger_call c")
  case False
  with assms contract_inv_wt [OF assms(1)] show ?thesis by (cases c) (auto simp: plain_exec split: if_splits option.splits)
next
  case True
  with assms contract_inv_wt [OF assms(1)] show ?thesis
    by (cases c) (auto simp: guarded_exec register_tasks_exec cancel_task_exec archive_task_entry_exec
        split: if_splits option.splits)
qed

lemma call_env_frame: "contract_inv s \<Longrightarrow> k \<notin> footprint c \<Longrightarrow> storage (call_env C c s) k = storage s k"
  by (cases rule: call_env_cases [of c C s]) (auto dest: run_call_frame)

lemma call_env_world: "contract_inv s \<Longrightarrow> \<not> reaches_out c \<Longrightarrow> world (call_env C c s) = world s"
  by (cases rule: call_env_cases [of c C s]) (auto dest: run_call_world)

text \<open>A run of calls, each in its own context.\<close>

definition run_trace :: "('w ctx \<times> call) list \<Rightarrow> 'w env \<Rightarrow> 'w env" where
  "run_trace = fold (\<lambda>(C, c). call_env C c)"

lemma run_trace_inv: "contract_inv s \<Longrightarrow> contract_inv (run_trace cs s)"
  by (induction cs arbitrary: s) (auto simp: run_trace_def call_env_inv split: prod.splits)

lemma run_trace_frame:
  assumes "contract_inv s" and "\<forall>(C, c)\<in>set cs. k \<notin> footprint c"
  shows "storage (run_trace cs s) k = storage s k"
  using assms
proof (induction cs arbitrary: s)
  case Nil
  then show ?case by (simp add: run_trace_def)
next
  case (Cons Cc cs)
  then show ?case
    using Cons.IH [of "call_env (fst Cc) (snd Cc) s"]
    by (auto simp: run_trace_def call_env_inv call_env_frame split: prod.splits)
qed

section \<open>What was written is read back\<close>

definition reads :: "('w, 'a) contract \<Rightarrow> 'a \<Rightarrow> 'w ctx \<Rightarrow> 'w env \<Rightarrow> bool" where
  "reads m a C s \<longleftrightarrow> invoke m C s = (Ok a, s)"

lemma readers:
  assumes "well_typed (storage s)"
  shows "reads is_paused b C s \<longleftrightarrow> b = paused_view (storage s)"
    and "reads (is_guardian g) b C s \<longleftrightarrow> b = guardian_view (storage s) g"
    and "reads (get_reputation g) r C s \<longleftrightarrow> r = reputation_view (storage s) g"
    and "reads (calculate_voting_power g) r C s \<longleftrightarrow> r = reputation_view (storage s) g"
    and "reads get_weight_threshold n C s \<longleftrightarrow> n = threshold_view (storage s)"
    and "reads (get_task t) x C s \<longleftrightarrow> x = active_view (storage s) t"
    and "reads (get_reward_stream t) y C s \<longleftrightarrow> y = stream_view (storage s) t"
  using assms
  by (auto simp: reads_def invoke_def is_paused_def is_guardian_def get_reputation_def
      calculate_voting_power_def get_weight_threshold_def get_task_def get_reward_stream_def
      DEFAULT_WEIGHT_THRESHOLD_def exec views)

text \<open>The answers of the readers, in context \<open>C\<close> and state \<open>u\<close>, that a call made in context \<open>B\<close>
  and state \<open>s\<close> determines.\<close>

fun answers :: "'w ctx \<Rightarrow> 'w env \<Rightarrow> call \<Rightarrow> 'w ctx \<Rightarrow> 'w env \<Rightarrow> bool" where
  "answers B s (C_initialize _ _) C u = reads is_paused False C u"
| "answers B s (C_toggle_pause _) C u = reads is_paused (\<not> paused_view (storage s)) C u"
| "answers B s (C_pause _) C u = reads is_paused True C u"
| "answers B s (C_unpause _) C u = reads is_paused False C u"
| "answers B s (C_reset_circuit_breaker _) C u = reads is_paused False C u"
| "answers B s (C_add_guardian _ g) C u = reads (is_guardian g) True C u"
| "answers B s (C_remove_guardian _ g) C u = reads (is_guardian g) False C u"
| "answers B s (C_resign_guardian g) C u = reads (is_guardian g) False C u"
| "answers B s (C_set_reputation _ g n) C u =
     (reads (get_reputation g) (Some n) C u \<and> reads (calculate_voting_power g) (Some n) C u)"
| "answers B s (C_set_weight_threshold _ n) C u = reads get_weight_threshold n C u"
| "answers B s (C_register_task _ t) C u = reads (get_task t) (Some (new_task t)) C u"
| "answers B s (C_cancel_task _ t) C u =
     (\<exists>x. active_view (storage s) t = Some x \<and> reads (get_task t) (Some (x\<lparr>t_is_cancelled := True\<rparr>)) C u)"
| "answers B s (C_archive_task t) C u = reads (get_task t) None C u"
| "answers B s (C_vote g t) C u =
     (\<exists>x w y. active_view (storage s) t = Some x \<and> reputation_view (storage s) g = Some w \<and>
        tally (threshold_view (storage s)) (timestamp B) w x = Some y \<and> reads (get_task t) (Some y) C u)"
| "answers B s (C_start_reward_stream _ d c t) C u = reads (get_reward_stream t) (Some (new_stream d c t)) C u"
| "answers B s _ C u = True"

lemma answers_after:
  assumes inv: "contract_inv s" and run: "run_call c C s = (Ok (), s')"
  shows "answers C s c C' s'"
proof -
  note wt = contract_inv_wt [OF inv] and wt' = contract_inv_wt [OF run_call_inv [OF inv run]]
  have id: "t_id x = t" if "active_view (storage s) t = Some x" for t x
    using contract_inv_active(1) [OF inv that] .
  show ?thesis
  proof (cases "ledger_call c")
    case False
    with run wt wt' show ?thesis
      by (cases c) (auto simp: readers plain_exec split: if_splits option.splits, auto simp: views)
  next
    case True
    with run wt wt' inv show ?thesis
      by (cases c)
        (auto simp: readers guarded_exec register_tasks_exec cancel_task_exec archive_task_entry_exec vote_Ok_iff
          voted_env_def eligible_def start_reward_stream_exec start_drips_stream_exec id
          split: if_splits option.splits, auto simp: views)
  qed
qed

lemma answers_frame:
  assumes "well_typed (storage u)" and "well_typed (storage v)"
    and "\<forall>k\<in>footprint c. storage v k = storage u k" and "answers B s c C u"
  shows "answers B s c C v"
  using assms by (cases c) (auto simp: readers views look_def look_or_def)

end
