(* ===== verification/Vero_Kani.thy ===== *)
theory Vero_Kani
  imports Vero_Consensus
begin

text \<open>
  \<open>src/verification/src/lib.rs\<close>: the nine Kani harnesses.  Each harness is the predicate
  its \<open>kani::assume\<close> and \<open>assert\<close> statements denote on one choice of the symbolic inputs:
  the assumptions imply every assertion, in the order the harness makes them.  Kani checks
  them by bounded model checking; here they are theorems for all inputs.
\<close>

definition proof_threshold_invariant :: "u64 \<Rightarrow> u64 \<Rightarrow> bool" where
  "proof_threshold_invariant weight threshold \<longleftrightarrow>
     (weight > 0 \<longrightarrow>
       (let (result, state) = apply_vote consensus_new weight threshold
        in result = Inr () \<and>
           (if weight \<ge> threshold then cs_is_done state else \<not> cs_is_done state) \<and>
           cs_total_weight_accrued state = weight \<and> cs_votes state = 1))"

definition proof_no_below_threshold_resolution :: "u64 \<Rightarrow> u64 \<Rightarrow> u64 \<Rightarrow> u32 \<Rightarrow> bool" where
  "proof_no_below_threshold_resolution weight threshold initial_weight votes \<longleftrightarrow>
     (initial_weight < - 1 \<longrightarrow> weight > 0 \<longrightarrow>
       (let (result, state) =
          apply_vote \<lparr>cs_total_weight_accrued = initial_weight, cs_votes = votes, cs_is_done = False\<rparr>
            weight threshold
        in cs_is_done state \<longrightarrow> cs_total_weight_accrued state \<ge> threshold))"

definition proof_monotone_done :: "u64 \<Rightarrow> u64 \<Rightarrow> u64 \<Rightarrow> u32 \<Rightarrow> bool" where
  "proof_monotone_done weight threshold accrued votes \<longleftrightarrow>
     (weight > 0 \<longrightarrow> threshold \<le> - 1 div 2 \<longrightarrow> accrued \<ge> threshold \<longrightarrow> accrued \<le> - 1 - weight \<longrightarrow>
       cs_is_done (snd (apply_vote
         \<lparr>cs_total_weight_accrued = accrued, cs_votes = votes, cs_is_done = True\<rparr> weight threshold)))"

definition proof_weight_overflow_impossible :: "u64 \<Rightarrow> u64 \<Rightarrow> u64 \<Rightarrow> u32 \<Rightarrow> bool" where
  "proof_weight_overflow_impossible weight initial threshold votes \<longleftrightarrow>
     (weight > 0 \<longrightarrow> initial > - 1 - weight \<longrightarrow>
       (let (result, state) =
          apply_vote \<lparr>cs_total_weight_accrued = initial, cs_votes = votes, cs_is_done = False\<rparr>
            weight threshold
        in result = Inl ConsensusWeightOverflow \<and>
           cs_total_weight_accrued state = initial \<and> \<not> cs_is_done state))"

definition proof_votes_no_overflow :: "u64 \<Rightarrow> u64 \<Rightarrow> u32 \<Rightarrow> u64 \<Rightarrow> bool" where
  "proof_votes_no_overflow weight threshold initial_votes initial_weight \<longleftrightarrow>
     (weight > 0 \<longrightarrow> initial_weight \<le> - 1 - weight \<longrightarrow>
       (let state = snd (apply_vote
          \<lparr>cs_total_weight_accrued = initial_weight, cs_votes = initial_votes, cs_is_done = False\<rparr>
            weight threshold)
        in cs_votes state \<ge> initial_votes \<and> cs_votes state = saturating_add initial_votes 1))"

definition proof_zero_threshold_safe :: "u64 \<Rightarrow> bool" where
  "proof_zero_threshold_safe weight \<longleftrightarrow>
     (weight > 0 \<longrightarrow>
       (let (result, state) = apply_vote consensus_new weight 0
        in result = Inr () \<and> cs_is_done state \<and> cs_total_weight_accrued state = weight))"

definition proof_max_weight_single_guardian :: "u64 \<Rightarrow> bool" where
  "proof_max_weight_single_guardian threshold \<longleftrightarrow>
     (let (result, state) = apply_vote consensus_new (- 1) threshold
      in result = Inr () \<and> cs_total_weight_accrued state = - 1 \<and> cs_is_done state)"

definition proof_multi_vote_accumulation :: "u64 \<Rightarrow> u64 \<Rightarrow> u64 \<Rightarrow> bool" where
  "proof_multi_vote_accumulation w1 w2 threshold \<longleftrightarrow>
     (w1 > 0 \<longrightarrow> w2 > 0 \<longrightarrow> w1 \<le> - 1 div 2 \<longrightarrow> w2 \<le> - 1 div 2 \<longrightarrow>
       (let (r1, state) = apply_vote consensus_new w1 threshold;
            (r2, state) = apply_vote state w2 threshold;
            accrued = w1 + w2
        in r1 = Inr () \<and> r2 = Inr () \<and>
           cs_total_weight_accrued state = accrued \<and> cs_votes state = 2 \<and>
           (if accrued \<ge> threshold then cs_is_done state else \<not> cs_is_done state)))"

definition proof_resolution_invariant_helper :: "u64 \<Rightarrow> u64 \<Rightarrow> bool" where
  "proof_resolution_invariant_helper weight threshold \<longleftrightarrow>
     (weight > 0 \<longrightarrow>
       (let (result, state) = apply_vote consensus_new weight threshold
        in result = Inr () \<longrightarrow> resolution_invariant_holds state threshold))"

section \<open>They hold for all inputs\<close>

lemma checked_add_zero [simp]: "checked_add 0 w = Some w"
  by (simp add: checked_add_def)

lemma saturating_add_u32 [simp]:
  "saturating_add (0 :: u32) 1 = 1" "saturating_add (1 :: u32) 1 = 2"
  by (simp_all add: saturating_add_def checked_add_def)

lemma checked_add_iff_room:
  fixes a w :: u64
  shows "a \<le> - 1 - w \<longleftrightarrow> checked_add a w \<noteq> None"
proof -
  have "unat (- 1 - w) = 2 ^ 64 - 1 - unat w"
    by (simp add: unat_sub unsigned_minus_1_eq_mask mask_eq_exp_minus_1)
  moreover have "unat w < 2 ^ 64" using unsigned_less [of w, where ?'a = nat] by simp
  ultimately show ?thesis
    by (auto simp: checked_add_None_iff word_le_nat_alt)
qed

lemma half_room:
  fixes w1 w2 :: u64
  assumes "w1 \<le> - 1 div 2" "w2 \<le> - 1 div 2"
  shows "checked_add w1 w2 = Some (w1 + w2)"
proof -
  have half: "unat (- 1 div 2 :: u64) = 2 ^ 63 - 1"
    by (simp add: unat_div unsigned_minus_1_eq_mask mask_eq_exp_minus_1)
  with assms have "unat w1 \<le> 2 ^ 63 - 1" "unat w2 \<le> 2 ^ 63 - 1"
    by (simp_all only: word_le_nat_alt half)
  then show ?thesis by (simp add: checked_add_def)
qed

lemma checked_add_le: "checked_add a b = Some c \<Longrightarrow> a \<le> c"
  by (auto simp: word_le_nat_alt dest: checked_add_SomeD)

lemma saturating_add_ge: "a \<le> saturating_add a (b :: u32)"
  using unat_u32_bound [of a] by (simp add: word_le_nat_alt unat_saturating_add)

text \<open>
  C38. All nine Kani harnesses hold, for every choice of their symbolic inputs.
\<close>

theorem kani_harnesses:
  "proof_threshold_invariant w thr \<and> proof_no_below_threshold_resolution w thr acc n \<and>
   proof_monotone_done w thr acc n \<and> proof_weight_overflow_impossible w acc thr n \<and>
   proof_votes_no_overflow w thr n acc \<and> proof_zero_threshold_safe w \<and>
   proof_max_weight_single_guardian thr \<and> proof_multi_vote_accumulation w1 w2 thr \<and>
   proof_resolution_invariant_helper w thr"
proof (intro conjI)
  show "proof_threshold_invariant w thr" "proof_zero_threshold_safe w" "proof_max_weight_single_guardian thr"
    "proof_resolution_invariant_helper w thr"
    by (auto simp: proof_threshold_invariant_def proof_zero_threshold_safe_def
        proof_max_weight_single_guardian_def proof_resolution_invariant_helper_def
        resolution_invariant_holds_def apply_vote_cases consensus_new_def Let_def word_gt_0 word_order.extremum)
  show "proof_no_below_threshold_resolution w thr acc n" "proof_monotone_done w thr acc n"
    by (auto simp: proof_no_below_threshold_resolution_def proof_monotone_done_def apply_vote_cases
        split: option.splits)
  show "proof_weight_overflow_impossible w acc thr n"
    using checked_add_iff_room [of acc w]
    by (auto simp: proof_weight_overflow_impossible_def apply_vote_cases not_le [symmetric])
  show "proof_votes_no_overflow w thr n acc"
    using checked_add_iff_room [of acc w] saturating_add_ge [of n 1]
    by (auto simp: proof_votes_no_overflow_def apply_vote_cases Let_def)
  show "proof_multi_vote_accumulation w1 w2 thr"
    using half_room [of w1 w2] checked_add_le [of w1 w2 "w1 + w2"]
    by (auto simp: proof_multi_vote_accumulation_def apply_vote_cases consensus_new_def Let_def
        dest: order_trans)
qed

end
