(* ===== verification/Spec2Isabelle.thy ===== *)
theory Spec2Isabelle
  imports Vero_Tests Vero_Spec Vero_Payout Vero_Fleet Vero_Frame Vero_Kani
begin

text \<open>
  Vero core contracts: a verification of the Soroban contract \<open>VeroCore\<close>.

  \<^bold>\<open>The program.\<close>  Guardians with a reputation score vote on tasks.  Each vote adds the
  guardian's score to the weight of the task; when the weight meets the threshold the task is
  resolved, a vault is asked to release its funds, an administrator may start a reward stream
  for it, and after thirty days it can be archived.  To vote, a guardian must have locked more
  tokens than the lock threshold.  A pause flag, which a failure counter can set, blocks most
  entry points; a lock in the storage protects three of them against re-entry.

  \<^bold>\<open>Theories and sources.\<close>  In dependency order:
  \<^item> \<open>Vero_Prelude\<close>: \<open>u32\<close>, \<open>u64\<close>, \<open>i128\<close> as words with checked and saturating arithmetic.
  \<^item> \<open>Vero_Types\<close> (\<open>src/src/types.rs\<close>): \<open>Task\<close>, \<open>RewardStream\<close>, \<open>DataKey\<close>, \<open>Operation\<close>,
    \<open>ContractError\<close>, stored values, and the typing \<open>well_typed\<close> of the storage.
  \<^item> \<open>Soroban_Host\<close>: the host as the contract uses it (instance storage, authorisation, clock,
    events, time to live, cross-contract calls) and the contract monad; \<open>invoke\<close> is the frame
    of an invocation.
  \<^item> \<open>Vero_Registry\<close>: the interface (locale \<open>indexed_registry\<close>) between a keyed record and the
    list that enumerates it, interpreted for guardians, votes and reward streams.
  \<^item> \<open>Vero_Events\<close> (\<open>events.rs\<close>), \<open>Vero_Circuit_Breaker\<close> (\<open>circuit_breaker.rs\<close>),
    \<open>Vero_Reentrancy\<close> (\<open>reentrancy.rs\<close>, locale \<open>mutex\<close>), \<open>Vero_Guardian\<close> (\<open>guardian.rs\<close> and
    \<open>reputation.rs\<close>), \<open>Vero_Storage\<close> (\<open>storage.rs\<close>), \<open>Vero_Task\<close> (\<open>task.rs\<close>), \<open>Vero_Drips\<close>
    (\<open>drips.rs\<close> and \<open>vault.rs\<close>): one definition per Rust function.  Where two modules have a
    function of the same name, the model's name carries the module first
    (\<open>storage_archive_task\<close>, \<open>task_cancel_task\<close>, \<open>guardian_add_guardian\<close>).
  \<^item> \<open>Vero_Contract\<close> (\<open>lib.rs\<close>): the entry points, statement by statement.  The body of \<open>vote\<close>
    is split at its two joins into \<open>vote_locked\<close>, \<open>vote_tally\<close>, \<open>vote_commit\<close>; the refund block
    that \<open>resign_guardian\<close> and \<open>unlock_tokens\<close> repeat is \<open>refund_locked\<close>.
  \<^item> \<open>Vero_Snapshot\<close> (\<open>get_snapshot\<close> of \<open>lib.rs\<close>) and \<open>Vero_Gas\<close> (\<open>gas.rs\<close>).
  \<^item> \<open>Vero_Consensus\<close> (\<open>consensus.rs\<close>): \<open>apply_vote\<close>, and the locale \<open>weighted_consensus\<close> with
    its two implementations.  \<open>Vero_Kani\<close> (\<open>src/verification/src/lib.rs\<close>): the nine harnesses.
  \<^item> \<open>Vero_Execution\<close>: for each entry point the equation that gives its outcome and its final
    state over the views of a well-typed storage; \<open>tally\<close>, \<open>eligible\<close>, \<open>payout\<close>, \<open>voted_env\<close>
    are the vocabulary of the one of \<open>vote\<close>.
  \<^item> \<open>Vero_System\<close>: the transition system of calls and of steps of the other contracts, the
    invariant \<open>contract_inv\<close>, and the locale \<open>safe_system\<close>.  \<open>Vero_Evolution\<close>: the life cycle of
    a task and the order \<open>evolves\<close> in which records grow.  \<open>Vero_Access\<close>: signatures, pause,
    traps, lock, time to live.  \<open>Vero_Tokens\<close>: solvency and withdrawal.  \<open>Vero_Runs\<close>: runs of
    several calls.  \<open>Vero_Frame\<close>: the storage keys each call may write, and what the readers
    answer afterwards.
    \<open>Vero_Scenario\<close>: a concrete deployment, from which the instances of the properties come.
  \<^item> \<open>Vero_Spec\<close>: what the contract promises, without storage keys, machine words, lock, index
    lists and events: an abstract state \<open>vero\<close> whose ballots carry their voters and an unbounded
    weight, one guarded action per call (\<open>spec_call\<close>), the abstraction \<open>abs_env\<close>, and the locale
    \<open>functional_refinement\<close>.  \<open>Vero_Payout\<close>: the payments a vault counts against the events.
    \<open>Vero_Fleet\<close>: several deployments that share a token, their calls interleaved.
  \<^item> \<open>Vero_Tests\<close> (\<open>src/tests/test.rs\<close>, \<open>src/tests/init.rs\<close>) and \<open>Vero_Consensus_Tests\<close> (the
    unit tests of \<open>consensus.rs\<close>): the tests of the repository as scripts that the model runs.

  \<^bold>\<open>How code becomes definitions.\<close>  A function that takes \<open>Env\<close> is a value of type
  \<open>('w, 'a) contract\<close>: it maps a context and a state to an outcome (\<open>Ok\<close>, an error of the
  contract, or a trap) and the state reached.  \<open>?\<close> is \<open>bindM\<close>, \<open>require_auth\<close> and \<open>panic!\<close> are
  traps, \<open>+\<close> on integers traps on overflow (the release profile has \<open>overflow-checks\<close> on).
  Loops are structural recursions over the list they iterate, so there is no fuel.  The state of
  the other contracts is the type variable \<open>'w\<close>; what they do is the record \<open>externs\<close>, a
  parameter.  They cannot call back into this contract while it runs, since the host forbids
  re-entry.  A property that needs something of them states it (\<open>token_laws\<close>, \<open>keeps_funds\<close>,
  \<open>token_live\<close>, \<open>vault_pays\<close>, \<open>counts_payouts\<close>), and its instance shows it of the deployment
  of \<open>Vero_Scenario\<close>.
  \<open>reachable P R\<close> means: from an empty storage, by calls in contexts that satisfy \<open>P\<close> and steps
  of the other contracts in \<open>R\<close>, up to an upgrade of the code.

  \<^bold>\<open>What is shown.\<close>
  \<^item> Voting: when \<open>vote\<close> succeeds and with which state, its outcome on every path (C1, C2), no
    resolution below the threshold (C4), no payment without resolution (C5), the audit trail in
    the events, one vote per guardian and task for ever (C6 to C8); the joint effect of several
    votes, the repeated payout, and the refinement of \<open>apply_vote\<close> (C27 to C29, C37, C38).
  \<^item> The specification: every call, and every run of calls, does to the abstract state what
    \<open>Vero_Spec\<close> says, and succeeds exactly if the specified guard holds (C3).
  \<^item> Records: they only grow, tasks follow their life cycle, the registries are consistent
    (C9, C10, C13, C14, C26), two events are never published (C35).
  \<^item> Every call: type safety, the reasons of traps and the freedom from \<open>Locked\<close>, the
    discipline of the lock, pause, signatures, the missing administrator, initialisation
    (C11, C12, C17 to C21).
    What a call leaves alone, and that what was written is read back (C39, C40).
  \<^item> Operations: batch registration, archive, cancellation, reward streams, snapshot, time to
    live (C15, C16, C30 to C34, C36).
  \<^item> Tokens: solvency and withdrawal of one deployment and of many that share the token, round
    trip (C22 to C25).
  \<^item> Validation: the tests of the repository pass in the model (\<open>repository_tests_pass\<close>), which
    checks the definitions against the behaviour the authors of the code expect.

  \<^bold>\<open>Not modelled.\<close>  The encoding of values (XDR), metering, the expiry of the storage when its
  time to live runs out (only \<open>live_until\<close> is kept), and what the new code does after an
  upgrade.  Of the metering only the static table of \<open>gas.rs\<close> is there, without the formulas in
  its comments.  How far the host extends a time to live is its own affair: the field
  \<open>extend_live\<close> of the context, a parameter.

  \<^bold>\<open>Plan.\<close>  All functions of \<open>src/src\<close> and the harnesses and tests are covered.  Open: storage
  expiry and restoration as steps of the environment.
\<close>

section \<open>Voting\<close>

text \<open>The decision \<open>vote\<close> takes, in the order of its checks.\<close>

definition vote_verdict :: "'w ctx \<Rightarrow> 'w env \<Rightarrow> address \<Rightarrow> u64 \<Rightarrow> unit outcome" where
  "vote_verdict C s g t =
    (let \<sigma> = storage s in
     if paused_view \<sigma> then Err ContractPaused
     else if \<not> authorized C g then Trap AuthFailed
     else if lock_held s then Err Locked
     else if \<not> guardian_view \<sigma> g then Err NotAuthorized
     else if token_view \<sigma> = None then Err NotInitialized
     else if sint (locked_view \<sigma> g) \<le> sint (lock_threshold_view \<sigma>) then Err InsufficientLockedBalance
     else if \<sigma> (Voted t g) \<noteq> None then Err DuplicateVote
     else (case reputation_view \<sigma> g of
       None \<Rightarrow> Err NoReputationScore
     | Some w \<Rightarrow>
         if w = 0 then Err ZeroWeightVote
         else (case active_view \<sigma> t of
           None \<Rightarrow> Err NotAuthorized
         | Some x \<Rightarrow>
             if t_is_cancelled x then Err TaskCancelled
             else if unat (t_total_weight_accrued x) + unat w \<ge> 2 ^ 64 then Err WeightOverflow
             else if unat (t_votes x) + 1 \<ge> 2 ^ 32 then Trap ArithmeticOverflow
             else if threshold_view \<sigma> \<le> t_total_weight_accrued x + w \<and> vault_view \<sigma> \<noteq> None \<and>
                     x_release_funds (externs C) (the (vault_view \<sigma>)) t (world s) = None
               then Err EscrowUnavailable
             else Ok ())))"

text \<open>
  C1. In a well-typed storage, \<open>vote\<close> succeeds exactly when the vote is admissible (not
  paused, authorised, lock free, a guardian with more locked than the lock threshold, not
  voted before, non-zero reputation, active task that is not cancelled), neither the weight
  nor the vote counter overflows, and the vault, if it has to be called, releases the funds.
  The final state is then the old one with the vote, the counted task and the events added.
\<close>

theorem vote_succeeds_iff:
  assumes "well_typed (storage s)"
  shows "invoke (vote g t) C s = (Ok (), s') \<longleftrightarrow>
    (\<exists>w x y \<omega>. eligible C s g t w x \<and>
       tally (threshold_view (storage s)) (timestamp C) w x = Some y \<and>
       payout C s t y = Some \<omega> \<and> s' = voted_env s g t w y \<omega>)"
  using vote_Ok_iff [OF assms] by (simp add: invoke_Ok_iff)

theorem vote_succeeds_iff_witness:
  "invoke (vote bob 7) (demo_ctx 1000) demo_open =
     (Ok (), voted_env demo_open bob 7 40
       ((new_task 7)\<lparr>t_total_weight_accrued := 40, t_votes := 1\<rparr>) (world demo_open))"
  by (rule vote_succeeds_iff [OF well_typed_demo_open, THEN iffD2],
      rule exI [of _ 40], rule exI [of _ "new_task 7"])
    (simp add: eligible_def demo_open_eq vote_run_exec)

text \<open>
  C2. The outcome of \<open>vote\<close> is the one of \<open>vote_verdict\<close>: each failing check gives its own
  error, in the order of the source, and a vote that does not succeed leaves the whole
  environment as it was.
\<close>

theorem vote_outcome:
  assumes "well_typed (storage s)"
  shows "fst (invoke (vote g t) C s) = vote_verdict C s g t \<and>
    (vote_verdict C s g t \<noteq> Ok () \<longrightarrow> snd (invoke (vote g t) C s) = s)"
proof -
  have verdict: "fst (invoke (vote g t) C s) = vote_verdict C s g t"
    using assms
    by (simp add: vote_exec vote_verdict_def tally_def payout_def reaches_def checked_add_def Let_def
        token_view_None_iff not_less split: option.split)
  have "snd (invoke (vote g t) C s) = s" if "vote_verdict C s g t \<noteq> Ok ()"
    by (rule invoke_cases [of "vote g t" C s]) (use that verdict in auto)
  with verdict show ?thesis by blast
qed

theorem vote_outcome_witness:
  "fst (invoke (vote (Address 99) 7) (demo_ctx 1000) demo_open) = Err NotAuthorized \<and>
   snd (invoke (vote (Address 99) 7) (demo_ctx 1000) demo_open) = demo_open"
  using vote_outcome [OF well_typed_demo_open, of "Address 99" 7 "demo_ctx 1000"]
  by (simp add: vote_verdict_def demo_open_eq vote_run_exec)

text \<open>
  C3. The contract refines its abstract specification.  In every reachable state a call
  succeeds exactly if the guard of \<open>spec_call\<close> holds, and its effect on the abstract state
  (ballots, resolution times, guardians, balances as integers) is the specified one; hence a
  whole run of calls has the effect of the run of the specification.
\<close>

theorem contract_refines_spec:
  assumes "reachable P R s"
  shows "(fst (invoke (run_call c) C s) = Ok () \<longleftrightarrow> spec_call C c (abs_env s) \<noteq> None) \<and>
    abs_env (call_env C c s) = spec_env C c (abs_env s) \<and>
    abs_env (run_calls C cs s) = fold (spec_env C) cs (abs_env s)"
proof -
  from assms have inv: "contract_inv s" by (rule vero.inv_reach)
  have "fst (invoke (run_call c) C s) = Ok () \<longleftrightarrow> spec_call C c (abs_env s) \<noteq> None"
    using call_refined [OF inv, of C c] by (auto simp: refined_def split: prod.splits outcome.splits)
  with call_env_refined [OF inv] vero_spec.run_abs [OF inv] show ?thesis
    by (simp add: run_calls_def)
qed

theorem contract_refines_spec_witness:
  "\<exists>v. spec_call (demo_ctx 1000) (C_vote alice 7) (abs_env demo_voted) = Some v \<and> v = abs_env demo_done"
proof -
  have run: "call_env (demo_ctx 1000) (C_vote alice 7) demo_voted = demo_done"
    by (simp add: demo_done_def run_calls_def)
  have "fst (invoke (run_call (C_vote alice 7)) (demo_ctx 1000) demo_voted) = Ok ()"
    by (simp add: demo_voted_eq demo_open_eq vote_run_exec)
  with contract_refines_spec [OF demo_reach(2), of "C_vote alice 7" "demo_ctx 1000" "[]"] run
  show ?thesis by (auto simp: spec_env_def)
qed

text \<open>
  C4. No resolution below the threshold: in any reachable state, a step that turns a task
  from unresolved to resolved adds one vote of non-zero weight to that active task, and the
  weight accrued with it is at least the threshold in force.
\<close>

theorem resolution_needs_threshold:
  assumes "reachable P R s" and "contract_step P R s s'"
    and "task_of (storage s) t = Some x" and "\<not> t_is_done x"
    and "task_of (storage s') t = Some y" and "t_is_done y"
  shows "threshold_view (storage s) \<le> t_total_weight_accrued y \<and> active_view (storage s) t = Some x \<and>
    t_total_weight_accrued x < t_total_weight_accrued y \<and> unat (t_votes y) = unat (t_votes x) + 1"
proof -
  from assms(1) have inv: "contract_inv s" by (rule vero.inv_reach)
  obtain w now where x: "fst (homes (storage s) t) = Some x" and w: "w \<noteq> 0"
    and y: "tally (threshold_view (storage s)) now w x = Some y"
    using task_step_resolves [OF contract_step_task_step [OF inv assms(2)]] assms(3-6)
    unfolding task_of_homes by blast
  from tally_SomeD(5) [OF y] assms(4,6) have "threshold_view (storage s) \<le> t_total_weight_accrued y" by simp
  with x w tally_SomeD(1,2) [OF y] show ?thesis
    by (simp add: homes_def word_less_nat_alt unat_gt_0)
qed

theorem resolution_needs_threshold_witness:
  "threshold_view (storage demo_voted) \<le> 340"
proof -
  let ?x = "(new_task 7)\<lparr>t_total_weight_accrued := 40, t_votes := 1\<rparr>"
  let ?y = "\<lparr>t_id = 7, t_votes = 2, t_is_done = True, t_resolved_at = 1000,
       t_total_weight_accrued = 340, t_is_cancelled = False\<rparr>"
  have "task_of (storage demo_voted) 7 = Some ?x" "task_of (storage demo_done) 7 = Some ?y"
    by (simp_all add: demo_voted_eq demo_done_eq task_of_def views)
  then show ?thesis
    using resolution_needs_threshold [OF demo_reach(2) demo_step, of 7 ?x ?y] by (simp add: new_task_def)
qed

text \<open>
  C5. No payment without resolution.  Let the vault count its payments per task.  In every
  reachable state of a deployment that started with no payments, a task has been paid for at
  most as often as its resolution was published, and this at most as often as it was voted on;
  a task that has been paid for at all is resolved.
\<close>

theorem payouts_backed:
  assumes "counts_payouts X paid"
    and "reach (unpaid_env paid) (contract_step (\<lambda>C. externs C = X) (count_kept paid)) s"
  shows "paid (world s) t \<le> resolutions t (events s) \<and>
    resolutions t (events s) \<le> vote_count t (events s) \<and>
    (0 < paid (world s) t \<longrightarrow> (\<exists>x. task_of (storage s) t = Some x \<and> t_is_done x))"
proof -
  from payout_reach [OF assms] have inv: "contract_inv s" and pay: "payout_inv paid s" by simp_all
  from inv have "(\<exists>w. TaskResolved t w \<in> set (events s)) \<longleftrightarrow> resolved_in (storage s) t"
    by (simp add: contract_inv_def ledger_inv_def log_inv_def)
  moreover have "0 < resolutions t (events s)" if "0 < paid (world s) t"
    using pay that by (meson order.strict_trans2 payout_inv_def)
  ultimately show ?thesis
    using pay by (auto simp: payout_inv_def resolutions_pos resolved_in_iff)
qed

theorem payouts_backed_witness:
  "count_list (d_released (world demo_done)) 7 \<le> 1"
proof -
  let ?paid = "\<lambda>w t. count_list (d_released w) t"
  have counts: "counts_payouts demo_externs ?paid"
    by (auto simp: counts_payouts_def demo_externs_def demo_transfer_def Let_def fun_eq_iff split: if_splits)
  have start: "unpaid_env ?paid demo_start" by (simp add: unpaid_env_def fresh_env_def demo_start_def)
  have "reach (unpaid_env ?paid) (contract_step (\<lambda>C. externs C = demo_externs) (count_kept ?paid)) demo_done"
    unfolding demo_done_def demo_voted_def demo_open_def run_calls_append
    by (rule run_calls_reach [OF reach_init [of "unpaid_env ?paid", OF start], THEN conjunct1])
      (auto simp: demo_start_def demo_setup_def demo_ctx_def contract_inv_init fresh_env_def)
  from payouts_backed [OF counts this, of 7] show ?thesis
    by (simp add: demo_done_eq)
qed

text \<open>
  C6. The audit trail.  In every reachable state the record of a task, active or archived,
  is what the published events say: as many votes as \<open>wt_vote\<close> events, the sum of their
  weights (each of them positive, the sum never having wrapped around), and resolved exactly
  if a \<open>resolved\<close> event was published for it.
\<close>

theorem audit_trail:
  assumes "reachable P R s" and "task_of (storage s) t = Some x"
  shows "unat (t_votes x) = vote_count t (events s) \<and>
    unat (t_total_weight_accrued x) = vote_weight t (events s) \<and>
    list_all (\<lambda>(g, w). w \<noteq> 0) (votes_of t (events s)) \<and>
    (t_is_done x \<longleftrightarrow> (\<exists>w. TaskResolved t w \<in> set (events s)))"
proof -
  from assms(1) have "contract_inv s" by (rule vero.inv_reach)
  then have "log_inv (storage s) (events s)" by (simp add: contract_inv_def ledger_inv_def)
  with assms(2) resolved_in_task [OF assms(2)] show ?thesis
    by (auto simp: log_inv_def list_all_iff)
qed

theorem audit_trail_witness:
  "vote_count 7 (events demo_done) = 2 \<and> vote_weight 7 (events demo_done) = 340"
proof -
  let ?y = "\<lparr>t_id = 7, t_votes = 2, t_is_done = True, t_resolved_at = 1000,
       t_total_weight_accrued = 340, t_is_cancelled = False\<rparr>"
  have "task_of (storage demo_done) 7 = Some ?y"
    by (simp add: demo_done_eq task_of_def views)
  then show ?thesis using audit_trail [OF demo_reach(3), of 7 ?y] by simp
qed

text \<open>
  C7. One vote per guardian and task.  In every reachable state the published votes of a task
  come from distinct guardians, these are exactly the guardians with a \<open>Voted\<close> flag for it,
  and \<open>AllVotes\<close> lists every flag once.
\<close>

theorem one_vote_per_guardian:
  assumes "reachable P R s"
  shows "distinct (map fst (votes_of t (events s))) \<and>
    set (map fst (votes_of t (events s))) = {g. storage s (Voted t g) \<noteq> None} \<and>
    distinct (votes_view (storage s)) \<and>
    set (votes_view (storage s)) = {(t, g). storage s (Voted t g) \<noteq> None}"
proof -
  from assms have inv: "contract_inv s" by (rule vero.inv_reach)
  then have "indexed voted_key AllVotes as_votes (storage s)"
    by (simp add: contract_inv_def ledger_inv_def votes_inv_def)
  then have "distinct (votes_view (storage s))"
    "set (votes_view (storage s)) = {(t, g). storage s (Voted t g) \<noteq> None}"
    by (auto simp: indexed_def votes_view_def voted_key_def split: prod.splits)
  with ledger_voters [OF inv, of t] show ?thesis by blast
qed

theorem one_vote_per_guardian_witness:
  "distinct (map fst (votes_of 7 (events demo_done))) \<and> length (votes_of 7 (events demo_done)) = 2"
  using one_vote_per_guardian [OF demo_reach(3), of 7] by (simp add: demo_done_eq)

text \<open>
  C8. A guardian who has voted on a task can never vote on it again, whatever happens in
  between: removal and re-admission, a new reputation, a changed threshold, an archived task.
\<close>

theorem no_second_vote:
  assumes "reachable P R s" and "invoke (vote g t) C s = (Ok (), s1)"
    and "(contract_step P R)\<^sup>*\<^sup>* s1 s2"
  shows "fst (invoke (vote g t) C' s2) \<noteq> Ok ()"
proof -
  from assms(1) have inv: "contract_inv s" by (rule vero.inv_reach)
  note wt = contract_inv_wt [OF inv]
  from assms(2) have run: "vote g t C s = (Ok (), s1)" by (simp add: invoke_Ok_iff)
  then have inv1: "contract_inv s1" by (rule vote_inv [OF inv])
  from run wt have "storage s1 (Voted t g) \<noteq> None" by (auto simp: vote_Ok_iff voted_env_def)
  with steps_evolve [OF inv1 assms(3)] have "storage s2 (Voted t g) \<noteq> None" by (simp add: evolves_def)
  moreover have "well_typed (storage s2)"
    using vero.inv_steps [OF assms(3) inv1] by (rule contract_inv_wt)
  ultimately show ?thesis
    by (cases "vote g t C' s2") (auto simp: vote_Ok_iff eligible_def)
qed

theorem no_second_vote_witness: "fst (invoke (vote bob 7) (demo_ctx 5000) demo_voted) \<noteq> Ok ()"
proof -
  have "invoke (vote bob 7) (demo_ctx 1000) demo_open = (Ok (), demo_voted)"
    by (simp add: demo_voted_def demo_open_eq vote_run_exec)
  with demo_reach(1) show ?thesis by (rule no_second_vote) simp
qed

section \<open>The records of the contract\<close>

text \<open>
  C9. The records only grow.  Along any run from a reachable state a task keeps its identity,
  stays resolved once resolved and cancelled once cancelled, never loses votes or weight; an
  archived task never changes again; votes and reward streams stay; the token and the lock
  threshold stay once set; events are only appended.
\<close>

theorem records_only_grow:
  assumes "reachable P R s" and "(contract_step P R)\<^sup>*\<^sup>* s s'"
  shows "evolves s s'"
  using vero.inv_reach [OF assms(1)] assms(2) by (rule steps_evolve)

theorem records_only_grow_witness: "evolves demo_voted demo_done"
  by (rule records_only_grow [OF demo_reach(2) r_into_rtranclp, of demo_done]) (rule demo_step)

text \<open>
  C10. The contract refines the life cycle of a task: every step of the contract moves every
  task along \<open>phase_step\<close> (register, resolve, cancel, archive) or leaves its phase alone.  In
  particular a task cancelled while open is never resolved or archived.
\<close>

theorem life_cycle:
  assumes "reachable P R s" and "contract_step P R s s'"
  shows "phase_step (phase_of (homes (storage s) t)) (phase_of (homes (storage s') t))"
  using contract_step_task_step [OF vero.inv_reach [OF assms(1)] assms(2)] by (rule task_step_phase)

theorem life_cycle_witness:
  "phase_of (homes (storage demo_voted) 7) = Open \<and> phase_of (homes (storage demo_done) 7) = Resolved \<and>
   phase_step (phase_of (homes (storage demo_voted) 7)) (phase_of (homes (storage demo_done) 7))"
  using life_cycle [OF demo_reach(2) demo_step, of 7]
  by (simp add: homes_def demo_voted_eq demo_done_eq views new_task_def)

section \<open>Safety of every call\<close>

text \<open>
  C11. Safety of every call.  In every reachable state each stored value has the type its key is
  read with, so no read of the storage can fail to convert, and a call can trap only for the
  reasons of \<open>may_trap\<close>; in particular no \<open>unwrap\<close> of the token address panics.  The lock is
  free between calls, so a failed call cannot leave it behind and no call is ever turned away
  with \<open>Locked\<close>.
\<close>

theorem type_safety:
  assumes "reachable P R s"
  shows "well_typed (storage s) \<and> \<not> lock_held s \<and>
    (\<forall>c C r. fst (invoke (run_call c) C s) = Trap r \<longrightarrow> may_trap C s c r) \<and>
    (\<forall>c C. fst (invoke (run_call c) C s) \<noteq> Err Locked)"
proof -
  from vero.inv_reach [OF assms] have wt: "well_typed (storage s)" and free: "\<not> lock_held s"
    by (simp_all add: contract_inv_def)
  have "fst (run_call c C s) \<noteq> Err Locked" for c C by (rule run_call_not_locked [OF wt free])
  moreover have "may_trap C s c r" if "fst (run_call c C s) = Trap r" for c C r
    by (rule run_call_traps [OF wt that])
  ultimately show ?thesis using wt free by simp
qed

theorem type_safety_witness:
  "fst (invoke (run_call (C_unlock_tokens bob)) (demo_ctx 1000) demo_done) \<noteq> Trap Panicked \<and>
   fst (invoke (run_call (C_vote bob 8)) (demo_ctx 1000) demo_done) \<noteq> Err Locked"
proof -
  have "\<not> may_trap (demo_ctx 1000) demo_done (C_unlock_tokens bob) Panicked" by simp
  with type_safety [OF demo_reach(3)] show ?thesis by blast
qed

text \<open>
  C12. Lock discipline.  \<open>vote\<close>, \<open>register_tasks\<close> and \<open>cancel_task\<close> do nothing while the
  lock is held; when they get it, every path on which they return, errors included, has
  released it, before the frame of the invocation undoes anything.
\<close>

theorem lock_discipline:
  assumes "well_typed (storage s)"
    and "m \<in> {vote g t, register_tasks g ts, task_cancel_task g t}"
    and "\<forall>r. fst (m C s) \<noteq> Trap r"
  shows "if lock_held s then (\<exists>e. m C s = (Err e, s)) else \<not> lock_held (snd (m C s))"
  using assms vote_discipline [OF assms(1), of g t C] register_discipline [of g ts C s]
    cancel_discipline [of g t C s]
  by blast

theorem lock_discipline_witness:
  "\<not> lock_held (snd (register_tasks admin1 [8, 7] (demo_ctx 1000) demo_open))"
proof -
  have "\<forall>r. fst (register_tasks admin1 [8, 7] (demo_ctx 1000) demo_open) \<noteq> Trap r" "\<not> lock_held demo_open"
    by (simp_all add: demo_open_eq run_exec)
  then show ?thesis
    using lock_discipline [OF well_typed_demo_open,
        of "register_tasks admin1 [8, 7]" admin1 7 "[8, 7]" "demo_ctx 1000"] by simp
qed

text \<open>
  C13. The task registry.  In every reachable state \<open>AllTasks\<close> lists each registered task
  once, a task is active or archived but never both, it is stored under its own identifier,
  and an archived task is resolved with a recorded time.
\<close>

theorem task_registry:
  assumes "reachable P R s"
  shows "distinct (tasks_view (storage s)) \<and>
    (\<forall>t. t \<in> set (tasks_view (storage s)) \<longleftrightarrow>
       active_view (storage s) t \<noteq> None \<or> archived_view (storage s) t \<noteq> None) \<and>
    (\<forall>t x. active_view (storage s) t = Some x \<longrightarrow> t_id x = t \<and> archived_view (storage s) t = None) \<and>
    (\<forall>t x. archived_view (storage s) t = Some x \<longrightarrow> t_id x = t \<and> t_is_done x \<and> t_resolved_at x \<noteq> 0)"
proof -
  have "task_of (storage s) t \<noteq> None \<longleftrightarrow>
      active_view (storage s) t \<noteq> None \<or> archived_view (storage s) t \<noteq> None" for t
    by (simp add: task_of_def split: option.split)
  with vero.inv_reach [OF assms] show ?thesis
    by (simp add: contract_inv_def ledger_inv_def tasks_inv_def)
qed

theorem task_registry_witness: "distinct (tasks_view (storage demo_done)) \<and> tasks_view (storage demo_done) = [7]"
  using task_registry [OF demo_reach(3)] by (simp add: demo_done_eq demo_open_eq views)

text \<open>
  C14. Reward streams.  In every reachable state \<open>AllRewardStreams\<close> lists each stream once,
  and each stream is active, stored under the task it names, and belongs to a resolved task.
\<close>

theorem reward_streams_sound:
  assumes "reachable P R s"
  shows "distinct (streams_view (storage s)) \<and>
    (\<forall>t. t \<in> set (streams_view (storage s)) \<longleftrightarrow> stream_view (storage s) t \<noteq> None) \<and>
    (\<forall>t r. stream_view (storage s) t = Some r \<longrightarrow>
       rs_task_id r = t \<and> rs_active r \<and> (\<exists>x. task_of (storage s) t = Some x \<and> t_is_done x))"
proof -
  from vero.inv_reach [OF assms] have wt: "well_typed (storage s)" and inv: "streams_inv (storage s)"
    by (simp_all add: contract_inv_def ledger_inv_def)
  from wt have "stream_view (storage s) t = None \<longleftrightarrow> storage s (RewardStream t) = None" for t
    by (simp add: views look_None_iff)
  with inv show ?thesis
    by (simp add: streams_inv_def indexed_def streams_view_def resolved_in_iff)
qed

theorem reward_streams_sound_witness:
  "streams_view (storage demo_streamed) = [7] \<and> rs_active (new_stream drips1 carol 7)"
proof -
  have "stream_view (storage demo_streamed) 7 = Some (new_stream drips1 carol 7)"
    "streams_view (storage demo_streamed) = [7]"
    by (simp_all add: demo_streamed_eq views)
  with reward_streams_sound [OF demo_reach_after(1)] show ?thesis by blast
qed

text \<open>
  C35. Two events never reach the ledger: the \<open>rw_fail\<close> event, because the invocation that
  publishes it fails and is undone with its events, and the \<open>paused\<close> event, which nothing
  publishes.
\<close>

theorem events_never_published:
  assumes "reachable P R s"
  shows "RewardStreamFailed t c \<notin> set (events s) \<and> PauseToggled b \<notin> set (events s)"
  using reachable_surfaced [OF assms] by (auto simp: list_all_iff)

theorem events_never_published_witness: "RewardStreamFailed 7 carol \<notin> set (events demo_streamed)"
  using events_never_published [OF demo_reach_after(1), of 7 carol True] by blast

section \<open>The operations on tasks\<close>

text \<open>
  C15. A batch is registered as a whole or not at all.  It is accepted exactly when it has at
  most 32 identifiers, pairwise different, none of them active or archived (and the caller is
  authorised and the lock free); then each of them becomes a new task, the list of all tasks
  grows by the batch, and nothing else changes.
\<close>

theorem register_batch:
  assumes "well_typed (storage s)" and "length ts < 2 ^ 32"
  shows "let res = invoke (register_tasks a ts) C s in
    (fst res = Ok () \<longleftrightarrow> length ts \<le> 32 \<and> authorized C a \<and> \<not> lock_held s \<and> distinct ts \<and>
      (\<forall>t\<in>set ts. active_view (storage s) t = None \<and> archived_view (storage s) t = None)) \<and>
    (if fst res = Ok ()
     then storage (snd res) = (\<lambda>k. case k of
         ActiveTask t \<Rightarrow> if t \<in> set ts then Some (VTask (new_task t)) else storage s k
       | AllTasks \<Rightarrow> Some (VIds (tasks_view (storage s) @ ts))
       | _ \<Rightarrow> storage s k) \<and> events (snd res) = events s \<and> world (snd res) = world s
     else snd res = s)"
proof -
  have "vec_len ts > 32 \<longleftrightarrow> length ts > 32"
    using unat_vec_len [OF assms(2)] by (simp add: word_less_nat_alt)
  with assms(1) show ?thesis
    unfolding Let_def
    by (auto simp: invoke_def register_tasks_exec registrable_def fresh_id_def task_view_None_iff
        fun_eq_iff put_tasks_apply split: data_key.split)
qed

theorem register_batch_witness:
  "fst (invoke (register_tasks admin1 [8, 9]) (demo_ctx 1000) demo_open) = Ok () \<and>
   invoke (register_tasks admin1 [8, 8]) (demo_ctx 1000) demo_open = (Err NotAuthorized, demo_open)"
  using register_batch [OF well_typed_demo_open, of "[8, 9]" admin1 "demo_ctx 1000"]
    register_batch [OF well_typed_demo_open, of "[8, 8]" admin1 "demo_ctx 1000"]
  by (cases "invoke (register_tasks admin1 [8, 8]) (demo_ctx 1000) demo_open")
    (auto simp: demo_open_eq run_exec)

text \<open>
  C16. A task can be archived only when it has been resolved for more than thirty days (a
  comparison of exact times, with no wrap-around).  The archive then returns the very same
  record, the task is no longer active, and its identifier can never be registered again.
\<close>

theorem archive_roundtrip:
  assumes "reachable P R s" and "invoke (archive_task t) C s = (Ok (), s1)"
  shows "\<exists>x. active_view (storage s) t = Some x \<and> t_is_done x \<and>
    unat (timestamp C) > unat (t_resolved_at x) + 30 * 24 * 60 * 60 \<and>
    invoke (get_archived_task t) C s1 = (Ok (Some x), s1) \<and> invoke (get_task t) C s1 = (Ok None, s1) \<and>
    (\<forall>s2 a C'. (contract_step P R)\<^sup>*\<^sup>* s1 s2 \<longrightarrow> fst (invoke (register_task a t) C' s2) \<noteq> Ok ())"
proof -
  from assms(1) have inv: "contract_inv s" by (rule vero.inv_reach)
  note wt = contract_inv_wt [OF inv]
  from assms(2) have run: "run_call (C_archive_task t) C s = (Ok (), s1)" by (simp add: invoke_Ok_iff)
  from inv run have inv1: "contract_inv s1" by (rule run_call_inv)
  note wt1 = contract_inv_wt [OF inv1]
  from run wt obtain x where np: "\<not> paused_view (storage s)" and x: "active_view (storage s) t = Some x"
    and st: "t_is_done x" "stale (timestamp C) x"
    and s1: "s1 = s\<lparr>storage := (storage s)(ArchivedTask t \<mapsto> VTask x, ActiveTask t := None),
                    events := events s @ [TaskArchived t (t_resolved_at x)]\<rparr>"
    by (auto simp: archive_task_entry_exec split: if_splits option.splits)
  from np wt1 have "invoke (get_archived_task t) C s1 = (Ok (Some x), s1)" "invoke (get_task t) C s1 = (Ok None, s1)"
    by (simp_all add: get_archived_task_def get_task_def invoke_def exec) (simp_all add: s1 views)
  moreover have "fst (invoke (register_task a t) C' s2) \<noteq> Ok ()"
    if "(contract_step P R)\<^sup>*\<^sup>* s1 s2" for s2 a C'
  proof -
    have "archived_view (storage s1) t = Some x" by (simp add: s1 views)
    with steps_evolve [OF inv1 that] have "archived_view (storage s2) t = Some x"
      by (auto simp: evolves_def)
    moreover have wt2: "well_typed (storage s2)"
      by (rule contract_inv_wt [OF vero.inv_steps [OF that inv1]])
    ultimately show ?thesis
      using task_view_None_iff(2) [OF wt2, of t]
      by (auto simp: guarded_exec register_tasks_exec registrable_def fresh_id_def)
  qed
  ultimately show ?thesis using x st by (auto simp: stale_def)
qed

theorem archive_roundtrip_witness:
  "\<exists>x. invoke (get_archived_task 7) (demo_ctx 2593001) demo_archived = (Ok (Some x), demo_archived)"
proof -
  have "invoke (archive_task 7) (demo_ctx 2593001) demo_streamed = (Ok (), demo_archived)"
    by (simp add: demo_archived_def run_calls_def call_env_def invoke_def archive_task_entry_exec
      stale_def demo_streamed_eq demo_done_eq demo_open_eq views demo_ctx_def)
  from archive_roundtrip [OF demo_reach_after(1) this] show ?thesis by blast
qed

section \<open>Pausing, signatures, configuration\<close>

text \<open>
  C17. The circuit breaker.  After any positive number of failure reports the counter has
  grown by that number, the contract is paused exactly if it was before or the counter has
  passed 50, and the trip is announced once, when the breaker opens.
\<close>

theorem circuit_breaker_trips:
  assumes "well_typed (storage s)" and "unat (failures_view (storage s)) + n < 2 ^ 32" and "0 < n"
  shows "let s' = run_calls C (replicate n C_record_failure) s in
    unat (failures_view (storage s')) = unat (failures_view (storage s)) + n \<and>
    (paused_view (storage s') \<longleftrightarrow> paused_view (storage s) \<or> unat (failures_view (storage s)) + n > 50) \<and>
    length (trips (events s')) = length (trips (events s)) +
      (if \<not> paused_view (storage s) \<and> unat (failures_view (storage s)) + n > 50 then 1 else 0)"
  using record_failures [OF assms, of C] by (simp add: Let_def)

theorem circuit_breaker_trips_witness:
  "paused_view (storage (run_calls (demo_ctx 1000) (replicate 51 C_record_failure) demo_open)) \<and>
   \<not> paused_view (storage (run_calls (demo_ctx 1000) (replicate 50 C_record_failure) demo_open))"
proof -
  have "failures_view (storage demo_open) = 0" "\<not> paused_view (storage demo_open)"
    by (simp_all add: demo_open_eq views)
  with circuit_breaker_trips [OF well_typed_demo_open, of 51 "demo_ctx 1000"]
    circuit_breaker_trips [OF well_typed_demo_open, of 50 "demo_ctx 1000"]
  show ?thesis by (simp add: Let_def)
qed

text \<open>
  C18. What the pause does.  A paused contract refuses every guarded call (guardians,
  reputation, tasks, votes, archive, reward streams) with \<open>ContractPaused\<close> and stays as it is;
  the outcome of every other call (locking and unlocking tokens, resigning, the weight
  threshold, the vault address, upgrades, the switches themselves) does not depend on the pause.
\<close>

theorem pause_scope:
  assumes "reachable P R s"
  shows "if pause_guarded c
    then paused_view (storage s) \<longrightarrow> invoke (run_call c) C s = (Err ContractPaused, s)
    else fst (invoke (run_call c) C (s\<lparr>storage := (storage s)(Paused \<mapsto> VBool b)\<rparr>)) =
      fst (invoke (run_call c) C s)"
proof -
  have wt: "well_typed (storage s)" by (rule contract_inv_wt [OF vero.inv_reach [OF assms]])
  show ?thesis
  proof (cases "pause_guarded c")
    case True
    with paused_call_blocked [OF wt, of c C] show ?thesis by (simp add: invoke_def)
  next
    case False
    with pause_irrelevant_call [OF wt False, of C b] show ?thesis by simp
  qed
qed

theorem pause_scope_witness:
  "let s = run_calls (demo_ctx 1000) [C_pause admin1] demo_open
   in invoke (run_call (C_vote alice 7)) (demo_ctx 1000) s = (Err ContractPaused, s) \<and>
      fst (invoke (set_weight_threshold admin1 1) (demo_ctx 1000) s) = Ok ()"
proof -
  let ?s = "run_calls (demo_ctx 1000) [C_pause admin1] demo_open"
  have reach: "reachable (\<lambda>_. True) (\<lambda>_ _. True) ?s"
    by (rule reachable_run_calls [OF demo_reach(1)]) (simp_all add: demo_open_eq)
  have "paused_view (storage ?s)" by (simp add: demo_open_eq run_exec)
  moreover have "fst (invoke (set_weight_threshold admin1 1) (demo_ctx 1000) ?s) = Ok ()"
    using pause_scope [OF reach, of "C_set_weight_threshold admin1 1" "demo_ctx 1000" False]
    by (simp add: config_exec demo_ctx_def)
  ultimately show ?thesis
    using pause_scope [OF reach, of "C_vote alice 7" "demo_ctx 1000" False] by (simp add: Let_def)
qed

text \<open>
  C19. A call that needs the signature of an address fails without it, and changes nothing.
\<close>

theorem unsigned_changes_nothing:
  assumes "reachable P R s" and "signer c = Some a" and "\<not> authorized C a"
  shows "fst (invoke (run_call c) C s) \<noteq> Ok () \<and> call_env C c s = s"
proof -
  have "fst (run_call c C s) \<noteq> Ok ()"
    by (rule unsigned_call_fails [OF contract_inv_wt [OF vero.inv_reach [OF assms(1)]] assms(2,3)])
  then show ?thesis by (cases rule: call_env_cases [of c C s]) auto
qed

theorem unsigned_changes_nothing_witness:
  "call_env (demo_ctx 1000) (C_unlock_tokens (Address 0)) demo_done = demo_done"
  using unsigned_changes_nothing [OF demo_reach(3), of "C_unlock_tokens (Address 0)" "Address 0" "demo_ctx 1000"]
  by (simp add: demo_ctx_def)

text \<open>
  C20. There is no administrator.  The key \<open>Admin\<close> is never written, \<open>get_admin\<close> always
  answers \<open>None\<close>, and a call that names an administrator has the same effect whichever
  address it names, as long as that address has signed.
\<close>

theorem anyone_is_admin:
  assumes "reachable P R s" and "signer c = Some a" and "authorized C a" and "authorized C b"
  shows "invoke get_admin C s = (Ok None, s) \<and>
    invoke (run_call (with_admin b c)) C s = invoke (run_call c) C s"
proof -
  from vero.inv_reach [OF assms(1)] have wt: "well_typed (storage s)" and "storage s Admin = None"
    by (simp_all add: contract_inv_def config_inv_def)
  then have "invoke get_admin C s = (Ok None, s)"
    by (simp add: get_admin_def invoke_def exec look_def)
  with with_admin_same [OF wt assms(2-4)] show ?thesis by (simp add: invoke_def)
qed

theorem anyone_is_admin_witness:
  "fst (invoke (set_reputation (Address 99) bob 1000) (demo_ctx 1000) demo_open) = Ok ()"
  using anyone_is_admin [OF demo_reach(1), of "C_set_reputation admin1 bob 1000" admin1 "demo_ctx 1000" "Address 99"]
  by (simp add: demo_ctx_def demo_open_eq run_exec)

text \<open>
  C21. The contract is initialised once.  From then on the token and the lock threshold are
  those of that call, and every further \<open>initialize\<close> fails without effect.
\<close>

theorem initialized_once:
  assumes "reachable P R s" and "invoke (initialize token n) C s = (Ok (), s1)"
    and "(contract_step P R)\<^sup>*\<^sup>* s1 s2"
  shows "token_view (storage s2) = Some token \<and> lock_threshold_view (storage s2) = n \<and>
    invoke (initialize token' n') C' s2 = (Err AlreadyInitialized, s2)"
proof -
  from assms(1) have inv: "contract_inv s" by (rule vero.inv_reach)
  from assms(2) have run: "run_call (C_initialize token n) C s = (Ok (), s1)" by (simp add: invoke_Ok_iff)
  from inv run have inv1: "contract_inv s1" by (rule run_call_inv)
  from run contract_inv_wt [OF inv] have "storage s1 TokenAddress = Some (VAddress token)"
    "storage s1 LockThreshold = Some (VI128 n)"
    by (auto simp: initialize_exec split: if_splits)
  with steps_evolve [OF inv1 assms(3)] have s2: "storage s2 TokenAddress = Some (VAddress token)"
    "storage s2 LockThreshold = Some (VI128 n)"
    by (auto simp: evolves_def)
  from vero.inv_steps [OF assms(3) inv1] s2 have "well_typed (storage s2)" "initialized_view (storage s2)"
    by (simp_all add: contract_inv_def config_inv_def)
  with s2 show ?thesis by (simp add: invoke_def initialize_exec views look_def look_or_def)
qed

theorem initialized_once_witness:
  "let s = run_calls (demo_ctx 1000) [C_initialize token1 100] demo_start
   in invoke (initialize vault1 5) (demo_ctx 2000) s = (Err AlreadyInitialized, s)"
proof -
  let ?s = "run_calls (demo_ctx 1000) [C_initialize token1 100] demo_start"
  have "invoke (initialize token1 100) (demo_ctx 1000) demo_start = (Ok (), ?s)"
    by (simp add: demo_start_def run_exec)
  from initialized_once [OF reachable_demo_start [of "\<lambda>_. True" "\<lambda>_ _. True"] this rtranclp.rtrancl_refl]
  show ?thesis by (simp add: Let_def)
qed

section \<open>Locked tokens and guardians\<close>

text \<open>
  C22. Solvency.  If the token contract keeps its books (\<open>token_laws\<close>) and no other contract
  spends this contract's tokens, then in every reachable state of a deployment no locked
  balance is negative and the contract owns at least the sum of all locked balances.
\<close>

theorem solvency:
  assumes "token_laws X balance" and "keeps_funds X balance me"
    and "reachable (deployed X me) (funds_kept balance me) s" and "token_view (storage s) = Some token"
  shows "finite (holders (storage s)) \<and> (\<forall>g. 0 \<le> sint (locked_view (storage s) g)) \<and>
    (\<Sum>g\<in>holders (storage s). sint (locked_view (storage s) g)) \<le> balance (world s) token me"
  using funds_reach [OF assms(1-3)] assms(4) by (simp add: funds_inv_def total_locked_def)

theorem solvency_witness:
  "(\<Sum>g\<in>holders (storage demo_done). sint (locked_view (storage demo_done) g))
     \<le> demo_balance (world demo_done) token1 (Address 0)"
proof -
  have "reachable (deployed demo_externs (Address 0)) (funds_kept demo_balance (Address 0)) demo_done"
    by (rule reachable_demo(3)) (rule demo_deployed)
  moreover have "token_view (storage demo_done) = Some token1" by (simp add: demo_done_eq demo_open_eq views)
  ultimately show ?thesis using solvency [OF demo_laws(1,2)] by blast
qed

text \<open>
  C23. The way out is always open.  If besides a transfer that the sender's balance covers
  never fails, then in every reachable state, paused or not, a guardian who signs can resign
  and a former guardian who signs can unlock: the call succeeds, the guardian is out, nothing
  stays locked, and the whole locked balance has come back.
\<close>

theorem withdrawal_always_possible:
  assumes "token_laws X balance" and "keeps_funds X balance me" and "token_live X balance"
    and "reachable (deployed X me) (funds_kept balance me) s" and "token_view (storage s) = Some token"
    and "deployed X me C" and "authorized C g"
  shows "\<exists>s'. invoke (if guardian_view (storage s) g then resign_guardian g else unlock_tokens g) C s = (Ok (), s') \<and>
    locked_view (storage s') g = 0 \<and> \<not> guardian_view (storage s') g \<and>
    balance (world s') token g = balance (world s) token g + sint (locked_view (storage s) g)"
proof -
  from funds_reach [OF assms(1,2,4)] have cinv: "contract_inv s" and inv: "funds_inv balance me s" by simp_all
  note wt = contract_inv_wt [OF cinv]
  from withdraw_succeeds [OF assms(3,6,7) wt assms(5) inv] obtain s' where run: "withdraw s g C s = (Ok (), s')" ..
  from inv have "0 \<le> sint (locked_view (storage s) g)" by (simp add: funds_inv_def)
  from withdraw_pays [OF assms(1,6,7) wt assms(5) this run] run show ?thesis
    unfolding withdraw_def invoke_Ok_iff by blast
qed

theorem withdrawal_always_possible_witness:
  "\<exists>s'. invoke (resign_guardian bob) (demo_ctx 1000) demo_done = (Ok (), s') \<and> locked_view (storage s') bob = 0"
proof -
  have reach: "reachable (deployed demo_externs (Address 0)) (funds_kept demo_balance (Address 0)) demo_done"
    by (rule reachable_demo(3)) (rule demo_deployed)
  have s: "token_view (storage demo_done) = Some token1" "authorized (demo_ctx 1000) bob"
    "guardian_view (storage demo_done) bob"
    by (simp_all add: demo_done_eq demo_open_eq views demo_ctx_def)
  from withdrawal_always_possible [OF demo_laws reach s(1) demo_deployed s(2)] s(3) show ?thesis by auto
qed

text \<open>
  C24. Many deployments, one token.  Let several deployments share the token and all other
  contracts, their calls interleaved in any order.  Each of them runs as if it were alone with
  an environment that leaves its tokens alone, each owns at least what it owes, and from each
  of them everyone who signs can withdraw, whatever the others have done.
\<close>

theorem fleet_solvent:
  assumes "token_laws X balance" and "\<forall>a\<in>D. keeps_funds X balance a" and "token_live X balance"
    and "fleet_reach X balance D F" and "a \<in> D" and "token_view (storage (f_instance F a)) = Some token"
  shows "reachable (deployed X a) (funds_kept balance a) (instance_at F a) \<and>
    total_locked (storage (f_instance F a)) \<le> balance (f_world F) token a \<and>
    (\<forall>C g. fleet_ctx X D C \<and> self C = a \<and> authorized C g \<longrightarrow>
       fst (invoke (if guardian_view (storage (f_instance F a)) g then resign_guardian g else unlock_tokens g)
         C (instance_at F a)) = Ok ())"
proof -
  let ?s = "instance_at F a"
  have same: "storage ?s = storage (f_instance F a)" "world ?s = f_world F" by (simp_all add: instance_at_def)
  from member_reachable [OF assms(1,2,4)] assms(5)
  have reach: "reachable (deployed X a) (funds_kept balance a) ?s" by blast
  with assms(1,2,5) have cinv: "contract_inv ?s" and inv: "funds_inv balance a ?s"
    by (blast dest: funds_reach)+
  have "fst (withdraw ?s g C ?s) = Ok ()" if "fleet_ctx X D C" "self C = a" "authorized C g" for C g
  proof -
    from that assms(5) have "deployed X a C" by (auto simp: fleet_ctx_def deployed_def)
    from withdraw_succeeds [OF assms(3) this that(3) contract_inv_wt [OF cinv] _ inv] assms(6) same
    show ?thesis by fastforce
  qed
  with reach inv assms(6) same show ?thesis by (auto simp: funds_inv_def withdraw_def)
qed

theorem fleet_solvent_witness:
  "total_locked (storage (f_instance fleet_demo (Address 5))) \<le> demo_balance (f_world fleet_demo) token1 (Address 5) \<and>
   fst (invoke (unlock_tokens bob) (fleet_demo_ctx (Address 5)) (instance_at fleet_demo (Address 5))) = Ok ()"
proof -
  have tok: "token_view (storage (f_instance fleet_demo (Address 5))) = Some token1"
    and bob: "\<not> guardian_view (storage (f_instance fleet_demo (Address 5))) bob"
    by (simp_all add: fleet_demo_eq views)
  have C: "fleet_ctx demo_externs {Address 0, Address 5} (fleet_demo_ctx (Address 5))"
    "self (fleet_demo_ctx (Address 5)) = Address 5" "authorized (fleet_demo_ctx (Address 5)) bob"
    by (simp_all add: fleet_demo_ctx) (simp_all add: fleet_demo_ctx_def)
  show ?thesis
    using fleet_solvent [OF demo_laws(1) _ demo_laws(3) fleet_demo_reach _ tok] demo_laws(2) C bob by fastforce
qed

text \<open>
  C25. Lock and withdraw.  Tokens that were locked come back in full: after a successful
  \<open>lock_tokens\<close> and a successful withdrawal the owner has the tokens from before, plus what
  was already locked.
\<close>

theorem lock_withdraw_roundtrip:
  assumes "token_laws X balance" and "deployed X me C" and "well_typed (storage s)"
    and "token_view (storage s) = Some token" and "0 \<le> sint (locked_view (storage s) g)"
    and "invoke (lock_tokens g n) C s = (Ok (), s1)"
    and "invoke (if guardian_view (storage s1) g then resign_guardian g else unlock_tokens g) C s1 = (Ok (), s2)"
  shows "sint (locked_view (storage s1) g) = sint (locked_view (storage s) g) + sint n \<and>
    locked_view (storage s2) g = 0 \<and>
    balance (world s1) token g = balance (world s) token g - sint n \<and>
    balance (world s2) token g = balance (world s) token g + sint (locked_view (storage s) g)"
proof -
  from assms(6) have "lock_tokens g n C s = (Ok (), s1)" by (simp add: invoke_Ok_iff)
  with assms(3,4) obtain w b where auth: "authorized C g"
    and w: "x_token_transfer (externs C) token g (self C) n (world s) = Some w"
    and b: "checked_add_signed (locked_view (storage s) g) n = Some b"
    and s1: "s1 = s\<lparr>storage := (storage s)(LockedBalance g \<mapsto> VI128 b), world := w\<rparr>"
    by (auto simp: lock_tokens_exec split: if_splits option.splits)
  from auth assms(2) have "g \<noteq> self C" by (auto simp: deployed_def)
  with w assms(1,2) have n: "0 \<le> sint n" and bal: "balance w token g = balance (world s) token g - sint n"
    unfolding token_laws_def deployed_def by fastforce+
  note b = checked_add_signed_SomeD [OF b]
  have locked: "locked_view (storage s1) g = b" "token_view (storage s1) = Some token" "well_typed (storage s1)"
    using assms(3,4) by (auto simp: s1 funds_upd)
  with n b assms(5) have "0 \<le> sint (locked_view (storage s1) g)" by simp
  moreover have "withdraw s1 g C s1 = (Ok (), s2)"
    using assms(7) by (simp only: withdraw_def invoke_Ok_iff)
  ultimately have "locked_view (storage s2) g = 0 \<and>
      balance (world s2) token g = balance (world s1) token g + sint (locked_view (storage s1) g)"
    using withdraw_pays [OF assms(1,2) auth locked(3,2)] by blast
  moreover have "world s1 = w" by (simp add: s1)
  ultimately show ?thesis using b bal locked(1) by simp
qed

theorem lock_withdraw_roundtrip_witness:
  "\<exists>s1 s2. invoke (lock_tokens bob 9) (demo_ctx 1000) demo_open = (Ok (), s1) \<and>
     invoke (resign_guardian bob) (demo_ctx 1000) s1 = (Ok (), s2) \<and>
     demo_balance (world s2) token1 bob = demo_balance (world demo_open) token1 bob + 101"
proof -
  let ?s1 = "snd (invoke (lock_tokens bob 9) (demo_ctx 1000) demo_open)"
  let ?s2 = "snd (invoke (resign_guardian bob) (demo_ctx 1000) ?s1)"
  have bal: "d_balance (world demo_open) token1 bob = 399" "d_balance (world demo_open) token1 (Address 0) = 251"
    by (simp_all add: demo_open_def demo_setup_def demo_start_def run_exec)
  have run: "invoke (lock_tokens bob 9) (demo_ctx 1000) demo_open = (Ok (), ?s1)"
    "invoke (resign_guardian bob) (demo_ctx 1000) ?s1 = (Ok (), ?s2)"
    and s: "token_view (storage demo_open) = Some token1" "locked_view (storage demo_open) bob = 101"
      "guardian_view (storage ?s1) bob"
    using bal by (simp_all add: demo_open_eq run_exec)
  have "demo_balance (world ?s2) token1 bob = demo_balance (world demo_open) token1 bob + 101"
    using lock_withdraw_roundtrip [OF demo_laws(1) demo_deployed well_typed_demo_open s(1) _ run(1), of ?s2] run(2) s
    by simp
  with run show ?thesis by blast
qed

text \<open>
  C26. A guardian who is removed and added again is listed twice: removal deletes the record
  but not the entry of \<open>AllGuardians\<close>, and the re-admission appends another one.
\<close>

theorem readmission_duplicates:
  assumes "reachable P R s" and "storage s (Guardian g) \<noteq> None" and "\<not> paused_view (storage s)"
    and "authorized C a"
  shows "let s' = run_calls C [C_remove_guardian a g, C_add_guardian a g] s in
    guardian_view (storage s') g \<and> guardians_view (storage s') = guardians_view (storage s) @ [g] \<and>
    \<not> distinct (guardians_view (storage s'))"
proof -
  from vero.inv_reach [OF assms(1)] have wt: "well_typed (storage s)" and inv: "guardians_inv (storage s)"
    by (simp_all add: contract_inv_def)
  from inv assms(2) have "g \<in> set (guardians_view (storage s))"
    by (auto simp: guardians_inv_def covered_def guardians_view_def)
  moreover from assms(2-4) wt have "let s' = run_calls C [C_remove_guardian a g, C_add_guardian a g] s in
    guardian_view (storage s') g \<and> guardians_view (storage s') = guardians_view (storage s) @ [g]"
    by (simp add: run_calls_def call_env_def invoke_def guarded_exec remove_guardian_exec add_guardian_exec views)
  ultimately show ?thesis by (simp add: Let_def)
qed

theorem readmission_duplicates_witness:
  "\<not> distinct (guardians_view (storage
     (run_calls (demo_ctx 1000) [C_remove_guardian admin1 bob, C_add_guardian admin1 bob] demo_open)))"
proof -
  have "storage demo_open (Guardian bob) \<noteq> None" "\<not> paused_view (storage demo_open)"
    "authorized (demo_ctx 1000) admin1"
    by (simp_all add: demo_open_eq views demo_ctx_def)
  from readmission_duplicates [OF demo_reach(1) this] show ?thesis unfolding Let_def by blast
qed

section \<open>Resolution and payout\<close>

text \<open>
  C27. Collective resolution.  Let different guardians, each of whom may vote on an active
  task, vote one after the other, with room in the counters and a vault that pays.  Then every
  vote is counted; at the end the task has gained exactly the sum of their weights and one
  vote each, and it is resolved exactly if it was before or the sum has reached the threshold,
  whatever the order of the votes.
\<close>

theorem collective_resolution:
  assumes "well_typed (storage s)" and "may_vote C s t w gs" and "vault_pays C (storage s) t" and "gs \<noteq> []"
    and "active_view (storage s) t = Some x" and "\<not> t_is_cancelled x"
    and "unat (t_total_weight_accrued x) + total_of (map w gs) < 2 ^ 64"
    and "unat (t_votes x) + length gs < 2 ^ 32"
  shows "\<exists>y. invoke (get_task t) C (run_calls C (map (\<lambda>g. C_vote g t) gs) s) =
      (Ok (Some y), run_calls C (map (\<lambda>g. C_vote g t) gs) s) \<and>
    unat (t_total_weight_accrued y) = unat (t_total_weight_accrued x) + (\<Sum>g\<leftarrow>gs. unat (w g)) \<and>
    unat (t_votes y) = unat (t_votes x) + length gs \<and>
    (t_is_done y \<longleftrightarrow> t_is_done x \<or> threshold_view (storage s) \<le> t_total_weight_accrued y)"
proof -
  let ?s = "run_calls C (map (\<lambda>g. C_vote g t) gs) s"
  from vote_run [OF assms(1-3,5-8)] obtain y where
    run: "count_votes (tally (threshold_view (storage s)) (timestamp C)) (map w gs) x = Some y"
    and y: "active_view (storage ?s) t = Some y" by blast
  have "invoke (get_task t) C ?s = (Ok (Some y), ?s)"
    using y by (auto simp: get_task_def invoke_def task_get_task_def get_active_task_def active_task_key_def
        instance_get_def views look_def split: option.splits)
  moreover note task_consensus.run_weight [OF run] task_consensus.run_votes_cast [OF run]
    task_consensus.run_resolved [OF run]
  ultimately show ?thesis using assms(4,8) by (auto simp: total_of_def word_le_nat_alt o_def)
qed

theorem collective_resolution_witness:
  "\<exists>y s. s = run_calls (demo_ctx 1000) (map (\<lambda>g. C_vote g 7) [bob, alice]) demo_open \<and>
    invoke (get_task 7) (demo_ctx 1000) s = (Ok (Some y), s) \<and> t_is_done y \<and> unat (t_total_weight_accrued y) = 340"
proof -
  let ?w = "\<lambda>g. if g = bob then 40 else 300"
  let ?s = "run_calls (demo_ctx 1000) (map (\<lambda>g. C_vote g 7) [bob, alice]) demo_open"
  have "may_vote (demo_ctx 1000) demo_open 7 ?w [bob, alice]"
    by (simp add: may_vote_def demo_open_eq views demo_ctx_def lock_held_def)
  moreover have "vault_pays (demo_ctx 1000) (storage demo_open) 7"
    by (simp add: vault_pays_def demo_ctx_def demo_externs_def)
  moreover have "active_view (storage demo_open) 7 = Some (new_task 7)" "threshold_view (storage demo_open) = 300"
    by (simp_all add: demo_open_eq views)
  ultimately obtain y where
    "invoke (get_task 7) (demo_ctx 1000) ?s = (Ok (Some y), ?s)"
    "unat (t_total_weight_accrued y) = 340" "t_is_done y \<longleftrightarrow> 300 \<le> t_total_weight_accrued y"
    using collective_resolution [OF well_typed_demo_open, of "demo_ctx 1000" 7 ?w "[bob, alice]" "new_task 7"]
    by (auto simp: new_task_def total_of_def)
  moreover from this(2,3) have "t_is_done y" by (simp add: word_le_nat_alt)
  ultimately show ?thesis by blast
qed

text \<open>
  C28. A resolved task is paid for again.  Voting goes on after the resolution: each further
  vote on a task that has reached the threshold calls the vault's \<open>release_funds\<close> for it once
  more, publishes another \<open>resolved\<close> event, and sets the time of resolution anew, which also
  puts off the archive.
\<close>

theorem payout_repeats:
  assumes "well_typed (storage s)" and "active_view (storage s) t = Some x" and "t_is_done x"
    and "threshold_view (storage s) \<le> t_total_weight_accrued x" and "vault_view (storage s) = Some v"
    and "invoke (vote g t) C s = (Ok (), s')"
  shows "x_release_funds (externs C) v t (world s) = Some (world s') \<and>
    (\<exists>y. active_view (storage s') t = Some y \<and> t_resolved_at y = timestamp C \<and>
       TaskResolved t (t_total_weight_accrued y) \<in> set (drop (length (events s)) (events s')))"
proof -
  from assms(1,2,6) obtain w y \<omega> where y: "tally (threshold_view (storage s)) (timestamp C) w x = Some y"
    and pay: "payout C s t y = Some \<omega>" and s': "s' = voted_env s g t w y \<omega>"
    by (auto simp: invoke_Ok_iff vote_Ok_iff eligible_def)
  from tally_SomeD(1) [OF y] assms(4) have thr: "threshold_view (storage s) \<le> t_total_weight_accrued y"
    by (simp add: word_le_nat_alt)
  with pay assms(5) have "x_release_funds (externs C) v t (world s) = Some \<omega>"
    by (simp add: payout_def reaches_def)
  with thr tally_SomeD(6) [OF y] show ?thesis
    by (auto simp: s' voted_env_def reaches_def view_upd)
qed

theorem payout_repeats_witness:
  "d_released (world (run_calls (demo_ctx 2000) [C_vote bob 7]
      (run_calls (demo_ctx 1000) [C_vote alice 7] demo_open))) = [7, 7]"
proof -
  let ?s = "run_calls (demo_ctx 1000) [C_vote alice 7] demo_open"
  let ?r = "run_calls (demo_ctx 2000) [C_vote bob 7] ?s"
  let ?x = "(new_task 7)\<lparr>t_total_weight_accrued := 300, t_votes := 1, t_is_done := True, t_resolved_at := 1000\<rparr>"
  have "d_released (world demo_open) = []"
    by (simp add: demo_open_def demo_setup_def demo_start_def run_exec)
  then have s: "well_typed (storage ?s)" "active_view (storage ?s) 7 = Some ?x" "t_is_done ?x"
    "threshold_view (storage ?s) \<le> t_total_weight_accrued ?x" "vault_view (storage ?s) = Some vault1"
    "d_released (world ?s) = [7]"
    and run: "invoke (vote bob 7) (demo_ctx 2000) ?s = (Ok (), ?r)"
    by (simp_all add: demo_open_eq vote_run_exec)
  have "x_release_funds (externs (demo_ctx 2000)) vault1 7 \<omega> = Some (\<omega>\<lparr>d_released := d_released \<omega> @ [7]\<rparr>)" for \<omega>
    by (simp add: demo_ctx_def demo_externs_def)
  with payout_repeats [OF s(1-5) run] have "world ?r = (world ?s)\<lparr>d_released := d_released (world ?s) @ [7]\<rparr>"
    by simp
  with s(6) show ?thesis by simp
qed

text \<open>
  C29. \<open>vote\<close> computes the consensus of \<open>consensus.rs\<close>.  For an admissible vote (with a vault
  that pays) it fails with \<open>WeightOverflow\<close> exactly where \<open>apply_vote\<close> does, and otherwise
  leaves the task in the state \<open>apply_vote\<close> computes; the one difference is the vote counter
  at its maximum, where \<open>apply_vote\<close> saturates and \<open>vote\<close> traps.
\<close>

theorem vote_refines_apply_vote:
  assumes "well_typed (storage s)" and "eligible C s g t w x" and "vault_pays C (storage s) t"
  shows "case apply_vote (consensus_of x) w (threshold_view (storage s)) of
      (Inl e, _) \<Rightarrow> e = ConsensusWeightOverflow \<and> fst (invoke (vote g t) C s) = Err WeightOverflow
    | (Inr _, st) \<Rightarrow>
        if t_votes x = - 1 then fst (invoke (vote g t) C s) = Trap ArithmeticOverflow
        else fst (invoke (vote g t) C s) = Ok () \<and>
          map_option consensus_of (active_view (storage (snd (invoke (vote g t) C s))) t) = Some st"
  by (rule vote_apply_vote [OF assms])

theorem vote_refines_apply_vote_witness:
  "map_option consensus_of (active_view (storage (snd (invoke (vote bob 7) (demo_ctx 1000) demo_open))) 7) =
     Some (snd (apply_vote consensus_new 40 300))"
proof -
  have el: "eligible (demo_ctx 1000) demo_open bob 7 40 (new_task 7)"
    by (simp add: eligible_def demo_open_eq views demo_ctx_def lock_held_def new_task_def)
  have pays: "vault_pays (demo_ctx 1000) (storage demo_open) 7"
    by (simp add: vault_pays_def demo_ctx_def demo_externs_def)
  have "consensus_of (new_task 7) = consensus_new" "threshold_view (storage demo_open) = 300"
    by (simp_all add: consensus_of_def consensus_new_def new_task_def demo_open_eq views)
  moreover obtain st where "apply_vote consensus_new 40 300 = (Inr (), st)"
    by (simp add: apply_vote_cases consensus_new_def)
  moreover have "t_votes (new_task 7) \<noteq> - 1" by (simp add: new_task_def)
  ultimately show ?thesis
    using vote_refines_apply_vote [OF well_typed_demo_open el pays]
    by (simp only: prod.case sum.case if_False simp_thms snd_conv)
qed

section \<open>Cancellation and reward streams\<close>

text \<open>
  C30. A cancelled task is out of the game: after a successful \<open>cancel_task\<close>, at any later
  time, no vote on it succeeds and no reward stream is started for it.
\<close>

theorem cancelled_for_good:
  assumes "reachable P R s" and "invoke (cancel_task a t) C s = (Ok (), s1)"
    and "(contract_step P R)\<^sup>*\<^sup>* s1 s2"
  shows "fst (invoke (vote g t) C' s2) \<noteq> Ok () \<and> fst (invoke (start_reward_stream b d c t) C' s2) \<noteq> Ok ()"
proof -
  from assms(1) have inv: "contract_inv s" by (rule vero.inv_reach)
  note wt = contract_inv_wt [OF inv]
  from assms(2) have run: "run_call (C_cancel_task a t) C s = (Ok (), s1)" by (simp add: invoke_Ok_iff)
  from inv run have inv1: "contract_inv s1" by (rule run_call_inv)
  from run wt obtain x where x: "active_view (storage s) t = Some x"
    and s1: "storage s1 = (storage s)(ActiveTask (t_id x) \<mapsto> VTask (x\<lparr>t_is_cancelled := True\<rparr>))"
    by (auto simp: guarded_exec cancel_task_exec split: if_splits option.splits)
  from contract_inv_active(1) [OF inv x] s1 have "task_of (storage s1) t = Some (x\<lparr>t_is_cancelled := True\<rparr>)"
    by (simp add: task_of_def view_upd)
  moreover have "task_grows (task_of (storage s1) t) (task_of (storage s2) t)"
    using steps_evolve [OF inv1 assms(3)] by (simp add: evolves_def)
  ultimately obtain y where "task_of (storage s2) t = Some y" "t_is_cancelled y"
    by (auto simp: task_grows_def)
  then have "\<forall>z. active_view (storage s2) t = Some z \<longrightarrow> t_is_cancelled z"
    by (auto simp: task_of_def)
  moreover have "well_typed (storage s2)"
    by (rule contract_inv_wt [OF vero.inv_steps [OF assms(3) inv1]])
  ultimately show ?thesis
    by (auto simp: vote_exec start_reward_stream_exec start_drips_stream_exec split: option.splits)
qed

theorem cancelled_for_good_witness:
  "let s = run_calls (demo_ctx 1000) [C_cancel_task admin1 7] demo_voted
   in fst (invoke (vote alice 7) (demo_ctx 1000) s) \<noteq> Ok ()"
proof -
  let ?s = "run_calls (demo_ctx 1000) [C_cancel_task admin1 7] demo_voted"
  have "invoke (cancel_task admin1 7) (demo_ctx 1000) demo_voted = (Ok (), ?s)"
    by (simp add: demo_voted_eq demo_open_eq run_exec cancel_task_exec)
  from cancelled_for_good [OF demo_reach(2) this rtranclp.rtrancl_refl] show ?thesis
    unfolding Let_def by blast
qed

text \<open>
  C31. What \<open>start_reward_stream\<close> does, on every path.  It succeeds exactly for an active,
  resolved task that is not cancelled and has no stream yet, when the Drips contract accepts;
  it then records the stream and announces it.  Each other case has its own error, a failing
  Drips contract traps (so that \<open>DripsCallFailed\<close> is never returned), and nothing changes.
\<close>

theorem start_reward_stream_outcome:
  assumes "well_typed (storage s)"
  shows "let res = invoke (start_reward_stream a d c t) C s in
    fst res =
      (if paused_view (storage s) then Err ContractPaused
       else if \<not> authorized C a then Trap AuthFailed
       else (case active_view (storage s) t of
         None \<Rightarrow> Err NotAuthorized
       | Some x \<Rightarrow>
           if t_is_cancelled x then Err TaskCancelled
           else if \<not> t_is_done x then Err TaskNotVerified
           else if stream_view (storage s) t \<noteq> None then Err StreamAlreadyActive
           else if x_start_stream (externs C) d c t 1 (world s) = None then Trap ContractCallFailed
           else Ok ())) \<and>
    (if fst res = Ok ()
     then stream_view (storage (snd res)) t = Some (new_stream d c t) \<and>
       streams_view (storage (snd res)) = streams_view (storage s) @ [t] \<and>
       events (snd res) = events s @ [RewardStreamStarted t c] \<and>
       x_start_stream (externs C) d c t 1 (world s) = Some (world (snd res))
     else snd res = s)"
proof -
  from assms have "stream_view (storage s) t = None \<longleftrightarrow> storage s (RewardStream t) = None"
    by (simp add: views look_None_iff)
  with assms show ?thesis
    by (auto simp: Let_def invoke_def start_reward_stream_exec start_drips_stream_exec views
        split: option.splits)
qed

theorem start_reward_stream_outcome_witness:
  "fst (invoke (start_reward_stream admin1 drips1 carol 7) (demo_ctx 1000) demo_open) = Err TaskNotVerified"
  using start_reward_stream_outcome [OF well_typed_demo_open, of admin1 drips1 carol 7 "demo_ctx 1000"]
  by (simp add: Let_def demo_open_eq views demo_ctx_def new_task_def)

text \<open>
  C32. At most one reward stream per task, ever: once started, every later attempt for the
  same task fails, whoever is named as contributor or Drips contract, and the record stays.
\<close>

theorem one_stream_per_task:
  assumes "reachable P R s" and "invoke (start_reward_stream a d c t) C s = (Ok (), s1)"
    and "(contract_step P R)\<^sup>*\<^sup>* s1 s2"
  shows "invoke (get_reward_stream t) C' s2 = (Ok (Some (new_stream d c t)), s2) \<and>
    fst (invoke (start_reward_stream a' d' c' t) C' s2) \<noteq> Ok ()"
proof -
  from assms(1) have inv: "contract_inv s" by (rule vero.inv_reach)
  from assms(2) have run: "start_reward_stream a d c t C s = (Ok (), s1)" by (simp add: invoke_Ok_iff)
  then have inv1: "contract_inv s1" by (rule stream_inv [OF inv])
  from contract_inv_wt [OF inv] run have "stream_view (storage s1) t = Some (new_stream d c t)"
    by (elim start_reward_stream_OkD) (auto simp: view_upd)
  with steps_evolve [OF inv1 assms(3)] have str: "stream_view (storage s2) t = Some (new_stream d c t)"
    by (auto simp: evolves_def)
  have wt: "well_typed (storage s2)" by (rule contract_inv_wt [OF vero.inv_steps [OF assms(3) inv1]])
  from str have "storage s2 (RewardStream t) \<noteq> None" by (auto simp: views look_def split: option.splits)
  with wt str show ?thesis
    by (auto simp: invoke_def get_reward_stream_def exec start_reward_stream_exec start_drips_stream_exec
        split: option.splits)
qed

theorem one_stream_per_task_witness:
  "fst (invoke (start_reward_stream admin1 drips1 bob 7) (demo_ctx 3000) demo_streamed) \<noteq> Ok ()"
proof -
  have "invoke (start_reward_stream admin1 drips1 carol 7) (demo_ctx 1000) demo_done = (Ok (), demo_streamed)"
    by (simp add: demo_streamed_def run_calls_def call_env_def invoke_def start_reward_stream_exec
        start_drips_stream_exec demo_done_eq demo_open_eq views demo_ctx_def demo_externs_def)
  from one_stream_per_task [OF demo_reach(3) this rtranclp.rtrancl_refl] show ?thesis by blast
qed

section \<open>The snapshot\<close>

text \<open>
  C33. A page of the snapshot.  As long as the four lists have fewer than \<open>2 ^ 32\<close> entries,
  \<open>get_snapshot\<close> never fails (no slice is out of bounds, whatever the offset and the limit) and
  changes nothing.  Its result is determined in every field: the six configuration values are
  those stored (pause flag, failure counter, threshold, administrator, vault, Drips address),
  and the five maps, sorted by key, hold for exactly the at most 32 entries of each list that
  the page covers what the stored records say.
\<close>

theorem snapshot_page:
  assumes "well_typed (storage s)" and "pageable (storage s)"
  shows "(\<exists>sn. invoke (get_snapshot offset limit) C s = (Ok sn, s)) \<and>
    (\<forall>sn. invoke (get_snapshot offset limit) C s = (Ok sn, s) \<longleftrightarrow>
       shows_page (storage s) offset limit sn \<and> shows_config (storage s) sn)"
  using get_snapshot_exec [OF assms, of offset limit C] get_snapshot_iff [OF assms, of offset limit C]
  by (auto simp: invoke_Ok_iff)

theorem snapshot_page_witness:
  "\<exists>sn. invoke (get_snapshot 0 (- 1)) (demo_ctx 1000) demo_open = (Ok sn, demo_open) \<and>
     sn_vault_address sn = Some vault1 \<and> sn_admin sn = None \<and> sn_drips_address sn = None \<and>
     map_of (sn_tasks sn) 7 = Some (new_task 7)"
proof -
  have "pageable (storage demo_open)" by (simp add: pageable_def demo_open_eq views)
  from snapshot_page [OF well_typed_demo_open this, of 0 "- 1" "demo_ctx 1000"] obtain sn
    where run: "invoke (get_snapshot 0 (- 1)) (demo_ctx 1000) demo_open = (Ok sn, demo_open)"
      and sn: "shows_page (storage demo_open) 0 (- 1) sn" "shows_config (storage demo_open) sn" by blast
  have "7 \<in> set (page 0 (- 1) (tasks_view (storage demo_open)))"
    by (simp add: page_def demo_open_eq views unsigned_minus_1_eq_mask mask_eq_exp_minus_1)
  with sn(1) have "map_of (sn_tasks sn) 7 = Some (new_task 7)"
    by (simp add: shows_page_def demo_open_eq views)
  moreover from sn(2) have "sn_vault_address sn = Some vault1" "sn_admin sn = None" "sn_drips_address sn = None"
    by (simp_all add: shows_config_def demo_open_eq views)
  ultimately show ?thesis using run by blast
qed

text \<open>
  C34. Paging is complete: in every reachable state, each guardian, active task, vote and
  reward stream is shown by some page whose offset is a multiple of the page size.
\<close>

theorem snapshot_complete:
  assumes "reachable P R s" and "pageable (storage s)"
  shows "(\<forall>g. guardian_view (storage s) g \<longrightarrow> (\<exists>i sn.
      invoke (get_snapshot (of_nat (32 * i)) 32) C s = (Ok sn, s) \<and> map_of (sn_guardians sn) g = Some True)) \<and>
    (\<forall>t x. active_view (storage s) t = Some x \<longrightarrow> (\<exists>i sn.
      invoke (get_snapshot (of_nat (32 * i)) 32) C s = (Ok sn, s) \<and> map_of (sn_tasks sn) t = Some x)) \<and>
    (\<forall>t g. storage s (Voted t g) \<noteq> None \<longrightarrow> (\<exists>i sn.
      invoke (get_snapshot (of_nat (32 * i)) 32) C s = (Ok sn, s) \<and> map_of (sn_votes sn) (t, g) = Some True)) \<and>
    (\<forall>t r. stream_view (storage s) t = Some r \<longrightarrow> (\<exists>i sn.
      invoke (get_snapshot (of_nat (32 * i)) 32) C s = (Ok sn, s) \<and> map_of (sn_reward_streams sn) t = Some r))"
proof -
  note inv = vero.inv_reach [OF assms(1)]
  have page: "\<exists>sn. invoke (get_snapshot (of_nat (32 * i)) 32) C s = (Ok sn, s) \<and>
      shows_page (storage s) (of_nat (32 * i)) 32 sn" for i
    using get_snapshot_exec [OF contract_inv_wt [OF inv] assms(2), of "of_nat (32 * i)" 32 C]
    unfolding invoke_Ok_iff by blast
  have lens: "length (guardians_view (storage s)) < 2 ^ 32" "length (tasks_view (storage s)) < 2 ^ 32"
    "length (votes_view (storage s)) < 2 ^ 32" "length (streams_view (storage s)) < 2 ^ 32"
    using assms(2) by (simp_all add: pageable_def)
  show ?thesis
  proof (intro conjI allI impI)
    fix g assume g: "guardian_view (storage s) g"
    from page_covers [OF guardian_listed [OF inv g] lens(1)] obtain i
      where "g \<in> set (page (of_nat (32 * i)) 32 (guardians_view (storage s)))" by blast
    with page [of i] g show "\<exists>i sn. invoke (get_snapshot (of_nat (32 * i)) 32) C s = (Ok sn, s) \<and>
      map_of (sn_guardians sn) g = Some True" unfolding shows_page_def by fastforce
  next
    fix t x assume x: "active_view (storage s) t = Some x"
    from page_covers [OF active_listed [OF inv x] lens(2)] obtain i
      where "t \<in> set (page (of_nat (32 * i)) 32 (tasks_view (storage s)))" by blast
    with page [of i] x show "\<exists>i sn. invoke (get_snapshot (of_nat (32 * i)) 32) C s = (Ok sn, s) \<and>
      map_of (sn_tasks sn) t = Some x" unfolding shows_page_def by fastforce
  next
    fix t g assume v: "storage s (Voted t g) \<noteq> None"
    from page_covers [OF vote_listed [OF inv v] lens(3)] obtain i
      where "(t, g) \<in> set (page (of_nat (32 * i)) 32 (votes_view (storage s)))" by blast
    with page [of i] show "\<exists>i sn. invoke (get_snapshot (of_nat (32 * i)) 32) C s = (Ok sn, s) \<and>
      map_of (sn_votes sn) (t, g) = Some True" unfolding shows_page_def by fastforce
  next
    fix t r assume r: "stream_view (storage s) t = Some r"
    from page_covers [OF stream_listed [OF inv r] lens(4)] obtain i
      where "t \<in> set (page (of_nat (32 * i)) 32 (streams_view (storage s)))" by blast
    with page [of i] r show "\<exists>i sn. invoke (get_snapshot (of_nat (32 * i)) 32) C s = (Ok sn, s) \<and>
      map_of (sn_reward_streams sn) t = Some r" unfolding shows_page_def by fastforce
  qed
qed

theorem snapshot_complete_witness:
  "\<exists>i sn. invoke (get_snapshot (of_nat (32 * i)) 32) (demo_ctx 1000) demo_done = (Ok sn, demo_done) \<and>
     map_of (sn_votes sn) (7, bob) = Some True"
proof -
  have "pageable (storage demo_done)" "storage demo_done (Voted 7 bob) \<noteq> None"
    by (simp_all add: pageable_def demo_done_eq demo_open_eq views)
  with snapshot_complete [OF demo_reach(3)] show ?thesis by blast
qed

section \<open>Time to live, frames, read-back\<close>

text \<open>
  C36. The time to live.  A call extends the time to live of the storage exactly if it is a
  successful \<open>initialize\<close> or \<open>add_guardian\<close> (\<open>refreshes\<close>); it then asks the host for \<open>LEDGER_TTL\<close> ledgers, and
  what the host answers is the new value.  No other call, and no failed one, touches it.  If the
  host never shortens a time to live, an extension is kept along every later run.
\<close>

theorem ttl_extended:
  assumes "reachable P R s" and "\<forall>B l. P B \<longrightarrow> l \<le> extend_live B LEDGER_TTL LEDGER_TTL l"
    and "(contract_step P R)\<^sup>*\<^sup>* (call_env C c s) s'"
  shows "live_until (call_env C c s) =
      (if fst (invoke (run_call c) C s) = Ok () \<and> refreshes c
       then extend_live C LEDGER_TTL LEDGER_TTL (live_until s) else live_until s) \<and>
    live_until (call_env C c s) \<le> live_until s'"
proof -
  from assms(1) have inv: "contract_inv s" by (rule vero.inv_reach)
  have "live_until (call_env C c s) \<le> live_until s'"
    by (rule steps_ttl [OF _ call_env_inv [OF inv] assms(3)]) (use assms(2) in \<open>simp add: LEDGER_TTL_def\<close>)
  then show ?thesis
    using call_env_ttl [OF contract_inv_wt [OF inv], of C c] unfolding LEDGER_TTL_def by blast
qed

theorem ttl_extended_witness:
  "100000 \<le> live_until (run_calls (demo_ctx 1000) [C_pause admin1] (call_env (demo_ctx 1000) (C_add_guardian admin1 carol) demo_open))"
proof -
  let ?P = "\<lambda>C :: demo_world ctx. extend_live C = (\<lambda>n m l. max l m)" and ?c = "C_add_guardian admin1 carol"
  let ?s = "call_env (demo_ctx 1000) ?c demo_open"
  have P: "?P (demo_ctx now)" for now by (simp add: demo_ctx_def)
  have ok: "fst (invoke (run_call ?c) (demo_ctx 1000) demo_open) = Ok ()"
    by (simp add: demo_open_eq run_exec)
  have "wasm_update ?s = None" by (simp add: demo_open_eq run_exec)
  then have step: "(contract_step ?P (\<lambda>_ _. True))\<^sup>*\<^sup>* ?s (run_calls (demo_ctx 1000) [C_pause admin1] ?s)"
    using call_step [of ?P "demo_ctx 1000" ?s "\<lambda>_ _. True" "C_pause admin1"] P by (simp add: run_calls_def r_into_rtranclp)
  have "LEDGER_TTL \<le> extend_live (demo_ctx 1000) LEDGER_TTL LEDGER_TTL (live_until demo_open)"
    by (simp add: demo_ctx_def)
  also have "\<dots> \<le> live_until (run_calls (demo_ctx 1000) [C_pause admin1] ?s)"
    using ttl_extended [OF reachable_demo(1) [of ?P, OF P] _ step] ok by (metis (no_types, lifting) max.cobounded1 refreshes.simps(2))
  finally show ?thesis by (simp add: LEDGER_TTL_def)
qed

text \<open>
  C39. What a call leaves alone.  In every reachable state a call, whatever its outcome, changes
  no storage key outside its \<open>footprint\<close>: nobody's reputation, membership, balance, votes or
  tasks other than those the call names, and \<open>Admin\<close>, \<open>DripsAddress\<close> and the lock never.  The
  state of the other contracts changes only in the calls that reach out to them, and the code
  only in an upgrade.
\<close>

theorem footprint_sound:
  assumes "reachable P R s"
  shows "(\<forall>k. k \<notin> footprint c \<longrightarrow> storage (call_env C c s) k = storage s k) \<and>
    (\<not> reaches_out c \<longrightarrow> world (call_env C c s) = world s) \<and>
    (\<not> upgrade_call c \<longrightarrow> wasm_update (call_env C c s) = wasm_update s)"
  using call_env_frame call_env_world call_env_wasm vero.inv_reach [OF assms] by blast

theorem footprint_sound_witness:
  "storage demo_done (LockedBalance bob) = storage demo_voted (LockedBalance bob) \<and>
   storage demo_done (ActiveTask 8) = storage demo_voted (ActiveTask 8)"
proof -
  have run: "call_env (demo_ctx 1000) (C_vote alice 7) demo_voted = demo_done"
    by (simp add: demo_done_def run_calls_def)
  show ?thesis
    using footprint_sound [OF demo_reach(2), of "C_vote alice 7" "demo_ctx 1000"] unfolding run by simp
qed

text \<open>
  C40. What was written is read back.  After a successful call the readers \<open>is_paused\<close>,
  \<open>is_guardian\<close>, \<open>get_reputation\<close>, \<open>calculate_voting_power\<close>, \<open>get_weight_threshold\<close>, \<open>get_task\<close>
  and \<open>get_reward_stream\<close> answer what the call has stored (\<open>answers\<close>), without failing and
  without an effect, in any context, and they go on answering so through every run of calls
  whose footprints are disjoint from that of the call.
\<close>

theorem read_back:
  assumes "reachable P R s" and "invoke (run_call c) B s = (Ok (), s')"
    and "\<forall>(D, d)\<in>set cs. footprint d \<inter> footprint c = {} \<and> \<not> upgrade_call d"
  shows "answers B s c C (run_trace cs s')"
proof -
  from assms(1) have inv: "contract_inv s" by (rule vero.inv_reach)
  from assms(2) have run: "run_call c B s = (Ok (), s')" by (simp add: invoke_Ok_iff)
  note inv' = run_call_inv [OF inv run]
  have frame: "storage (run_trace cs s') k = storage s' k"
    if "k \<in> footprint c" for k
    using run_trace_frame [OF inv', of cs k] assms(3) that by fastforce
  have inv'': "contract_inv (run_trace cs s')" by (rule run_trace_inv [OF inv'])
  show ?thesis
    by (rule answers_frame [OF contract_inv_wt [OF inv'] contract_inv_wt [OF inv''] _ answers_after [OF inv run]])
      (use frame in blast)
qed

theorem read_back_witness:
  "reads (get_reputation carol) (Some 55) (demo_ctx 0)
     (run_trace [(demo_ctx 2000, C_vote bob 7), (demo_ctx 3000, C_set_reputation admin1 alice 1)]
       (call_env (demo_ctx 1000) (C_set_reputation admin1 carol 55) demo_open))"
proof -
  let ?c = "C_set_reputation admin1 carol 55"
  have "invoke (run_call ?c) (demo_ctx 1000) demo_open = (Ok (), call_env (demo_ctx 1000) ?c demo_open)"
    by (simp add: demo_open_eq run_exec)
  from read_back [OF demo_reach(1) this,
      of "[(demo_ctx 2000, C_vote bob 7), (demo_ctx 3000, C_set_reputation admin1 alice 1)]" "demo_ctx 0"]
  show ?thesis by simp
qed

end
